(* ===== verification/Prelude.thy ===== *)
theory Prelude
  imports Main
begin

text \<open>
  What every component of the model shares: Python's exceptions as values, a
  state-and-exception monad in which each method of the source is written
  statement by statement, the rules that carry an invariant through such a
  block, and Python's insertion-ordered dictionaries.  Exceptions do not roll
  the state back: what a statement did before a later one raises stays done,
  as in the source.
\<close>

section \<open>Lists\<close>

lemma distinct_count_list: "distinct xs \<Longrightarrow> count_list xs a = (if a \<in> set xs then 1 else 0)"
  by (induction xs) auto

lemma sorted_wrt_distinct: "sorted_wrt R xs \<Longrightarrow> (\<And>x. \<not> R x x) \<Longrightarrow> distinct xs"
  by (induction xs) auto

section \<open>Exceptions and results\<close>

text \<open>
  \<open>BotoServerError\<close> carries the error code, the reason and the message, \<open>ConfigParserError\<close> the name of the
  subclass, \<open>UsageExit\<close> the exit status of \<open>argparse\<close>.  \<open>NotReturned\<close> is no exception
  of Python: it stands for a loop whose fuel is used up or a call that blocks.
\<close>

datatype py_exn =
    AttributeError
  | BotoServerError string string string
  | ConfigParserError string
  | FileExistsError
  | FileNotFoundError
  | IndexError
  | IsADirectoryError
  | KeyError
  | NotADirectoryError
  | OSError
  | NotReturned
  | OverflowError
  | PyException string
  | SystemExit string
  | TypeError
  | UnboundLocalError
  | UnicodeDecodeError
  | UsageExit nat
  | ValueError
  | ZeroDivisionError

type_synonym 'a res = "py_exn + 'a"

definition bind_res :: "'a res \<Rightarrow> ('a \<Rightarrow> 'b res) \<Rightarrow> 'b res" where
  "bind_res r f = (case r of Inl e \<Rightarrow> Inl e | Inr x \<Rightarrow> f x)"

lemma bind_res_simps [simp]:
  "bind_res (Inl e) f = Inl e"
  "bind_res (Inr x) f = f x"
  by (simp_all add: bind_res_def)

lemma bind_res_eq_Inr: "bind_res r f = Inr y \<longleftrightarrow> (\<exists>x. r = Inr x \<and> f x = Inr y)"
  by (cases r) simp_all

lemma bind_res_assoc: "bind_res (bind_res r f) g = bind_res r (\<lambda>x. bind_res (f x) g)"
  by (simp add: bind_res_def split: sum.split)

lemma bind_res_cong [fundef_cong]:
  "r = r' \<Longrightarrow> (\<And>x. r' = Inr x \<Longrightarrow> f x = g x) \<Longrightarrow> bind_res r f = bind_res r' g"
  by (cases r') simp_all

text \<open>A comprehension \<open>[f(x) for x in xs]\<close> stops at the first element that raises.\<close>

primrec map_res :: "('a \<Rightarrow> 'b res) \<Rightarrow> 'a list \<Rightarrow> 'b list res" where
  "map_res f [] = Inr []"
| "map_res f (x # xs) =
     bind_res (f x) (\<lambda>y. bind_res (map_res f xs) (\<lambda>ys. Inr (y # ys)))"

lemma map_res_all_Inr: "(\<And>x. x \<in> set xs \<Longrightarrow> f x = Inr (g x)) \<Longrightarrow> map_res f xs = Inr (map g xs)"
  by (induction xs) simp_all

lemma map_res_length: "map_res f xs = Inr ys \<Longrightarrow> length ys = length xs"
  by (induction xs arbitrary: ys) (auto simp: bind_res_eq_Inr)

text \<open>A loop that updates one value.\<close>

primrec fold_res :: "('a \<Rightarrow> 'b \<Rightarrow> 'b res) \<Rightarrow> 'b \<Rightarrow> 'a list \<Rightarrow> 'b res" where
  "fold_res f acc [] = Inr acc"
| "fold_res f acc (x # xs) = bind_res (f x acc) (\<lambda>acc. fold_res f acc xs)"

section \<open>Statements over a state\<close>

type_synonym ('s, 'a) py = "'s \<Rightarrow> 'a res \<times> 's"

definition py_return :: "'a \<Rightarrow> ('s, 'a) py" where
  "py_return x s = (Inr x, s)"

definition py_raise :: "py_exn \<Rightarrow> ('s, 'a) py" where
  "py_raise e s = (Inl e, s)"

definition py_lift :: "'a res \<Rightarrow> ('s, 'a) py" where
  "py_lift r s = (r, s)"

definition py_gets :: "('s \<Rightarrow> 'a) \<Rightarrow> ('s, 'a) py" where
  "py_gets f s = (Inr (f s), s)"

definition py_modify :: "('s \<Rightarrow> 's) \<Rightarrow> ('s, unit) py" where
  "py_modify f s = (Inr (), f s)"

definition py_bind :: "('s, 'a) py \<Rightarrow> ('a \<Rightarrow> ('s, 'b) py) \<Rightarrow> ('s, 'b) py" where
  "py_bind m f s = (case m s of (Inl e, s') \<Rightarrow> (Inl e, s') | (Inr x, s') \<Rightarrow> f x s')"

text \<open>A suite of statements, an \<open>if\<close> without \<open>else\<close> and a \<open>for\<close> loop.\<close>

primrec py_block :: "('s, unit) py list \<Rightarrow> ('s, unit) py" where
  "py_block [] = py_return ()"
| "py_block (m # ms) = py_bind m (\<lambda>_. py_block ms)"

definition py_when :: "bool \<Rightarrow> ('s, unit) py \<Rightarrow> ('s, unit) py" where
  "py_when b m = (if b then m else py_return ())"

primrec py_for :: "'a list \<Rightarrow> ('a \<Rightarrow> ('s, unit) py) \<Rightarrow> ('s, unit) py" where
  "py_for [] f = py_return ()"
| "py_for (x # xs) f = py_bind (f x) (\<lambda>_. py_for xs f)"

text \<open>\<open>try: m  except E: h\<close>, where \<open>p\<close> recognises the exceptions of \<open>E\<close>.\<close>

definition py_except :: "('s, 'a) py \<Rightarrow> (py_exn \<Rightarrow> bool) \<Rightarrow> (py_exn \<Rightarrow> ('s, 'a) py) \<Rightarrow> ('s, 'a) py"
where
  "py_except m p h s =
     (case m s of (Inl e, s') \<Rightarrow> if p e then h e s' else (Inl e, s') | (Inr x, s') \<Rightarrow> (Inr x, s'))"

named_theorems py_defs \<open>the statement combinators, unfolded\<close>

lemmas [py_defs] =
  py_return_def py_raise_def py_lift_def py_gets_def py_modify_def py_bind_def py_when_def
  py_except_def

lemma py_bind_simps [simp]:
  "py_bind (py_return x) f = f x"
  "py_bind (py_raise e) f = py_raise e"
  "py_bind (py_lift (Inr x)) f = f x"
  "py_bind (py_lift (Inl e)) f = py_raise e"
  by (simp_all add: fun_eq_iff py_defs)

lemma py_when_simps [simp]: "py_when True m = m" "py_when False m = py_return ()"
  by (simp_all add: py_when_def)

lemma py_bind_return [simp]: "py_bind m py_return = m"
  by (auto simp: fun_eq_iff py_defs split: sum.splits prod.splits)

lemma py_bind_assoc: "py_bind (py_bind m f) g = py_bind m (\<lambda>x. py_bind (f x) g)"
  by (auto simp: fun_eq_iff py_defs split: sum.splits prod.splits)

lemma py_bind_eq_Inr: "py_bind m f s = (Inr y, t) \<longleftrightarrow> (\<exists>x s1. m s = (Inr x, s1) \<and> f x s1 = (Inr y, t))"
  by (auto simp: py_bind_def split: prod.splits sum.splits)

lemma py_block_append: "py_block (xs @ ys) = py_bind (py_block xs) (\<lambda>_. py_block ys)"
  by (induction xs) (simp_all add: py_bind_assoc)

section \<open>Invariants and postconditions of statements\<close>

text \<open>
  \<open>keeps P m\<close>: from any state with \<open>P\<close> the statement \<open>m\<close> ends in one with \<open>P\<close>, whether it
  returns or raises.  \<open>ensures P m Q\<close>: from a state with \<open>P\<close>, if \<open>m\<close> returns, then \<open>Q\<close> holds
  of the value and the state it leaves.
\<close>

definition keeps :: "('s \<Rightarrow> bool) \<Rightarrow> ('s, 'a) py \<Rightarrow> bool" where
  "keeps P m \<longleftrightarrow> (\<forall>s. P s \<longrightarrow> P (snd (m s)))"

definition ensures :: "('s \<Rightarrow> bool) \<Rightarrow> ('s, 'a) py \<Rightarrow> ('a \<Rightarrow> 's \<Rightarrow> bool) \<Rightarrow> bool" where
  "ensures P m Q \<longleftrightarrow> (\<forall>s x s'. P s \<longrightarrow> m s = (Inr x, s') \<longrightarrow> Q x s')"

named_theorems keeps_rules \<open>rules that split \<open>keeps\<close> along the program text\<close>

lemma keepsI: "(\<And>s. P s \<Longrightarrow> P (snd (m s))) \<Longrightarrow> keeps P m"
  by (simp add: keeps_def)

lemma keepsD: "keeps P m \<Longrightarrow> P s \<Longrightarrow> P (snd (m s))"
  by (simp add: keeps_def)

lemma keeps_return [keeps_rules]: "keeps P (py_return x)"
  by (simp add: keeps_def py_defs)

lemma keeps_raise [keeps_rules]: "keeps P (py_raise e)"
  by (simp add: keeps_def py_defs)

lemma keeps_lift [keeps_rules]: "keeps P (py_lift r)"
  by (simp add: keeps_def py_defs)

lemma keeps_gets [keeps_rules]: "keeps P (py_gets f)"
  by (simp add: keeps_def py_defs)

lemma keeps_bind [keeps_rules]: "keeps P m \<Longrightarrow> (\<And>x. keeps P (f x)) \<Longrightarrow> keeps P (py_bind m f)"
  by (auto simp: keeps_def py_defs split: prod.splits sum.splits)

lemma keeps_when [keeps_rules]: "(b \<Longrightarrow> keeps P m) \<Longrightarrow> keeps P (py_when b m)"
  by (simp add: py_when_def keeps_return)

lemma keeps_if [keeps_rules]:
  "(b \<Longrightarrow> keeps P m) \<Longrightarrow> (\<not> b \<Longrightarrow> keeps P m') \<Longrightarrow> keeps P (if b then m else m')"
  by simp

lemma keeps_block_Nil [keeps_rules]: "keeps P (py_block [])"
  by (simp add: keeps_return)

lemma keeps_block_Cons [keeps_rules]:
  "keeps P m \<Longrightarrow> keeps P (py_block ms) \<Longrightarrow> keeps P (py_block (m # ms))"
  by (simp add: keeps_bind)

lemma keeps_for [keeps_rules]: "(\<And>x. x \<in> set xs \<Longrightarrow> keeps P (f x)) \<Longrightarrow> keeps P (py_for xs f)"
  by (induction xs) (simp_all add: keeps_return keeps_bind)

lemma keeps_except [keeps_rules]:
  "keeps P m \<Longrightarrow> (\<And>e. keeps P (h e)) \<Longrightarrow> keeps P (py_except m p h)"
  by (auto simp: keeps_def py_defs split: prod.splits sum.splits)

lemma keeps_modify: "(\<And>s. P s \<Longrightarrow> P (f s)) \<Longrightarrow> keeps P (py_modify f)"
  by (simp add: keeps_def py_defs)

lemma keeps_option [keeps_rules]:
  "(x = None \<Longrightarrow> keeps P m) \<Longrightarrow> (\<And>y. x = Some y \<Longrightarrow> keeps P (f y)) \<Longrightarrow>
   keeps P (case x of None \<Rightarrow> m | Some y \<Rightarrow> f y)"
  by (cases x) simp_all

lemma ensuresD: "ensures P m Q \<Longrightarrow> P s \<Longrightarrow> m s = (Inr x, s') \<Longrightarrow> Q x s'"
  by (simp add: ensures_def)

lemma ensures_bind:
  "ensures P m Q \<Longrightarrow> (\<And>x. ensures (Q x) (f x) R) \<Longrightarrow> ensures P (py_bind m f) R"
  by (auto simp: ensures_def py_defs split: prod.splits sum.splits)

lemma ensures_return: "(\<And>s. P s \<Longrightarrow> Q x s) \<Longrightarrow> ensures P (py_return x) Q"
  by (simp add: ensures_def py_defs)

lemma ensures_weaken: "ensures P m Q \<Longrightarrow> (\<And>x s. Q x s \<Longrightarrow> R x s) \<Longrightarrow> ensures P m R"
  by (auto simp: ensures_def)

lemma py_for_map: "py_for (map g xs) f = py_for xs (\<lambda>x. f (g x))"
  by (induction xs) simp_all

lemma py_for_cong: "(\<And>x. x \<in> set xs \<Longrightarrow> f x = g x) \<Longrightarrow> py_for xs f = py_for xs g"
  by (induction xs) simp_all

text \<open>A loop that returns: what each round establishes and every round keeps holds for all elements.\<close>

lemma py_for_all:
  assumes "\<And>x. x \<in> set xs \<Longrightarrow> keeps I (f x)"
    and "\<And>x y. x \<in> set xs \<Longrightarrow> keeps (\<lambda>s. I s \<and> Q y s) (f x)"
    and "\<And>x s s'. x \<in> set xs \<Longrightarrow> I s \<Longrightarrow> f x s = (Inr (), s') \<Longrightarrow> Q x s'"
    and "I s" and "py_for xs f s = (Inr (), s')"
  shows "I s' \<and> (\<forall>x \<in> set xs. Q x s')"
  using assms
proof (induction xs arbitrary: s)
  case (Cons x xs)
  from Cons.prems(5) obtain s1 where 1: "f x s = (Inr (), s1)" "py_for xs f s1 = (Inr (), s')"
    by (auto simp: py_bind_def split: prod.splits sum.splits)
  have I1: "I s1" using keepsD [OF Cons.prems(1) [of x] Cons.prems(4)] 1(1) by simp
  have "I s' \<and> (\<forall>y \<in> set xs. Q y s')"
    by (rule Cons.IH [OF _ _ _ I1 1(2)]) (use Cons.prems in auto)
  moreover have "keeps (\<lambda>s. I s \<and> Q x s) (py_for xs f)"
    by (rule keeps_for) (use Cons.prems(2) in auto)
  then have "Q x s'" using keepsD [of "\<lambda>s. I s \<and> Q x s" "py_for xs f" s1] I1 1
      Cons.prems(3) [OF _ Cons.prems(4) 1(1)] by simp
  ultimately show ?case by simp
qed (simp add: py_return_def)

section \<open>Runs of a component\<close>

text \<open>
  A component is driven by a sequence of calls; a caller that survives an exception goes on from
  the state the failed call left.  The locale \<open>guarded_component\<close> is the contract of every stateful
  component here: one invariant, kept by every call, returning or raising.
\<close>

definition run_calls :: "('e \<Rightarrow> ('s, unit) py) \<Rightarrow> 's \<Rightarrow> 'e list \<Rightarrow> 's" where
  "run_calls call s es = foldl (\<lambda>s e. snd (call e s)) s es"

lemma run_calls_simps [simp]:
  "run_calls call s [] = s"
  "run_calls call s (e # es) = run_calls call (snd (call e s)) es"
  by (simp_all add: run_calls_def)

lemma run_calls_append: "run_calls call s (es @ es') = run_calls call (run_calls call s es) es'"
  by (simp add: run_calls_def)

text \<open>Every call of the run returns.\<close>

primrec all_return :: "('e \<Rightarrow> ('s, unit) py) \<Rightarrow> 's \<Rightarrow> 'e list \<Rightarrow> bool" where
  "all_return call s [] = True"
| "all_return call s (e # es) = (fst (call e s) = Inr () \<and> all_return call (snd (call e s)) es)"

lemma all_return_append:
  "all_return call s (es @ es') \<longleftrightarrow> all_return call s es \<and> all_return call (run_calls call s es) es'"
  by (induction es arbitrary: s) simp_all

locale guarded_component =
  fixes call :: "'e \<Rightarrow> ('s, unit) py"
    and invar :: "'s \<Rightarrow> bool"
  assumes call_keeps: "keeps invar (call e)"
begin

lemma run_keeps: "invar s \<Longrightarrow> invar (run_calls call s es)"
  by (induction es arbitrary: s) (auto intro: keepsD [OF call_keeps])

lemma prefix_keeps: "invar s \<Longrightarrow> es = es1 @ es2 \<Longrightarrow> invar (run_calls call s es1)"
  by (simp add: run_keeps)

end

end
