(* ===== verification/PyDict.thy ===== *)
theory PyDict
  imports Prelude
begin

text \<open>
  Python's dictionaries: insertion-ordered association lists.  Assigning to a present key keeps
  its position, assigning to a new one appends it, and iteration follows the list.  The locale
  \<open>kv_store\<close> is what the components rely on; it is interpreted on these very operations.
\<close>

type_synonym ('k, 'v) dict = "('k \<times> 'v) list"

section \<open>Operations\<close>

primrec dict_set :: "('k, 'v) dict \<Rightarrow> 'k \<Rightarrow> 'v \<Rightarrow> ('k, 'v) dict" where
  "dict_set [] k v = [(k, v)]"
| "dict_set (p # d) k v = (if fst p = k then (k, v) # d else p # dict_set d k v)"

definition dict_del :: "('k, 'v) dict \<Rightarrow> 'k \<Rightarrow> ('k, 'v) dict" where
  "dict_del d k = filter (\<lambda>p. fst p \<noteq> k) d"

definition dict_get :: "('k, 'v) dict \<Rightarrow> 'k \<Rightarrow> 'v option" where
  "dict_get d k = map_of d k"

text \<open>\<open>d[k]\<close>, which raises \<open>KeyError\<close>, and the keys in order.\<close>

definition dict_index :: "('k, 'v) dict \<Rightarrow> 'k \<Rightarrow> 'v res" where
  "dict_index d k = (case map_of d k of None \<Rightarrow> Inl KeyError | Some v \<Rightarrow> Inr v)"

definition dict_keys :: "('k, 'v) dict \<Rightarrow> 'k list" where
  "dict_keys d = map fst d"

definition wf_dict :: "('k, 'v) dict \<Rightarrow> bool" where
  "wf_dict d = distinct (map fst d)"

text \<open>\<open>d.update(d')\<close> and a dictionary comprehension \<open>{k: v for k in ks}\<close>.\<close>

definition dict_update :: "('k, 'v) dict \<Rightarrow> ('k, 'v) dict \<Rightarrow> ('k, 'v) dict" where
  "dict_update d d' = foldl (\<lambda>d (k, v). dict_set d k v) d d'"

definition dict_const :: "'k list \<Rightarrow> 'v \<Rightarrow> ('k, 'v) dict" where
  "dict_const ks v = foldl (\<lambda>d k. dict_set d k v) [] ks"

section \<open>Laws\<close>

lemma map_of_dict_set [simp]: "map_of (dict_set d k v) = (map_of d)(k \<mapsto> v)"
  by (induction d) auto

lemma map_of_dict_del [simp]: "map_of (dict_del d k) = (map_of d)(k := None)"
  by (induction d) (auto simp: dict_del_def)

lemma map_fst_dict_set:
  "map fst (dict_set d k v) = (if k \<in> fst ` set d then map fst d else map fst d @ [k])"
  by (induction d) auto

lemma fst_set_dict_set [simp]: "fst ` set (dict_set d k v) = insert k (fst ` set d)"
  by (induction d) auto

lemma snd_set_dict_set: "p \<in> set (dict_set d k v) \<Longrightarrow> p = (k, v) \<or> p \<in> set d"
  by (induction d) (auto split: if_splits)

lemma set_dict_del: "set (dict_del d k) = {p \<in> set d. fst p \<noteq> k}"
  by (auto simp: dict_del_def)

lemma wf_dict_Nil [simp]: "wf_dict []"
  by (simp add: wf_dict_def)

lemma wf_dict_set [simp]: "wf_dict d \<Longrightarrow> wf_dict (dict_set d k v)"
  by (auto simp: wf_dict_def map_fst_dict_set)

lemma wf_dict_del [simp]: "wf_dict d \<Longrightarrow> wf_dict (dict_del d k)"
  by (induction d) (auto simp: wf_dict_def dict_del_def)

lemma dict_keys_set: "dict_keys (dict_set d k v) = (if k \<in> set (dict_keys d) then dict_keys d else dict_keys d @ [k])"
  by (simp add: dict_keys_def map_fst_dict_set)

lemma dom_map_of_keys: "dom (map_of d) = set (dict_keys d)"
  by (simp add: dom_map_of_conv_image_fst dict_keys_def)

lemma map_of_SomeD_wf: "wf_dict d \<Longrightarrow> map_of d k = Some v \<longleftrightarrow> (k, v) \<in> set d"
  by (simp add: wf_dict_def)

lemma dict_index_eq_Inr [simp]: "dict_index d k = Inr v \<longleftrightarrow> map_of d k = Some v"
  by (auto simp: dict_index_def split: option.splits)

lemma dict_index_eq_Inl: "dict_index d k = Inl e \<longleftrightarrow> e = KeyError \<and> k \<notin> set (dict_keys d)"
  by (cases "map_of d k") (auto simp: dict_index_def dom_map_of_keys [symmetric])

text \<open>Iterating over a dictionary and writing back under the same key changes that value only.\<close>

lemma map_of_dict_const: "map_of (dict_const ks v) = (\<lambda>k. if k \<in> set ks then Some v else None)"
proof -
  have "map_of (foldl (\<lambda>d k. dict_set d k v) d ks) = (\<lambda>k. if k \<in> set ks then Some v else map_of d k)"
    for d by (induction ks arbitrary: d) auto
  from this [of "[]"] show ?thesis by (auto simp: dict_const_def fun_eq_iff)
qed

lemma wf_dict_const [simp]: "wf_dict (dict_const ks v)"
proof -
  have "wf_dict d \<Longrightarrow> wf_dict (foldl (\<lambda>d k. dict_set d k v) d ks)" for d
    by (induction ks arbitrary: d) auto
  then show ?thesis by (simp add: dict_const_def)
qed

lemma dict_keys_const: "distinct ks \<Longrightarrow> dict_keys (dict_const ks v) = ks"
proof -
  have "distinct ks \<Longrightarrow> set ks \<inter> set (dict_keys d) = {} \<Longrightarrow>
        dict_keys (foldl (\<lambda>d k. dict_set d k v) d ks) = dict_keys d @ ks" for d
    by (induction ks arbitrary: d) (auto simp: dict_keys_set)
  from this [of "[]"] show "distinct ks \<Longrightarrow> dict_keys (dict_const ks v) = ks"
    by (simp add: dict_const_def dict_keys_def)
qed

section \<open>The interface\<close>

locale kv_store =
  fixes get :: "'d \<Rightarrow> 'k \<Rightarrow> 'v option"
    and put :: "'d \<Rightarrow> 'k \<Rightarrow> 'v \<Rightarrow> 'd"
    and del :: "'d \<Rightarrow> 'k \<Rightarrow> 'd"
    and keys :: "'d \<Rightarrow> 'k list"
    and valid :: "'d \<Rightarrow> bool"
  assumes get_put: "valid d \<Longrightarrow> get (put d k v) = (get d)(k \<mapsto> v)"
    and get_del: "valid d \<Longrightarrow> get (del d k) = (get d)(k := None)"
    and keys_get: "valid d \<Longrightarrow> set (keys d) = dom (get d)"
    and keys_put: "valid d \<Longrightarrow> keys (put d k v) = (if k \<in> set (keys d) then keys d else keys d @ [k])"
    and valid_put: "valid d \<Longrightarrow> valid (put d k v)"
    and valid_del: "valid d \<Longrightarrow> valid (del d k)"
begin

lemma valid_puts: "valid d \<Longrightarrow> valid (foldl (\<lambda>d (k, v). put d k v) d kvs)"
  by (induction kvs arbitrary: d) (auto simp: valid_put)

lemma get_puts:
  "valid d \<Longrightarrow> get (foldl (\<lambda>d (k, v). put d k v) d kvs) = get d ++ map_of (rev kvs)"
  by (induction kvs arbitrary: d) (auto simp: get_put valid_put fun_eq_iff map_add_def split: option.splits)

lemma get_puts_other:
  "valid d \<Longrightarrow> k \<notin> fst ` set kvs \<Longrightarrow> get (foldl (\<lambda>d (k, v). put d k v) d kvs) k = get d k"
  by (simp add: get_puts map_add_def map_of_eq_None_iff [THEN iffD2] image_image split: option.splits)

end

interpretation pd: kv_store dict_get dict_set dict_del dict_keys wf_dict
  by unfold_locales (simp_all add: dict_get_def [abs_def] dom_map_of_keys dict_keys_set)

lemma map_of_dict_update: "wf_dict d \<Longrightarrow> map_of (dict_update d d') = map_of d ++ map_of (rev d')"
  using pd.get_puts [of d d'] by (simp add: dict_update_def dict_get_def [abs_def])

lemma wf_dict_update: "wf_dict d \<Longrightarrow> wf_dict (dict_update d d')"
  unfolding dict_update_def by (rule pd.valid_puts)

section \<open>Counting entries\<close>

definition dict_count :: "('v \<Rightarrow> bool) \<Rightarrow> ('k, 'v) dict \<Rightarrow> nat" where
  "dict_count P d = length (filter (\<lambda>p. P (snd p)) d)"

lemma dict_count_card: "wf_dict d \<Longrightarrow> dict_count P d = card {k. \<exists>v. map_of d k = Some v \<and> P v}"
proof -
  assume wf: "wf_dict d"
  let ?f = "filter (\<lambda>p. P (snd p)) d"
  have "distinct (map fst ?f)"
    using wf by (simp add: wf_dict_def distinct_map_filter)
  then have "length ?f = card (set (map fst ?f))"
    by (metis distinct_card length_map)
  moreover have "set (map fst ?f) = {k. \<exists>v. map_of d k = Some v \<and> P v}"
    using wf by (force simp: map_of_SomeD_wf)
  ultimately show ?thesis by (simp add: dict_count_def)
qed

lemma dict_count_le: "dict_count P d \<le> length d"
  by (simp add: dict_count_def)

lemma length_dict_set: "length (dict_set d k v) = (if k \<in> set (dict_keys d) then length d else Suc (length d))"
  by (induction d) (auto simp: dict_keys_def)

lemma length_dict_del: "wf_dict d \<Longrightarrow> k \<in> set (dict_keys d) \<Longrightarrow> Suc (length (dict_del d k)) = length d"
proof (induction d)
  case (Cons p d)
  have *: "filter (\<lambda>q. fst q \<noteq> fst p) d = d"
    using Cons.prems by (auto simp: wf_dict_def filter_id_conv image_iff)
  show ?case using Cons * by (auto simp: wf_dict_def dict_keys_def dict_del_def)
qed (simp add: dict_keys_def)

end
