(* ===== verification/PyStr.thy ===== *)
theory PyStr
  imports Prelude "HOL-Library.Sublist"
begin

text \<open>
  Python's \<open>str\<close> as the code uses it.  A string is a list of code points below 256 (Isabelle's
  \<open>char\<close>), so the case mapping, the whitespace test and the digit test are those of Python 3 on
  that range.  \<open>str.lower\<close>, \<open>strip\<close>, \<open>split\<close>, \<open>join\<close>, the prefix and suffix tests, substring
  search and decimal printing are written out, with the laws the components use.
\<close>

section \<open>Characters\<close>

definition code_of :: "char \<Rightarrow> nat" where
  "code_of c = of_char c"

definition is_upper :: "char \<Rightarrow> bool" where
  "is_upper c \<longleftrightarrow> (65 \<le> code_of c \<and> code_of c \<le> 90) \<or>
     (192 \<le> code_of c \<and> code_of c \<le> 222 \<and> code_of c \<noteq> 215)"

definition is_AZ :: "char \<Rightarrow> bool" where
  "is_AZ c \<longleftrightarrow> 65 \<le> code_of c \<and> code_of c \<le> 90"

definition is_az :: "char \<Rightarrow> bool" where
  "is_az c \<longleftrightarrow> 97 \<le> code_of c \<and> code_of c \<le> 122"

definition is_09 :: "char \<Rightarrow> bool" where
  "is_09 c \<longleftrightarrow> 48 \<le> code_of c \<and> code_of c \<le> 57"

definition lower_char :: "char \<Rightarrow> char" where
  "lower_char c = (if is_upper c then char_of (code_of c + 32) else c)"

definition py_lower :: "string \<Rightarrow> string" where
  "py_lower s = map lower_char s"

definition is_space :: "char \<Rightarrow> bool" where
  "is_space c \<longleftrightarrow> (9 \<le> code_of c \<and> code_of c \<le> 13) \<or> (28 \<le> code_of c \<and> code_of c \<le> 32)
     \<or> code_of c = 133 \<or> code_of c = 160"

lemma code_of_less [simp]: "code_of c < 256"
  by (simp add: code_of_def)

lemma code_of_lower: "is_upper c \<Longrightarrow> code_of (lower_char c) = code_of c + 32"
proof -
  assume up: "is_upper c"
  then have "code_of c + 32 < 256" by (auto simp: is_upper_def)
  with up show ?thesis by (simp add: lower_char_def code_of_def)
qed

lemma lower_char_not_upper: "\<not> is_upper (lower_char c)"
proof (cases "is_upper c")
  case True
  then show ?thesis using code_of_lower [of c] by (auto simp: is_upper_def)
qed (simp add: lower_char_def)

lemma lower_char_idem [simp]: "lower_char (lower_char c) = lower_char c"
  using lower_char_not_upper [of c] by (simp add: lower_char_def)

lemma py_lower_idem [simp]: "py_lower (py_lower s) = py_lower s"
  by (simp add: py_lower_def)

lemma length_py_lower [simp]: "length (py_lower s) = length s"
  by (simp add: py_lower_def)

section \<open>Stripping, splitting, joining\<close>

definition py_strip :: "string \<Rightarrow> string" where
  "py_strip s = rev (dropWhile is_space (rev (dropWhile is_space s)))"

definition newline :: string where
  "newline = [CHR 10]"

text \<open>\<open>s.split(c)\<close> for a one-character separator, and \<open>s.split(c, 1)\<close> for a string that holds it.\<close>

primrec py_split :: "char \<Rightarrow> string \<Rightarrow> string list" where
  "py_split c [] = [[]]"
| "py_split c (x # xs) =
     (if x = c then [] # py_split c xs
      else (case py_split c xs of [] \<Rightarrow> [[x]] | p # ps \<Rightarrow> (x # p) # ps))"

definition py_split1 :: "char \<Rightarrow> string \<Rightarrow> string list" where
  "py_split1 c s =
     (if c \<in> set s then [takeWhile (\<lambda>x. x \<noteq> c) s, tl (dropWhile (\<lambda>x. x \<noteq> c) s)] else [s])"

primrec py_join :: "string \<Rightarrow> string list \<Rightarrow> string" where
  "py_join sep [] = []"
| "py_join sep (x # xs) = (if xs = [] then x else x @ sep @ py_join sep xs)"

definition py_startswith :: "string \<Rightarrow> string \<Rightarrow> bool" where
  "py_startswith s p = prefix p s"

definition py_endswith :: "string \<Rightarrow> string \<Rightarrow> bool" where
  "py_endswith s p = suffix p s"

text \<open>\<open>p in s\<close> for two strings.\<close>

definition py_contains :: "string \<Rightarrow> string \<Rightarrow> bool" where
  "py_contains p s = sublist p s"

lemma py_split_not_Nil [simp]: "py_split c s \<noteq> []"
  by (cases s) (simp_all split: list.split)

lemma py_split_Cons [simp]:
  "py_split c (x # xs) =
     (if x = c then [] # py_split c xs else (x # hd (py_split c xs)) # tl (py_split c xs))"
  by (simp add: list.case_eq_if)

declare py_split.simps(2) [simp del]

lemma py_split_no_sep: "p \<in> set (py_split c s) \<Longrightarrow> c \<notin> set p"
proof (induction s arbitrary: p)
  case (Cons x xs)
  have "hd (py_split c xs) \<in> set (py_split c xs)" by simp
  moreover have "q \<in> set (tl (py_split c xs)) \<Longrightarrow> q \<in> set (py_split c xs)" for q
    by (simp add: list.set_sel(2))
  ultimately show ?case using Cons by (auto split: if_splits)
qed simp

lemma py_join_split: "py_join [c] (py_split c s) = s"
proof (induction s)
  case (Cons x xs)
  obtain y ys where "py_split c xs = y # ys" by (cases "py_split c xs") auto
  with Cons show ?case by (auto split: if_splits)
qed simp

lemma py_split_single: "c \<notin> set s \<Longrightarrow> py_split c s = [s]"
  by (induction s) auto

lemma length_py_split: "length (py_split c s) = Suc (count_list s c)"
proof (induction s)
  case (Cons x xs)
  then show ?case by (cases "py_split c xs") auto
qed simp

lemma py_strip_Nil [simp]: "py_strip [] = []"
  by (simp add: py_strip_def)

lemma py_strip_no_space:
  "py_strip s \<noteq> [] \<Longrightarrow> \<not> is_space (hd (py_strip s)) \<and> \<not> is_space (last (py_strip s))"
proof -
  assume ne: "py_strip s \<noteq> []"
  let ?t = "dropWhile is_space s"
  have last: "\<not> is_space (last (py_strip s))"
    using ne hd_dropWhile [of is_space "rev ?t"] by (simp add: py_strip_def last_rev)
  obtain r where r: "?t = py_strip s @ r"
    unfolding py_strip_def
    by (metis rev_append rev_rev_ident takeWhile_dropWhile_id)
  with ne have "hd ?t = hd (py_strip s)" and "?t \<noteq> []" by auto
  then have "\<not> is_space (hd (py_strip s))"
    using hd_dropWhile [of is_space s] by metis
  with last show ?thesis by simp
qed

lemma py_strip_id: "s = [] \<or> (\<not> is_space (hd s) \<and> \<not> is_space (last s)) \<Longrightarrow> py_strip s = s"
  by (auto simp: py_strip_def dropWhile_eq_self_iff [THEN iffD2] hd_rev)

lemma py_strip_idem [simp]: "py_strip (py_strip s) = py_strip s"
  using py_strip_no_space [of s] by (intro py_strip_id) auto

section \<open>Decimal numbers\<close>

definition digit_char :: "nat \<Rightarrow> char" where
  "digit_char n = char_of (48 + n)"

fun nat_to_dec :: "nat \<Rightarrow> string" where
  "nat_to_dec n = (if n < 10 then [digit_char n] else nat_to_dec (n div 10) @ [digit_char (n mod 10)])"

declare nat_to_dec.simps [simp del]

text \<open>\<open>'%d' % i\<close> and \<open>str(i)\<close>.\<close>

definition int_to_dec :: "int \<Rightarrow> string" where
  "int_to_dec i = (if i < 0 then CHR ''-'' # nat_to_dec (nat (- i)) else nat_to_dec (nat i))"

definition digit_value :: "char \<Rightarrow> nat" where
  "digit_value c = code_of c - 48"

definition dec_value :: "string \<Rightarrow> nat" where
  "dec_value s = foldl (\<lambda>n c. 10 * n + digit_value c) 0 s"

lemma digit_char_props:
  "n < 10 \<Longrightarrow> is_09 (digit_char n)" "n < 10 \<Longrightarrow> digit_value (digit_char n) = n"
  by (simp_all add: digit_char_def is_09_def digit_value_def code_of_def)

lemma nat_to_dec_digits: "c \<in> set (nat_to_dec n) \<Longrightarrow> is_09 c"
proof (induction n rule: nat_to_dec.induct)
  case (1 n)
  then show ?case by (auto simp: nat_to_dec.simps [of n] digit_char_props split: if_splits)
qed

lemma nat_to_dec_not_Nil [simp]: "nat_to_dec n \<noteq> []"
  by (simp add: nat_to_dec.simps [of n])

lemma dec_value_nat_to_dec [simp]: "dec_value (nat_to_dec n) = n"
proof (induction n rule: nat_to_dec.induct)
  case (1 n)
  then show ?case
    by (auto simp: nat_to_dec.simps [of n] dec_value_def digit_char_props)
qed

lemma nat_to_dec_inject [simp]: "nat_to_dec m = nat_to_dec n \<longleftrightarrow> m = n"
  by (metis dec_value_nat_to_dec)

lemma int_to_dec_inject [simp]: "int_to_dec i = int_to_dec j \<longleftrightarrow> i = j"
proof -
  have minus: "CHR ''-'' # xs \<noteq> nat_to_dec n" for xs n
  proof
    assume "CHR ''-'' # xs = nat_to_dec n"
    then have "is_09 CHR ''-''" by (metis list.set_intros(1) nat_to_dec_digits)
    then show False by (simp add: is_09_def code_of_def)
  qed
  show ?thesis using minus minus [symmetric] by (auto simp: int_to_dec_def)
qed

section \<open>Parsing numbers\<close>

text \<open>
  \<open>int(s)\<close>: white space around, an optional sign, digits with single underscores between them;
  anything else raises \<open>ValueError\<close>.
\<close>

fun int_digits :: "nat \<Rightarrow> string \<Rightarrow> nat option" where
  "int_digits n [] = Some n"
| "int_digits n [c] = (if is_09 c then Some (10 * n + digit_value c) else None)"
| "int_digits n (c # d # s) =
     (if is_09 c then int_digits (10 * n + digit_value c) (d # s)
      else if c = CHR ''_'' \<and> is_09 d then int_digits (10 * n + digit_value d) s
      else None)"

definition int_body :: "string \<Rightarrow> nat option" where
  "int_body s = (case s of [] \<Rightarrow> None | c # t \<Rightarrow> if is_09 c then int_digits 0 s else None)"

definition py_int :: "string \<Rightarrow> int res" where
  "py_int s =
     (let t = py_strip s;
          r = (case t of
                 [] \<Rightarrow> None
               | c # u \<Rightarrow> if c = CHR ''-'' then map_option (\<lambda>n. - int n) (int_body u)
                          else if c = CHR ''+'' then map_option int (int_body u)
                          else map_option int (int_body t))
      in case r of None \<Rightarrow> Inl ValueError | Some i \<Rightarrow> Inr i)"

lemma int_digits_foldl:
  "\<forall>c \<in> set s. is_09 c \<Longrightarrow> int_digits n s = Some (foldl (\<lambda>n c. 10 * n + digit_value c) n s)"
  by (induction n s rule: int_digits.induct) auto

lemma int_body_nat_to_dec: "int_body (nat_to_dec n) = Some n"
proof -
  have digits: "\<forall>c \<in> set (nat_to_dec n). is_09 c" using nat_to_dec_digits by blast
  then have "int_digits 0 (nat_to_dec n) = Some n"
    by (simp add: int_digits_foldl dec_value_def [symmetric])
  with digits show ?thesis
    by (cases "nat_to_dec n") (auto simp: int_body_def)
qed

lemma is_09_plain: "is_09 c \<Longrightarrow> \<not> is_space c \<and> c \<noteq> CHR ''-'' \<and> c \<noteq> CHR ''+''"
  by (auto simp: is_09_def is_space_def code_of_def)

lemma py_strip_nat_to_dec: "py_strip (nat_to_dec n) = nat_to_dec n"
  by (rule py_strip_id) (metis is_09_plain nat_to_dec_digits nat_to_dec_not_Nil hd_in_set last_in_set)

lemma py_int_int_to_dec [simp]: "py_int (int_to_dec i) = Inr i"
proof (cases "i < 0")
  case True
  have "py_strip (CHR ''-'' # nat_to_dec (nat (- i))) = CHR ''-'' # nat_to_dec (nat (- i))"
  proof (rule py_strip_id)
    have "\<not> is_space (last (nat_to_dec (nat (- i))))"
      by (meson is_09_plain last_in_set nat_to_dec_digits nat_to_dec_not_Nil)
    then show "CHR ''-'' # nat_to_dec (nat (- i)) = [] \<or>
      (\<not> is_space (hd (CHR ''-'' # nat_to_dec (nat (- i)))) \<and>
       \<not> is_space (last (CHR ''-'' # nat_to_dec (nat (- i)))))"
      by (simp add: is_space_def code_of_def)
  qed
  with True show ?thesis by (simp add: py_int_def int_to_dec_def int_body_nat_to_dec)
next
  case False
  obtain c u where cu: "nat_to_dec (nat i) = c # u" by (cases "nat_to_dec (nat i)") simp_all
  then have "is_09 c" by (metis list.set_intros(1) nat_to_dec_digits)
  moreover have "int_body (c # u) = Some (nat i)" using int_body_nat_to_dec [of "nat i"] cu by simp
  moreover have "py_strip (c # u) = c # u" using py_strip_nat_to_dec [of "nat i"] cu by simp
  ultimately show ?thesis using False is_09_plain
    by (simp add: py_int_def int_to_dec_def cu)
qed

end
