(* ===== verification/Bytes.thy ===== *)
theory Bytes
  imports Prelude "HOL-Library.Word"
begin

text \<open>
  Python's \<open>bytes\<close> as lists of 8-bit words: \<open>int.to_bytes(n, byteorder='little')\<close> with its
  \<open>OverflowError\<close>, and the UTF-8 codec behind \<open>str.encode()\<close> and \<open>bytes.decode()\<close>, where a
  \<open>str\<close> is the list of its code points.  The decoder is Python's strict one: overlong forms,
  surrogates, values above \<open>0x10FFFF\<close> and truncated sequences raise \<open>UnicodeDecodeError\<close>.
\<close>

type_synonym byte = "8 word"
type_synonym codepoints = "nat list"

section \<open>Little-endian integers\<close>

primrec le_bytes :: "nat \<Rightarrow> int \<Rightarrow> byte list" where
  "le_bytes 0 v = []"
| "le_bytes (Suc n) v = word_of_int v # le_bytes n (v div 256)"

primrec le_value :: "byte list \<Rightarrow> int" where
  "le_value [] = 0"
| "le_value (b # bs) = uint b + 256 * le_value bs"

definition to_bytes :: "nat \<Rightarrow> int \<Rightarrow> byte list res" where
  "to_bytes n v = (if 0 \<le> v \<and> v < 256 ^ n then Inr (le_bytes n v) else Inl OverflowError)"

lemma length_le_bytes [simp]: "length (le_bytes n v) = n"
  by (induction n arbitrary: v) simp_all

lemma le_bytes_numeral:
  "le_bytes (numeral k) v = word_of_int v # le_bytes (pred_numeral k) (v div 256)"
  by (simp add: numeral_eq_Suc)

lemma byte_uint_bounds: "0 \<le> uint (b :: byte)" "uint (b :: byte) < 256"
  using uint_bounded [of b] by simp_all

lemma le_value_bounds: "0 \<le> le_value bs" "le_value bs < 256 ^ length bs"
proof -
  have "0 \<le> le_value bs \<and> le_value bs < 256 ^ length bs"
  proof (induction bs)
    case (Cons b bs)
    then have "le_value bs + 1 \<le> 256 ^ length bs" by simp
    with Cons byte_uint_bounds [of b] show ?case by simp
  qed simp
  then show "0 \<le> le_value bs" "le_value bs < 256 ^ length bs" by simp_all
qed

lemma int_div_less_iff: "(v :: int) div 256 < k \<longleftrightarrow> v < 256 * k"
  by linarith

lemma le_value_le_bytes: "0 \<le> v \<Longrightarrow> v < 256 ^ n \<Longrightarrow> le_value (le_bytes n v) = v"
proof (induction n arbitrary: v)
  case (Suc n)
  have "0 \<le> v div 256" "v div 256 < 256 ^ n"
    using Suc.prems by (auto simp: pos_imp_zdiv_nonneg_iff int_div_less_iff)
  with Suc.IH have "le_value (le_bytes n (v div 256)) = v div 256" by simp
  then show ?case by (simp add: uint_word_of_int)
qed simp

lemma le_bytes_le_value: "le_bytes (length bs) (le_value bs) = bs"
proof (induction bs)
  case (Cons b bs)
  have "(uint b + 256 * le_value bs) div 256 = le_value bs"
    using byte_uint_bounds [of b] by simp
  moreover have "(word_of_int (uint b + 256 * le_value bs) :: byte) = b"
    by (rule word_uint_eqI, unfold uint_word_of_int) (simp add: byte_uint_bounds)
  ultimately show ?case using Cons by simp
qed simp

lemma to_bytes_Inr_iff:
  "to_bytes n v = Inr bs \<longleftrightarrow> 0 \<le> v \<and> v < 256 ^ n \<and> bs = le_bytes n v"
  by (auto simp: to_bytes_def)

lemma to_bytes_Inl_iff: "to_bytes n v = Inl e \<longleftrightarrow> e = OverflowError \<and> \<not> (0 \<le> v \<and> v < 256 ^ n)"
  by (auto simp: to_bytes_def)

lemma le_bytes_inject:
  "0 \<le> v \<Longrightarrow> v < 256 ^ n \<Longrightarrow> 0 \<le> w \<Longrightarrow> w < 256 ^ n \<Longrightarrow> le_bytes n v = le_bytes n w \<longleftrightarrow> v = w"
  by (metis le_value_le_bytes)

section \<open>UTF-8\<close>

definition is_scalar :: "nat \<Rightarrow> bool" where
  "is_scalar c \<longleftrightarrow> c < 0x110000 \<and> \<not> (0xD800 \<le> c \<and> c < 0xE000)"

definition utf8_char :: "nat \<Rightarrow> byte list" where
  "utf8_char c =
     (if c < 0x80 then [of_nat c]
      else if c < 0x800 then [of_nat (0xC0 + c div 64), of_nat (0x80 + c mod 64)]
      else if c < 0x10000 then
        [of_nat (0xE0 + c div 4096), of_nat (0x80 + c div 64 mod 64), of_nat (0x80 + c mod 64)]
      else
        [of_nat (0xF0 + c div 262144), of_nat (0x80 + c div 4096 mod 64),
         of_nat (0x80 + c div 64 mod 64), of_nat (0x80 + c mod 64)])"

definition utf8_encode :: "codepoints \<Rightarrow> byte list" where
  "utf8_encode cs = concat (map utf8_char cs)"

definition cont :: "byte \<Rightarrow> bool" where
  "cont b \<longleftrightarrow> 0x80 \<le> unat b \<and> unat b < 0xC0"

definition low6 :: "byte \<Rightarrow> nat" where
  "low6 b = unat b - 0x80"

definition check_scalar :: "nat \<Rightarrow> nat \<Rightarrow> nat option" where
  "check_scalar lo c = (if lo \<le> c \<and> is_scalar c then Some c else None)"

fun utf8_next :: "byte list \<Rightarrow> (nat \<times> byte list) option" where
  "utf8_next [] = None"
| "utf8_next (b # bs) =
     (let n = unat b in
      if n < 0x80 then Some (n, bs)
      else if n < 0xC0 then None
      else if n < 0xE0 then
        (case bs of
           c1 # bs' \<Rightarrow>
             if cont c1 then map_option (\<lambda>c. (c, bs')) (check_scalar 0x80 ((n - 0xC0) * 64 + low6 c1))
             else None
         | _ \<Rightarrow> None)
      else if n < 0xF0 then
        (case bs of
           c1 # c2 # bs' \<Rightarrow>
             if cont c1 \<and> cont c2 then
               map_option (\<lambda>c. (c, bs'))
                 (check_scalar 0x800 ((n - 0xE0) * 4096 + low6 c1 * 64 + low6 c2))
             else None
         | _ \<Rightarrow> None)
      else if n < 0xF8 then
        (case bs of
           c1 # c2 # c3 # bs' \<Rightarrow>
             if cont c1 \<and> cont c2 \<and> cont c3 then
               map_option (\<lambda>c. (c, bs'))
                 (check_scalar 0x10000
                    ((n - 0xF0) * 262144 + low6 c1 * 4096 + low6 c2 * 64 + low6 c3))
             else None
         | _ \<Rightarrow> None)
      else None)"


lemma utf8_next_shorter: "utf8_next bs = Some (c, bs') \<Longrightarrow> length bs' < length bs"
  by (cases bs) (auto simp: Let_def split: if_splits list.splits)

function utf8_decode :: "byte list \<Rightarrow> codepoints option" where
  "utf8_decode bs =
     (if bs = [] then Some []
      else case utf8_next bs of
        None \<Rightarrow> None
      | Some (c, bs') \<Rightarrow> map_option (Cons c) (utf8_decode bs'))"
  by pat_completeness auto
termination
  by (relation "measure length") (auto dest: utf8_next_shorter)

declare utf8_decode.simps [simp del]

definition py_decode :: "byte list \<Rightarrow> codepoints res" where
  "py_decode bs = (case utf8_decode bs of None \<Rightarrow> Inl UnicodeDecodeError | Some cs \<Rightarrow> Inr cs)"

lemma low6_simps:
  "low6 (of_nat (0x80 + n mod 64)) = n mod 64" "cont (of_nat (0x80 + n mod 64))"
proof -
  have "n mod 64 < 64" by simp
  then have "unat (of_nat (0x80 + n mod 64) :: byte) = 0x80 + n mod 64"
    by (subst unat_of_nat) simp
  with \<open>n mod 64 < 64\<close> show "low6 (of_nat (0x80 + n mod 64)) = n mod 64"
    "cont (of_nat (0x80 + n mod 64))"
    by (simp_all add: low6_def cont_def)
qed

lemma unat_byte_of_nat: "n < 256 \<Longrightarrow> unat (of_nat n :: byte) = n"
  by (simp add: unat_of_nat)

lemma utf8_split2: "c div 64 * 64 + c mod 64 = (c :: nat)"
  by simp

lemma utf8_split3: "c div 4096 * 4096 + c div 64 mod 64 * 64 + c mod 64 = (c :: nat)"
proof -
  have "c div 64 div 64 = c div 4096" by (simp add: div_mult2_eq [symmetric])
  then have "c div 64 = c div 4096 * 64 + c div 64 mod 64"
    using div_mult_mod_eq [of "c div 64" 64] by simp
  then show ?thesis using utf8_split2 [of c] by linarith
qed

lemma utf8_split4:
  "c div 262144 * 262144 + c div 4096 mod 64 * 4096 + c div 64 mod 64 * 64 + c mod 64 = (c :: nat)"
proof -
  have "c div 4096 div 64 = c div 262144" by (simp add: div_mult2_eq [symmetric])
  then have "c div 4096 = c div 262144 * 64 + c div 4096 mod 64"
    using div_mult_mod_eq [of "c div 4096" 64] by simp
  then show ?thesis using utf8_split3 [of c] by (simp add: add_mult_distrib)
qed

lemma utf8_next_char:
  assumes "is_scalar c"
  shows "utf8_next (utf8_char c @ bs) = Some (c, bs)"
proof -
  have lt: "c < 0x110000" using assms by (simp add: is_scalar_def)
  consider "c < 0x80" | "0x80 \<le> c" "c < 0x800" | "0x800 \<le> c" "c < 0x10000" | "0x10000 \<le> c"
    by linarith
  then show ?thesis
  proof cases
    case 1
    then show ?thesis by (simp add: utf8_char_def unat_byte_of_nat)
  next
    case 2
    then have "c div 64 < 32" by (simp add: div_less_iff_less_mult)
    then have u: "unat (of_nat (0xC0 + c div 64) :: byte) = 0xC0 + c div 64"
      by (subst unat_byte_of_nat) simp_all
    show ?thesis
      using 2 assms \<open>c div 64 < 32\<close> u
      by (simp add: utf8_char_def low6_simps check_scalar_def utf8_split2 del: of_nat_add)
  next
    case 3
    then have "c div 4096 < 16" by (simp add: div_less_iff_less_mult)
    then have u: "unat (of_nat (0xE0 + c div 4096) :: byte) = 0xE0 + c div 4096"
      by (subst unat_byte_of_nat) simp_all
    show ?thesis
      using 3 assms \<open>c div 4096 < 16\<close> u
      by (simp add: utf8_char_def low6_simps check_scalar_def utf8_split3 del: of_nat_add)
  next
    case 4
    from lt have "c div 262144 < 8" by (simp add: div_less_iff_less_mult)
    then have u: "unat (of_nat (0xF0 + c div 262144) :: byte) = 0xF0 + c div 262144"
      by (subst unat_byte_of_nat) simp_all
    show ?thesis
      using 4 assms \<open>c div 262144 < 8\<close> u
      by (simp add: utf8_char_def low6_simps check_scalar_def utf8_split4 del: of_nat_add)
  qed
qed

lemma utf8_char_not_Nil [simp]: "utf8_char c \<noteq> []"
  by (simp add: utf8_char_def)

text \<open>Decoding inverts encoding.\<close>

lemma utf8_decode_encode: "(\<And>c. c \<in> set cs \<Longrightarrow> is_scalar c) \<Longrightarrow> utf8_decode (utf8_encode cs) = Some cs"
proof (induction cs)
  case Nil
  then show ?case by (simp add: utf8_encode_def utf8_decode.simps)
next
  case (Cons c cs)
  then have "utf8_next (utf8_encode (c # cs)) = Some (c, utf8_encode cs)"
    by (simp add: utf8_encode_def utf8_next_char)
  with Cons show ?case
    by (subst utf8_decode.simps) (simp add: utf8_encode_def)
qed

text \<open>And encoding inverts decoding, so two different byte strings never decode to one string.\<close>

lemma low6_less: "cont b \<Longrightarrow> low6 b < 64"
  by (auto simp: cont_def low6_def)

lemma cont_byte: "cont b \<Longrightarrow> of_nat (0x80 + low6 b) = b"
  by (simp add: cont_def low6_def)

lemma check_scalar_SomeD: "check_scalar lo c = Some c' \<Longrightarrow> c' = c \<and> lo \<le> c \<and> is_scalar c"
  by (auto simp: check_scalar_def split: if_splits)

lemma digits64_2: "l < 64 \<Longrightarrow> (m * 64 + l) div 64 = m \<and> (m * 64 + l) mod 64 = (l :: nat)"
  by simp

lemma digits64_3:
  assumes "k < 64" "l < (64 :: nat)"
  shows "(m * 4096 + k * 64 + l) div 4096 = m" "(m * 4096 + k * 64 + l) div 64 = m * 64 + k"
    "(m * 4096 + k * 64 + l) mod 64 = l"
proof -
  have eq: "m * 4096 + k * 64 + l = (m * 64 + k) * 64 + l" by simp
  show d: "(m * 4096 + k * 64 + l) div 64 = m * 64 + k" "(m * 4096 + k * 64 + l) mod 64 = l"
    unfolding eq using digits64_2 [OF assms(2)] by blast+
  have "(m * 4096 + k * 64 + l) div 4096 = (m * 4096 + k * 64 + l) div 64 div 64"
    by (simp add: div_mult2_eq [symmetric])
  then show "(m * 4096 + k * 64 + l) div 4096 = m" using d digits64_2 [OF assms(1)] by simp
qed

lemma digits64_4:
  assumes "j < 64" "k < 64" "l < (64 :: nat)"
  shows "(m * 262144 + j * 4096 + k * 64 + l) div 262144 = m"
    "(m * 262144 + j * 4096 + k * 64 + l) div 4096 = m * 64 + j"
    "(m * 262144 + j * 4096 + k * 64 + l) div 64 mod 64 = k"
    "(m * 262144 + j * 4096 + k * 64 + l) mod 64 = l"
proof -
  have eq: "m * 262144 + j * 4096 + k * 64 + l = (m * 64 + j) * 4096 + k * 64 + l" by simp
  note d = digits64_3 [OF assms(2,3), of "m * 64 + j"]
  show "(m * 262144 + j * 4096 + k * 64 + l) div 4096 = m * 64 + j"
    "(m * 262144 + j * 4096 + k * 64 + l) div 64 mod 64 = k"
    "(m * 262144 + j * 4096 + k * 64 + l) mod 64 = l"
    unfolding eq d using digits64_2 [OF assms(2)] by blast+
  moreover have "(m * 262144 + j * 4096 + k * 64 + l) div 262144
      = (m * 262144 + j * 4096 + k * 64 + l) div 4096 div 64"
    by (simp add: div_mult2_eq [symmetric])
  ultimately show "(m * 262144 + j * 4096 + k * 64 + l) div 262144 = m"
    using digits64_2 [OF assms(1)] by simp
qed

lemma of_nat_unat_diff: "k \<le> unat b \<Longrightarrow> of_nat (k + (unat b - k)) = (b :: byte)"
  by simp

lemma utf8_char_2:
  assumes "0xC0 \<le> unat b" "unat b < 0xE0" "cont c1" and c: "c = (unat b - 0xC0) * 64 + low6 c1"
    and "0x80 \<le> c"
  shows "utf8_char c = [b, c1]"
proof -
  have "c < 0x800" using assms low6_less [of c1] by linarith
  moreover have "c div 64 = unat b - 0xC0" "c mod 64 = low6 c1"
    unfolding c using digits64_2 [OF low6_less [OF \<open>cont c1\<close>]] by blast+
  ultimately show ?thesis
    using assms(1,5) cont_byte [OF \<open>cont c1\<close>] of_nat_unat_diff [OF assms(1)]
    by (simp add: utf8_char_def del: of_nat_add)
qed

lemma utf8_char_3:
  assumes "0xE0 \<le> unat b" "unat b < 0xF0" "cont c1" "cont c2"
    and c: "c = (unat b - 0xE0) * 4096 + low6 c1 * 64 + low6 c2" and "0x800 \<le> c"
  shows "utf8_char c = [b, c1, c2]"
proof -
  note l = low6_less [OF \<open>cont c1\<close>] low6_less [OF \<open>cont c2\<close>]
  have "c < 0x10000" using assms(2) c l by linarith
  moreover have "c div 4096 = unat b - 0xE0" "c div 64 mod 64 = low6 c1" "c mod 64 = low6 c2"
    unfolding c using digits64_3 [OF l, of "unat b - 0xE0"] l by simp_all
  ultimately show ?thesis
    using assms(1,6) cont_byte [OF \<open>cont c1\<close>] cont_byte [OF \<open>cont c2\<close>] of_nat_unat_diff [OF assms(1)]
    by (simp add: utf8_char_def del: of_nat_add)
qed

lemma utf8_char_4:
  assumes "0xF0 \<le> unat b" "cont c1" "cont c2" "cont c3"
    and c: "c = (unat b - 0xF0) * 262144 + low6 c1 * 4096 + low6 c2 * 64 + low6 c3"
    and "0x10000 \<le> c"
  shows "utf8_char c = [b, c1, c2, c3]"
proof -
  note l = low6_less [OF \<open>cont c1\<close>] low6_less [OF \<open>cont c2\<close>] low6_less [OF \<open>cont c3\<close>]
  have "c div 262144 = unat b - 0xF0" "c div 4096 mod 64 = low6 c1" "c div 64 mod 64 = low6 c2"
    "c mod 64 = low6 c3"
    unfolding c using digits64_4 [OF l, of "unat b - 0xF0"] l by simp_all
  then show ?thesis
    using assms(1,6) cont_byte [OF \<open>cont c1\<close>] cont_byte [OF \<open>cont c2\<close>] cont_byte [OF \<open>cont c3\<close>]
      of_nat_unat_diff [OF assms(1)]
    by (simp add: utf8_char_def del: of_nat_add)
qed

lemma utf8_next_SomeD:
  assumes "utf8_next bs = Some (c, bs')"
  shows "bs = utf8_char c @ bs' \<and> is_scalar c"
proof -
  from assms obtain b r where bs: "bs = b # r" by (cases bs) auto
  consider "unat b < 0x80" | "0xC0 \<le> unat b" "unat b < 0xE0" | "0xE0 \<le> unat b" "unat b < 0xF0"
    | "0xF0 \<le> unat b" | "0x80 \<le> unat b" "unat b < 0xC0"
    by linarith
  then show ?thesis
  proof cases
    case 1
    with assms bs show ?thesis by (auto simp: utf8_char_def is_scalar_def)
  next
    case 2
    with assms bs show ?thesis
      by (auto simp: utf8_char_2 dest!: check_scalar_SomeD split: list.splits if_splits)
  next
    case 3
    with assms bs show ?thesis
      by (auto simp: utf8_char_3 dest!: check_scalar_SomeD split: list.splits if_splits)
  next
    case 4
    with assms bs show ?thesis
      by (auto simp: utf8_char_4 Let_def dest!: check_scalar_SomeD split: list.splits if_splits)
  next
    case 5
    with assms bs show ?thesis by simp
  qed
qed

lemma utf8_encode_decode: "utf8_decode bs = Some cs \<Longrightarrow> utf8_encode cs = bs"
proof (induction bs arbitrary: cs rule: utf8_decode.induct)
  case (1 bs)
  show ?case
  proof (cases "bs = []")
    case True
    with "1.prems" show ?thesis by (simp add: utf8_decode.simps utf8_encode_def)
  next
    case False
    with "1.prems" obtain c bs' cs' where n: "utf8_next bs = Some (c, bs')"
      and d: "utf8_decode bs' = Some cs'" and cs: "cs = c # cs'"
      by (auto simp: utf8_decode.simps [of bs] split: option.splits)
    from "1.IH" [OF False n refl d] utf8_next_SomeD [OF n] cs show ?thesis
      by (simp add: utf8_encode_def)
  qed
qed

lemma py_decode_inject: "py_decode bs = Inr cs \<Longrightarrow> py_decode bs' = Inr cs \<Longrightarrow> bs = bs'"
  by (auto simp: py_decode_def split: option.splits dest!: utf8_encode_decode)

section \<open>ASCII text\<close>

text \<open>\<open>s.encode()\<close> for the strings the code builds itself, which are ASCII.\<close>

definition str_codes :: "string \<Rightarrow> codepoints" where
  "str_codes s = map of_char s"

definition py_encode :: "string \<Rightarrow> byte list" where
  "py_encode s = utf8_encode (str_codes s)"

lemma str_codes_inject [simp]: "str_codes s = str_codes t \<longleftrightarrow> s = t"
  unfolding str_codes_def by (rule inj_map_eq_map) (simp add: inj_of_char)

lemma is_scalar_char: "is_scalar (of_char c)"
proof -
  have "(of_char c :: nat) < 256" by simp
  then have "(of_char c :: nat) < 0xD800" by (rule less_trans) simp
  then show ?thesis by (simp add: is_scalar_def)
qed

lemma py_decode_encode: "py_decode (py_encode s) = Inr (str_codes s)"
proof -
  have "utf8_decode (utf8_encode (str_codes s)) = Some (str_codes s)"
    by (rule utf8_decode_encode) (auto simp: str_codes_def is_scalar_char)
  then show ?thesis by (simp add: py_decode_def py_encode_def)
qed

lemma py_encode_inject [simp]: "py_encode s = py_encode t \<longleftrightarrow> s = t"
  by (metis py_decode_encode str_codes_inject sum.inject(2))

end
