(* ===== verification/Message.thy ===== *)
theory Message
  imports Bytes
begin

text \<open>
  The load generator's wire format (client/message.py): the enumeration of message types, the
  \<open>Message\<close> class and its two encoders, over the bytes of \<open>Bytes\<close>.  Beside them the receiving
  side: the C++ server's \<open>AbstractMessage::parse\<close> and \<open>Message(begin, end)\<close>
  (src/abstract_message.cpp, src/message.cpp), which is what a datagram of the client meets.
\<close>

section \<open>Types\<close>

text \<open>\<open>IntEnum\<close>: the trailing commas make one-element tuples, and \<open>int(*(1,))\<close> is 1 again.\<close>

datatype message_type = SEND | ECHO | READY

definition message_type_int :: "message_type \<Rightarrow> int" where
  "message_type_int t = (case t of SEND \<Rightarrow> 0 | ECHO \<Rightarrow> 1 | READY \<Rightarrow> 2)"

text \<open>Members of an \<open>IntEnum\<close> compare as their numbers.\<close>

instantiation message_type :: linorder
begin

definition less_eq_message_type :: "message_type \<Rightarrow> message_type \<Rightarrow> bool" where
  "less_eq_message_type a b \<longleftrightarrow> message_type_int a \<le> message_type_int b"

definition less_message_type :: "message_type \<Rightarrow> message_type \<Rightarrow> bool" where
  "less_message_type a b \<longleftrightarrow> message_type_int a < message_type_int b"

instance
  by standard (auto simp: less_eq_message_type_def less_message_type_def message_type_int_def split: message_type.splits)

end

record message =
  mChain_hash :: int
  msg_client_id :: int
  msg_nonce :: int
  message_type :: message_type
  msg_data :: "byte list"

definition mk_message :: "int \<Rightarrow> int \<Rightarrow> int \<Rightarrow> message_type \<Rightarrow> byte list \<Rightarrow> message" where
  "mk_message h c n t d =
     \<lparr>mChain_hash = h, msg_client_id = c, msg_nonce = n, message_type = t, msg_data = d\<rparr>"

section \<open>Encoders\<close>

definition encode :: "message \<Rightarrow> byte list res" where
  "encode m =
     bind_res (to_bytes 1 (message_type_int (message_type m))) (\<lambda>t.
     bind_res (to_bytes 8 (mChain_hash m)) (\<lambda>h.
     bind_res (to_bytes 8 (msg_client_id m)) (\<lambda>c.
     bind_res (to_bytes 8 (msg_nonce m)) (\<lambda>n.
     bind_res (to_bytes 8 0) (\<lambda>z.
       Inr (t @ h @ c @ n @ z @ msg_data m))))))"

definition packet_body :: "message \<Rightarrow> byte list res" where
  "packet_body m =
     bind_res (to_bytes 8 (mChain_hash m)) (\<lambda>h.
     bind_res (to_bytes 8 (msg_client_id m)) (\<lambda>c.
     bind_res (to_bytes 8 (msg_nonce m)) (\<lambda>n.
     bind_res (to_bytes 8 0) (\<lambda>z.
     bind_res (to_bytes 1 (message_type_int (message_type m))) (\<lambda>t.
       Inr (h @ c @ n @ z @ t @ msg_data m))))))"

definition packet_encode :: "message \<Rightarrow> byte list res" where
  "packet_encode m =
     bind_res (packet_body m) (\<lambda>m_buffer.
     bind_res (to_bytes 4 1) (\<lambda>one.
     bind_res (to_bytes 4 (int (length m_buffer))) (\<lambda>len.
       Inr (one @ len @ m_buffer))))"

definition in_u64 :: "int \<Rightarrow> bool" where
  "in_u64 v \<longleftrightarrow> 0 \<le> v \<and> v < 2 ^ 64"

definition encodable :: "message \<Rightarrow> bool" where
  "encodable m \<longleftrightarrow> in_u64 (mChain_hash m) \<and> in_u64 (msg_client_id m) \<and> in_u64 (msg_nonce m)"

section \<open>The server's parser\<close>

record wire_message =
  wType :: message_type
  wMChainHash :: int
  wClientId :: int
  wNonce :: int
  wNodeId :: int
  wData :: "byte list"

text \<open>
  A null pointer, an ordinary message, or a packet (type byte 3), whose constructor gets the whole
  buffer and is not modelled.
\<close>

datatype wire = WireNull | WireMessage wire_message | WirePacket "byte list"

definition wire_message :: "message_type \<Rightarrow> byte list \<Rightarrow> wire" where
  "wire_message t rest =
     (if length rest < 32 then WireNull
      else WireMessage
        \<lparr>wType = t,
         wMChainHash = le_value (take 8 rest),
         wClientId = le_value (take 8 (drop 8 rest)),
         wNonce = le_value (take 8 (drop 16 rest)),
         wNodeId = le_value (take 8 (drop 24 rest)),
         wData = drop 32 rest\<rparr>)"

text \<open>
  The type byte is a signed \<open>char\<close>; values of 0x80 and above are negative, pass the test against
  \<open>SIZE\<close> and end, like 4, in the exception that \<open>parse\<close> turns into a null pointer.
\<close>

definition wire_parse :: "byte list \<Rightarrow> wire" where
  "wire_parse bs =
     (case bs of
        [] \<Rightarrow> WireNull
      | b # rest \<Rightarrow>
          if b = 0 then wire_message SEND rest
          else if b = 1 then wire_message ECHO rest
          else if b = 2 then wire_message READY rest
          else if b = 3 then WirePacket bs
          else WireNull)"

section \<open>Lemmas\<close>

lemma message_type_bounds: "0 \<le> message_type_int t" "message_type_int t < 256 ^ 1"
  by (cases t; simp add: message_type_int_def)+

lemma in_u64_bytes: "in_u64 v \<longleftrightarrow> 0 \<le> v \<and> v < 256 ^ 8"
  by (simp add: in_u64_def)

lemma to_bytes_u64: "to_bytes 8 v = (if in_u64 v then Inr (le_bytes 8 v) else Inl OverflowError)"
  by (simp only: to_bytes_def in_u64_bytes)

lemma to_bytes_type: "to_bytes (Suc 0) (message_type_int t) = Inr [word_of_int (message_type_int t)]"
  by (cases t) (simp_all add: to_bytes_def message_type_int_def)

lemma in_u64_0 [simp]: "in_u64 0"
  by (simp add: in_u64_def)

lemma encode_eq:
  "encode m = (if encodable m
     then Inr (word_of_int (message_type_int (message_type m)) # le_bytes 8 (mChain_hash m)
            @ le_bytes 8 (msg_client_id m) @ le_bytes 8 (msg_nonce m) @ le_bytes 8 0 @ msg_data m)
     else Inl OverflowError)"
  by (simp add: encode_def to_bytes_u64 to_bytes_type encodable_def)

lemma packet_body_eq:
  "packet_body m = (if encodable m
     then Inr (le_bytes 8 (mChain_hash m) @ le_bytes 8 (msg_client_id m) @ le_bytes 8 (msg_nonce m)
            @ le_bytes 8 0 @ word_of_int (message_type_int (message_type m)) # msg_data m)
     else Inl OverflowError)"
  by (simp add: packet_body_def to_bytes_u64 to_bytes_type encodable_def)

lemma le_value_u64: "in_u64 v \<Longrightarrow> le_value (le_bytes 8 v) = v"
  by (simp only: in_u64_bytes le_value_le_bytes)

lemma wire_parse_type:
  "wire_parse (word_of_int (message_type_int t) # rest) = wire_message t rest"
  by (cases t) (simp_all add: wire_parse_def message_type_int_def)

section \<open>Properties\<close>

text \<open>
  C1. The server reads back exactly what the client encoded: whenever \<open>Message.encode\<close> returns,
  the C++ parser accepts the datagram and recovers type, chain hash, client id, nonce and payload,
  with node id 0.
\<close>

theorem encode_parsed_by_server:
  assumes "encode m = Inr bs"
  shows "wire_parse bs = WireMessage
    \<lparr>wType = message_type m, wMChainHash = mChain_hash m, wClientId = msg_client_id m,
     wNonce = msg_nonce m, wNodeId = 0, wData = msg_data m\<rparr>"
proof -
  from assms have enc: "encodable m" by (simp add: encode_eq split: if_splits)
  with assms show ?thesis
    by (auto simp: encode_eq wire_parse_type wire_message_def le_value_u64 encodable_def)
qed

theorem encode_parsed_by_server_witness:
  "encode (mk_message 5 1 258 ECHO [7, 9]) =
     Inr ([1, 5,0,0,0,0,0,0,0, 1,0,0,0,0,0,0,0, 2,1,0,0,0,0,0,0, 0,0,0,0,0,0,0,0, 7, 9])
   \<and> wire_parse ([1, 5,0,0,0,0,0,0,0, 1,0,0,0,0,0,0,0, 2,1,0,0,0,0,0,0, 0,0,0,0,0,0,0,0, 7, 9])
     = WireMessage \<lparr>wType = ECHO, wMChainHash = 5, wClientId = 1, wNonce = 258, wNodeId = 0,
                    wData = [7, 9]\<rparr>"
proof -
  have e: "encode (mk_message 5 1 258 ECHO [7, 9]) =
     Inr ([1, 5,0,0,0,0,0,0,0, 1,0,0,0,0,0,0,0, 2,1,0,0,0,0,0,0, 0,0,0,0,0,0,0,0, 7, 9])"
    by (simp add: encode_eq encodable_def in_u64_def mk_message_def message_type_int_def le_bytes_numeral)
  from encode_parsed_by_server [OF this] e show ?thesis by (simp add: mk_message_def)
qed

text \<open>
  C2. Encoding fails exactly when one of the three 64-bit fields is out of range, always with
  \<open>OverflowError\<close>; otherwise the datagram is 33 bytes longer than the payload.
\<close>

theorem encode_outcome:
  "encode m = Inl OverflowError \<and> \<not> encodable m \<or>
   (\<exists>bs. encode m = Inr bs \<and> encodable m \<and> length bs = 33 + length (msg_data m))"
  by (simp add: encode_eq)

text \<open>
  \<open>packet_encode\<close> does not produce a packet: as long as the body fits the 4-byte length, the
  server takes the little-endian count \<open>1\<close> for the type byte of an ECHO message and cuts the chain
  hash out of the length field and the low bytes of the real hash, whatever the message's own type is.
\<close>

theorem packet_encode_read_as_echo:
  assumes "packet_encode m = Inr bs"
  shows "\<exists>w. wire_parse bs = WireMessage w \<and> wType w = ECHO \<and>
    wMChainHash w mod 2 ^ 24 = 0 \<and>
    (wMChainHash w div 2 ^ 24) mod 2 ^ 32 = 33 + int (length (msg_data m))"
proof -
  from assms obtain body where body: "packet_body m = Inr body"
    and len: "int (length body) < 256 ^ 4"
    and bs: "bs = le_bytes 4 1 @ le_bytes 4 (int (length body)) @ body"
    by (auto simp: packet_encode_def bind_res_eq_Inr to_bytes_Inr_iff)
  from body have lb: "length body = 33 + length (msg_data m)"
    by (auto simp: packet_body_eq split: if_splits)
  define w where "w = (case wire_message ECHO (tl bs) of WireMessage w \<Rightarrow> w)"
  have one: "le_bytes 4 1 = [1, 0, 0, 0]" by (simp add: eval_nat_numeral)
  obtain y ys where ys: "body = y # ys" using lb by (cases body) auto
  have "\<not> length (tl bs) < 32" using bs one lb by simp
  then have w: "wire_parse bs = WireMessage w" "wType w = ECHO" "wMChainHash w = le_value (take 8 (tl bs))"
    using bs one by (simp_all add: w_def wire_message_def wire_parse_def)
  have "take 8 (tl bs) = [0, 0, 0] @ le_bytes 4 (int (length body)) @ [y]"
    using bs one ys by simp
  moreover have "le_value (le_bytes 4 (int (length body)) @ [y])
      = int (length body) + 2 ^ 32 * uint y"
  proof -
    have "le_value (xs @ [y]) = le_value xs + 256 ^ length xs * uint y" for xs
      by (induction xs) (simp_all add: algebra_simps)
    then show ?thesis using le_value_le_bytes [OF _ len] by simp
  qed
  ultimately have hash: "wMChainHash w = 2 ^ 24 * (int (length body) + 2 ^ 32 * uint y)"
    using w(3) by simp
  have "wMChainHash w div 2 ^ 24 = int (length body) + 2 ^ 32 * uint y"
    unfolding hash by simp
  then have "(wMChainHash w div 2 ^ 24) mod 2 ^ 32 = int (length body)"
    using len by simp
  moreover have "wMChainHash w mod 2 ^ 24 = 0" unfolding hash by simp
  ultimately show ?thesis using w(1,2) lb by simp
qed

theorem packet_encode_read_as_echo_witness:
  "\<exists>bs w. packet_encode (mk_message 5 1 258 READY [7]) = Inr bs \<and> wire_parse bs = WireMessage w
     \<and> wType w = ECHO \<and> (wMChainHash w div 2 ^ 24) mod 2 ^ 32 = 34"
proof -
  obtain bs where e: "packet_encode (mk_message 5 1 258 READY [7]) = Inr bs"
    by (simp add: packet_encode_def packet_body_eq encodable_def in_u64_def mk_message_def to_bytes_def)
  from packet_encode_read_as_echo [OF e] e show ?thesis by (auto simp: mk_message_def)
qed

end
