(* ===== verification/Generator.thy ===== *)
theory Generator
  imports Bytes PyStr
begin

text \<open>
  \<open>string_generator\<close> of client/tester.py (and its copy in client/test.py): the infinite generator
  of all lower-case words in length-lexicographic order, and the message texts built from it.
  A suspended generator is a record: the length its outer loop has reached and what is left of
  the inner \<open>itertools.product\<close>.  The locale \<open>fresh_source\<close> is what a test run relies on.
\<close>

section \<open>The generator\<close>

definition ascii_lowercase :: string where
  "ascii_lowercase = ''abcdefghijklmnopqrstuvwxyz''"

primrec product_repeat :: "'a list \<Rightarrow> nat \<Rightarrow> 'a list list" where
  "product_repeat xs 0 = [[]]"
| "product_repeat xs (Suc n) = concat (map (\<lambda>x. map (\<lambda>ys. x # ys) (product_repeat xs n)) xs)"

record gen =
  gen_len :: nat
  gen_pending :: "string list"

definition string_generator :: gen where
  "string_generator = \<lparr>gen_len = 0, gen_pending = []\<rparr>"

text \<open>\<open>next(g)\<close>: when the inner loop is exhausted, the outer loop counts on (from 1).\<close>

definition gen_next :: "gen \<Rightarrow> string \<times> gen" where
  "gen_next g =
     (let n = (if gen_pending g = [] then Suc (gen_len g) else gen_len g);
          ws = (if gen_pending g = [] then product_repeat ascii_lowercase n else gen_pending g)
      in (hd ws, \<lparr>gen_len = n, gen_pending = tl ws\<rparr>))"

text \<open>\<open>('%d_%s' % (iter_number, message)).encode()\<close>\<close>

definition message_text :: "int \<Rightarrow> string \<Rightarrow> string" where
  "message_text iter_number message = int_to_dec iter_number @ ''_'' @ message"

definition message_data :: "int \<Rightarrow> string \<Rightarrow> byte list" where
  "message_data iter_number message = py_encode (message_text iter_number message)"

section \<open>Bijective base 26\<close>

text \<open>The reference: a lower-case word read as a bijective base-26 numeral (a = 1, ..., z = 26).\<close>

definition letter :: "char \<Rightarrow> nat" where
  "letter c = code_of c - 96"

definition word_rank :: "string \<Rightarrow> nat" where
  "word_rank w = foldl (\<lambda>n c. 26 * n + letter c) 0 w"

definition lowercase :: "string \<Rightarrow> bool" where
  "lowercase w \<longleftrightarrow> set w \<subseteq> set ascii_lowercase"

text \<open>The number of words shorter than \<open>n\<close> (the empty one included).\<close>

primrec words_below :: "nat \<Rightarrow> nat" where
  "words_below 0 = 0"
| "words_below (Suc n) = words_below n + 26 ^ n"

lemma letters: "map letter ascii_lowercase = [1..<27]"
  by (simp add: ascii_lowercase_def letter_def code_of_def upt_rec)

lemma letter_bounds: "c \<in> set ascii_lowercase \<Longrightarrow> 1 \<le> letter c \<and> letter c \<le> 26"
proof -
  assume "c \<in> set ascii_lowercase"
  then have "letter c \<in> set (map letter ascii_lowercase)" by simp
  then show ?thesis unfolding letters by auto
qed

lemma inj_letter: "inj_on letter (set ascii_lowercase)"
proof -
  have "distinct (map letter ascii_lowercase)" unfolding letters by simp
  then show ?thesis by (simp add: distinct_map)
qed

lemma word_rank_append: "word_rank (w @ [c]) = 26 * word_rank w + letter c"
  by (simp add: word_rank_def)

lemma foldl_rank: "foldl (\<lambda>n c. 26 * n + letter c) a w = a * 26 ^ length w + word_rank w"
  by (induction w rule: rev_induct) (simp_all add: word_rank_def algebra_simps)

lemma word_rank_Cons: "word_rank (c # w) = letter c * 26 ^ length w + word_rank w"
  using foldl_rank [of "letter c" w] by (simp add: word_rank_def)

lemma word_rank_inject: "lowercase v \<Longrightarrow> lowercase w \<Longrightarrow> word_rank v = word_rank w \<Longrightarrow> v = w"
proof (induction v arbitrary: w rule: rev_induct)
  case Nil
  then show ?case
  proof (cases w rule: rev_cases)
    case (snoc ws c)
    with Nil have "letter c \<ge> 1" using letter_bounds [of c] by (simp add: lowercase_def)
    with Nil snoc show ?thesis by (simp add: word_rank_append) (simp add: word_rank_def)
  qed simp
next
  case (snoc c v)
  then have c: "c \<in> set ascii_lowercase" and v: "lowercase v" by (auto simp: lowercase_def)
  show ?case
  proof (cases w rule: rev_cases)
    case Nil
    with snoc.prems letter_bounds [OF c] show ?thesis
      by (simp add: word_rank_append) (simp add: word_rank_def)
  next
    case w: (snoc ws d)
    with snoc.prems have d: "d \<in> set ascii_lowercase" and ws: "lowercase ws" by (auto simp: lowercase_def)
    have eq: "26 * word_rank v + letter c = 26 * word_rank ws + letter d"
      using snoc.prems w by (simp add: word_rank_append)
    with letter_bounds [OF c] letter_bounds [OF d] have r: "word_rank v = word_rank ws"
      by linarith
    with eq have "letter c = letter d" by simp
    with r snoc.IH [OF v ws] inj_onD [OF inj_letter _ c d] w show ?thesis by simp
  qed
qed

lemma concat_upt: "concat (map (\<lambda>j. [a + j * m..<a + j * m + m]) [i..<k]) = [a + i * m..<a + max i k * m]"
proof (induction k)
  case (Suc k)
  show ?case
  proof (cases "i \<le> k")
    case True
    then have "a + i * m \<le> a + k * m" by simp
    then have "[a + i * m..<a + k * m] @ [a + k * m..<a + k * m + m] = [a + i * m..<a + k * m + m]"
      by (metis upt_add_eq_append)
    with Suc True show ?thesis by (simp add: max_def add.commute add.left_commute)
  qed (simp add: max_def)
qed (simp add: max_def)

lemma product_repeat_set: "w \<in> set (product_repeat xs n) \<longleftrightarrow> length w = n \<and> set w \<subseteq> set xs"
  by (induction n arbitrary: w) (auto simp: image_iff length_Suc_conv)

lemma product_repeat_not_Nil: "xs \<noteq> [] \<Longrightarrow> product_repeat xs n \<noteq> []"
  by (induction n) (auto simp: neq_Nil_conv)

text \<open>The words of length \<open>n\<close>, in the order of \<open>product\<close>, have consecutive ranks.\<close>

lemma product_ranks:
  "map word_rank (product_repeat ascii_lowercase n) = [words_below n..<words_below (Suc n)]"
proof (induction n)
  case 0
  then show ?case by (simp add: word_rank_def)
next
  case (Suc n)
  let ?P = "product_repeat ascii_lowercase n"
  have "map word_rank (product_repeat ascii_lowercase (Suc n))
      = concat (map (\<lambda>c. map (\<lambda>w. letter c * 26 ^ n + word_rank w) ?P) ascii_lowercase)"
    by (auto simp: map_concat comp_def word_rank_Cons product_repeat_set
        intro!: arg_cong [of _ _ concat])
  also have "\<dots> = concat (map (\<lambda>c. map (\<lambda>v. letter c * 26 ^ n + v) (map word_rank ?P)) ascii_lowercase)"
    by (simp add: comp_def)
  also have "\<dots> = concat (map (\<lambda>c. [words_below n + letter c * 26 ^ n..<words_below n + letter c * 26 ^ n + 26 ^ n]) ascii_lowercase)"
  proof -
    have shift: "map (\<lambda>v. k + v) [a..<b] = [a + k..<b + k]" for a b k :: nat
      by (induction b) (auto simp: not_le less_Suc_eq_le)
    show ?thesis unfolding Suc.IH shift by (simp add: ac_simps)
  qed
  also have "\<dots> = concat (map (\<lambda>j. [words_below n + j * 26 ^ n..<words_below n + j * 26 ^ n + 26 ^ n]) (map letter ascii_lowercase))"
    by (simp add: comp_def)
  also have "\<dots> = [words_below n + 26 ^ n..<words_below n + 27 * 26 ^ n]"
    unfolding letters by (simp add: concat_upt)
  finally show ?case by (simp add: add.commute)
qed


section \<open>The interface of a source of fresh messages\<close>

text \<open>
  What a test run needs of its message source: some rank of the values drawn grows by one with
  every call, so no value is drawn twice.
\<close>

primrec draws :: "('g \<Rightarrow> 'a \<times> 'g) \<Rightarrow> nat \<Rightarrow> 'g \<Rightarrow> 'a list" where
  "draws draw 0 g = []"
| "draws draw (Suc n) g = fst (draw g) # draws draw n (snd (draw g))"

primrec after :: "('g \<Rightarrow> 'a \<times> 'g) \<Rightarrow> nat \<Rightarrow> 'g \<Rightarrow> 'g" where
  "after draw 0 g = g"
| "after draw (Suc n) g = after draw n (snd (draw g))"

lemma draws_add: "draws draw (m + n) g = draws draw m g @ draws draw n (after draw m g)"
  by (induction m arbitrary: g) simp_all

lemma length_draws [simp]: "length (draws draw n g) = n"
  by (induction n arbitrary: g) simp_all

locale fresh_source =
  fixes draw :: "'g \<Rightarrow> 'a \<times> 'g"
    and rank :: "'a \<Rightarrow> nat"
    and drawn :: "nat \<Rightarrow> 'g \<Rightarrow> bool"
  assumes draw_rank: "drawn k g \<Longrightarrow> draw g = (w, g') \<Longrightarrow> rank w = k"
    and draw_next: "drawn k g \<Longrightarrow> draw g = (w, g') \<Longrightarrow> drawn (Suc k) g'"
begin

lemma ranks_draws: "drawn k g \<Longrightarrow> map rank (draws draw n g) = [k..<k + n]"
proof (induction n arbitrary: k g)
  case (Suc n)
  obtain w g' where d: "draw g = (w, g')" by (cases "draw g")
  from Suc.IH [OF draw_next [OF Suc.prems d]] draw_rank [OF Suc.prems d] d
  show ?case by (simp add: upt_rec)
qed simp

lemma distinct_draws: "drawn k g \<Longrightarrow> distinct (draws draw n g)"
  using ranks_draws [of k g n] by (metis distinct_map distinct_upt)

lemma drawn_after: "drawn k g \<Longrightarrow> drawn (k + n) (after draw n g)"
  by (induction n arbitrary: k g) (auto dest: draw_next simp: prod_eq_iff, metis add_Suc draw_next prod.collapse)

end

section \<open>Correctness of the generator\<close>

text \<open>\<open>gen_at k g\<close>: the next word that \<open>g\<close> yields is the one of rank \<open>k\<close>.\<close>

definition gen_at :: "nat \<Rightarrow> gen \<Rightarrow> bool" where
  "gen_at k g \<longleftrightarrow> set (gen_pending g) \<subseteq> set (product_repeat ascii_lowercase (gen_len g)) \<and>
     map word_rank (gen_pending g) = [k..<words_below (Suc (gen_len g))] \<and>
     k \<le> words_below (Suc (gen_len g)) \<and> (gen_pending g \<noteq> [] \<longrightarrow> 0 < gen_len g)"

lemma words_below_mono: "words_below n < words_below (Suc n)"
  by simp

lemma gen_at_start: "gen_at 1 string_generator"
  by (simp add: gen_at_def string_generator_def)

lemma gen_next_step:
  assumes at: "gen_at k g" and nxt: "gen_next g = (w, g')"
  shows "word_rank w = k \<and> lowercase w \<and> w \<noteq> [] \<and> gen_at (Suc k) g'"
proof -
  define n where "n = (if gen_pending g = [] then Suc (gen_len g) else gen_len g)"
  define ws where "ws = (if gen_pending g = [] then product_repeat ascii_lowercase n else gen_pending g)"
  have ranks: "map word_rank ws = [k..<words_below (Suc n)]"
  proof (cases "gen_pending g = []")
    case True
    then have "k = words_below (Suc (gen_len g))"
      using at by (auto simp: gen_at_def eq_commute [of "[]"] simp del: words_below.simps)
    with True product_ranks [of n] show ?thesis
      by (simp add: n_def ws_def del: words_below.simps product_repeat.simps)
  next
    case False
    with at show ?thesis by (simp add: gen_at_def n_def ws_def)
  qed
  have sub: "set ws \<subseteq> set (product_repeat ascii_lowercase n)" and pos: "0 < n"
    using at by (auto simp: gen_at_def n_def ws_def)
  have ne: "ws \<noteq> []"
    using product_repeat_not_Nil [of ascii_lowercase n] by (auto simp: ws_def ascii_lowercase_def)
  with ranks have lt: "k < words_below (Suc n)" by (metis Nil_is_map_conv upt_eq_Nil_conv not_less)
  obtain v vs where ws: "ws = v # vs" using ne by (cases ws) auto
  have split: "[k..<words_below (Suc n)] = k # [Suc k..<words_below (Suc n)]"
    using lt by (rule upt_conv_Cons)
  from ranks ws split have v: "word_rank v = k" and vs: "map word_rank vs = [Suc k..<words_below (Suc n)]"
    by simp_all
  have len: "length v = n" and low: "lowercase v"
    using sub ws by (auto simp: product_repeat_set lowercase_def)
  from nxt ws have w: "w = v" and g': "g' = \<lparr>gen_len = n, gen_pending = vs\<rparr>"
    by (auto simp: gen_next_def n_def [symmetric] ws_def [symmetric] Let_def)
  have "gen_at (Suc k) g'"
    using g' vs lt sub ws pos by (auto simp: gen_at_def simp del: words_below.simps)
  with v w low len pos show ?thesis by auto
qed

interpretation words: fresh_source gen_next word_rank gen_at
  by unfold_locales (auto dest: gen_next_step)

text \<open>The texts of different words, and of different iterations, differ.\<close>

lemma int_to_dec_no_underscore: "CHR ''_'' \<notin> set (int_to_dec i)"
proof
  assume "CHR ''_'' \<in> set (int_to_dec i)"
  then have "is_09 CHR ''_''" by (auto simp: int_to_dec_def split: if_splits dest: nat_to_dec_digits)
  then show False by (simp add: is_09_def code_of_def)
qed

lemma message_text_inject: "message_text i v = message_text j w \<longleftrightarrow> i = j \<and> v = w"
proof
  assume eq: "message_text i v = message_text j w"
  have "takeWhile (\<lambda>c. c \<noteq> CHR ''_'') (message_text k u) = int_to_dec k" for k u
    using int_to_dec_no_underscore [of k]
    unfolding message_text_def by (subst takeWhile_append2) auto
  with eq have "int_to_dec i = int_to_dec j" by metis
  with eq show "i = j \<and> v = w" by (simp add: message_text_def)
qed simp

lemma message_data_inject: "message_data i v = message_data j w \<longleftrightarrow> i = j \<and> v = w"
  by (simp add: message_data_def message_text_inject)

lemma decode_message_data: "py_decode (message_data i v) = Inr (str_codes (message_text i v))"
  by (simp add: message_data_def py_decode_encode)

lemma draws_lowercase: "gen_at k g \<Longrightarrow> w \<in> set (draws gen_next n g) \<Longrightarrow> lowercase w \<and> w \<noteq> []"
proof (induction n arbitrary: k g)
  case (Suc n)
  obtain v g' where v: "gen_next g = (v, g')" by (cases "gen_next g")
  from gen_next_step [OF Suc.prems(1) v] Suc.IH [of "Suc k" g'] Suc.prems(2) v show ?case by auto
qed simp

section \<open>Properties\<close>

text \<open>
  C3. The generator is a bijective base-26 counter: the first \<open>n\<close> words it yields have the ranks
  \<open>1, 2, ..., n\<close> as bijective base-26 numerals, and each is a non-empty lower-case word.  In
  particular it never raises, never repeats a word, and words come in length-lexicographic order.
\<close>

theorem generator_counts_base26:
  "map word_rank (draws gen_next n string_generator) = [1..<Suc n] \<and>
   (\<forall>w. w \<in> set (draws gen_next n string_generator) \<longrightarrow> lowercase w \<and> w \<noteq> [])"
  using words.ranks_draws [OF gen_at_start] draws_lowercase [OF gen_at_start] by auto

theorem generator_counts_base26_witness:
  "draws gen_next 28 string_generator ! 27 = ''ab'' \<and> lowercase ''ab''"
proof -
  have ab: "draws gen_next 28 string_generator ! 27 = ''ab''" by code_simp
  have "draws gen_next 28 string_generator ! 27 \<in> set (draws gen_next 28 string_generator)"
    by (rule nth_mem) simp
  with ab generator_counts_base26 [of 28] show ?thesis by simp
qed

text \<open>
  C4. The generator is complete: every non-empty lower-case word is yielded, as the value of the
  call whose number is the word's rank.
\<close>

theorem generator_reaches_every_word:
  assumes "lowercase w" and "w \<noteq> []"
  shows "draws gen_next (word_rank w) string_generator ! (word_rank w - 1) = w"
proof -
  let ?ds = "draws gen_next (word_rank w) string_generator"
  have pos: "0 < word_rank w"
  proof (cases w rule: rev_cases)
    case (snoc v c)
    with assms letter_bounds [of c] show ?thesis by (simp add: word_rank_append lowercase_def)
  qed (use assms in simp)
  then have i: "word_rank w - 1 < length ?ds" by simp
  have ranks: "map word_rank ?ds = [1..<Suc (word_rank w)]"
    using words.ranks_draws [OF gen_at_start, of "word_rank w"] by simp
  have "word_rank (?ds ! (word_rank w - 1)) = map word_rank ?ds ! (word_rank w - 1)"
    using i by simp
  also have "\<dots> = word_rank w"
    unfolding ranks using pos by (subst nth_upt) auto
  finally have "word_rank (?ds ! (word_rank w - 1)) = word_rank w" .
  with draws_lowercase [OF gen_at_start nth_mem [OF i]] assms show ?thesis
    by (auto intro: word_rank_inject)
qed

theorem generator_reaches_every_word_witness:
  "draws gen_next 28 string_generator ! 27 = ''ab''"
proof -
  have "lowercase ''ab''" "word_rank ''ab'' = 28"
    by (simp_all add: lowercase_def ascii_lowercase_def word_rank_def letter_def code_of_def)
  with generator_reaches_every_word [of "''ab''"] show ?thesis by simp
qed

end
