(* ===== verification/UdpClient.thy ===== *)
theory UdpClient
  imports Message
begin

text \<open>
  \<open>UdpClient\<close> of client/udp_client.py.  The state is the instance: its nodes, the class attribute
  \<open>_client_id\<close>, the running \<open>_nonce\<close>, and the datagrams its socket has taken so far.  The operating
  system's \<open>sendto\<close> is a parameter that says which exception, if any, a call raises.  The locale
  \<open>message_client\<close> is the \<open>send\<close> interface a test run uses.
\<close>

type_synonym address = "string \<times> int"
type_synonym datagram = "byte list \<times> address"
type_synonym sendto = "byte list \<Rightarrow> address \<Rightarrow> py_exn option"

record udp_client =
  uc_socket :: "datagram list"
  uc_nodes :: "address list"
  uc_client_id :: int
  uc_nonce :: int

text \<open>\<open>nonce\<^sub>0\<close> is the class attribute \<open>randint(0, 1e6)\<close>, drawn once when the module is loaded.\<close>

definition mk_udp_client :: "int \<Rightarrow> address list \<Rightarrow> udp_client" where
  "mk_udp_client nonce\<^sub>0 nodes =
     \<lparr>uc_socket = [], uc_nodes = nodes, uc_client_id = 131, uc_nonce = nonce\<^sub>0\<rparr>"

definition socket_sendto :: "sendto \<Rightarrow> byte list \<Rightarrow> address \<Rightarrow> (udp_client, unit) py" where
  "socket_sendto sendto buffer node =
     (case sendto buffer node of
        Some e \<Rightarrow> py_raise e
      | None \<Rightarrow> py_modify (\<lambda>c. c\<lparr>uc_socket := uc_socket c @ [(buffer, node)]\<rparr>))"

definition udp_send :: "sendto \<Rightarrow> int \<Rightarrow> byte list \<Rightarrow> (udp_client, unit) py" where
  "udp_send sendto mchain_hash data =
     py_bind (py_gets (\<lambda>c. mk_message mchain_hash (uc_client_id c) (uc_nonce c) SEND data)) (\<lambda>message.
     py_bind (py_lift (encode message)) (\<lambda>buffer.
     py_block
       [py_modify (\<lambda>c. c\<lparr>uc_nonce := uc_nonce c + 1\<rparr>),
        py_bind (py_gets uc_nodes) (\<lambda>nodes. py_for nodes (socket_sendto sendto buffer))]))"

section \<open>The interface\<close>

locale message_client =
  fixes send :: "int \<Rightarrow> byte list \<Rightarrow> ('c, unit) py"
    and peers :: "'c \<Rightarrow> 'a list"
    and posted :: "'c \<Rightarrow> ('m \<times> 'a) list"
    and carries :: "'m \<Rightarrow> int \<Rightarrow> byte list \<Rightarrow> bool"
  assumes send_returns: "send h d c = (Inr (), c') \<Longrightarrow>
      \<exists>m. carries m h d \<and> posted c' = posted c @ map (\<lambda>a. (m, a)) (peers c)"
    and send_peers: "peers (snd (send h d c)) = peers c"
begin

text \<open>What a run of sends that all return has put on the wire, to one peer.\<close>

lemma sends_reach_peer:
  assumes "all_return (\<lambda>r. send (fst r) (snd r)) c reqs" and "count_list (peers c) a = 1"
  shows "\<exists>ms. [m. (m, b) \<leftarrow> posted (run_calls (\<lambda>r. send (fst r) (snd r)) c reqs), b = a]
        = [m. (m, b) \<leftarrow> posted c, b = a] @ ms \<and> list_all2 (\<lambda>m r. carries m (fst r) (snd r)) ms reqs"
  using assms
proof (induction reqs arbitrary: c)
  case Nil
  then show ?case by simp
next
  case (Cons r reqs)
  obtain c' where c': "send (fst r) (snd r) c = (Inr (), c')"
    using Cons.prems(1) by (metis all_return.simps(2) prod.collapse)
  from send_returns [OF c'] obtain m where m: "carries m (fst r) (snd r)"
    and posted: "posted c' = posted c @ map (\<lambda>a. (m, a)) (peers c)" by blast
  have peers: "peers c' = peers c" using send_peers [of "fst r" "snd r" c] c' by simp
  have ret: "all_return (\<lambda>r. send (fst r) (snd r)) c' reqs"
    using Cons.prems(1) c' by simp
  obtain ms where
    ms: "[m. (m, b) \<leftarrow> posted (run_calls (\<lambda>r. send (fst r) (snd r)) c' reqs), b = a]
        = [m. (m, b) \<leftarrow> posted c', b = a] @ ms" "list_all2 (\<lambda>m r. carries m (fst r) (snd r)) ms reqs"
    using Cons.IH [OF ret] Cons.prems(2) peers by auto
  have one: "concat (map (\<lambda>b. if b = a then [m] else []) xs) = replicate (count_list xs a) m" for xs
    by (induction xs) auto
  have "[m. (m, b) \<leftarrow> posted c', b = a] = [m. (m, b) \<leftarrow> posted c, b = a] @ [m]"
    using one [of "peers c"] Cons.prems(2) by (simp add: posted comp_def)
  with ms m c' show ?case by (intro exI [of _ "m # ms"]) simp
qed

end

section \<open>Lemmas\<close>

lemma sendto_loop:
  "py_for ns (socket_sendto sendto buf) c =
     (let ok = takeWhile (\<lambda>a. sendto buf a = None) ns in
      ((if ok = ns then Inr () else Inl (the (sendto buf (ns ! length ok)))),
       c\<lparr>uc_socket := uc_socket c @ map (\<lambda>a. (buf, a)) ok\<rparr>))"
proof (induction ns arbitrary: c)
  case (Cons n ns)
  then show ?case
    by (cases "sendto buf n") (simp_all add: socket_sendto_def py_defs Let_def)
qed (simp add: py_defs)

definition udp_message :: "udp_client \<Rightarrow> int \<Rightarrow> byte list \<Rightarrow> message" where
  "udp_message c h d = mk_message h (uc_client_id c) (uc_nonce c) SEND d"

lemma udp_send_eq:
  "udp_send sendto h d c =
     (case encode (udp_message c h d) of
        Inl e \<Rightarrow> (Inl e, c)
      | Inr buf \<Rightarrow>
          let ok = takeWhile (\<lambda>a. sendto buf a = None) (uc_nodes c) in
          ((if ok = uc_nodes c then Inr () else Inl (the (sendto buf (uc_nodes c ! length ok)))),
           c\<lparr>uc_socket := uc_socket c @ map (\<lambda>a. (buf, a)) ok, uc_nonce := uc_nonce c + 1\<rparr>))"
  by (simp add: udp_send_def py_defs udp_message_def sendto_loop Let_def split: sum.splits)

lemma udp_send_frame:
  "uc_nodes (snd (udp_send sendto h d c)) = uc_nodes c"
  "uc_client_id (snd (udp_send sendto h d c)) = uc_client_id c"
  by (simp_all add: udp_send_eq Let_def split: sum.splits)

text \<open>A datagram that the server takes for a SEND of payload \<open>d\<close> on chain \<open>h\<close>.\<close>

definition udp_carries :: "byte list \<Rightarrow> int \<Rightarrow> byte list \<Rightarrow> bool" where
  "udp_carries buf h d = (case wire_parse buf of
     WireMessage w \<Rightarrow> wType w = SEND \<and> wMChainHash w = h \<and> wNodeId w = 0 \<and> wData w = d
   | _ \<Rightarrow> False)"

definition wire_session :: "byte list \<Rightarrow> int \<times> int \<times> int" where
  "wire_session buf = (case wire_parse buf of
     WireMessage w \<Rightarrow> (wMChainHash w, wClientId w, wNonce w) | _ \<Rightarrow> (-1, -1, -1))"

lemma udp_message_wire:
  assumes "encode (udp_message c h d) = Inr buf"
  shows "wire_parse buf = WireMessage
    \<lparr>wType = SEND, wMChainHash = h, wClientId = uc_client_id c, wNonce = uc_nonce c, wNodeId = 0,
     wData = d\<rparr>"
proof -
  have "encodable (udp_message c h d)" using assms by (simp add: encode_eq split: if_splits)
  with assms show ?thesis
    by (auto simp: encode_eq udp_message_def mk_message_def encodable_def wire_message_def
        le_value_u64 wire_parse_def message_type_int_def)
qed

interpretation udp: message_client "udp_send sendto" uc_nodes uc_socket udp_carries
proof unfold_locales
  fix h d c c'
  assume ret: "udp_send sendto h d c = (Inr (), c')"
  then obtain buf where buf: "encode (udp_message c h d) = Inr buf"
    by (auto simp: udp_send_eq split: sum.splits)
  with ret have ok: "takeWhile (\<lambda>a. sendto buf a = None) (uc_nodes c) = uc_nodes c"
    by (simp add: udp_send_eq Let_def split: if_splits)
  with ret buf have c': "uc_socket c' = uc_socket c @ map (\<lambda>a. (buf, a)) (uc_nodes c)"
    by (simp add: udp_send_eq Let_def) (metis udp_client.select_convs(1) udp_client.surjective udp_client.update_convs(1,4))
  from udp_message_wire [OF buf] have "udp_carries buf h d" by (simp add: udp_carries_def)
  with c' show "\<exists>m. udp_carries m h d \<and> uc_socket c' = uc_socket c @ map (\<lambda>a. (m, a)) (uc_nodes c)"
    by blast
qed (simp add: udp_send_frame)

section \<open>Nonces\<close>

definition sessions_to :: "address \<Rightarrow> udp_client \<Rightarrow> (int \<times> int \<times> int) list" where
  "sessions_to a c = [wire_session buf. (buf, b) \<leftarrow> uc_socket c, b = a]"

definition udp_invar :: "udp_client \<Rightarrow> bool" where
  "udp_invar c \<longleftrightarrow> distinct (uc_nodes c) \<and>
     (\<forall>a. sorted_wrt (\<lambda>s t. snd (snd s) < snd (snd t)) (sessions_to a c) \<and>
          (\<forall>s \<in> set (sessions_to a c). fst (snd s) = uc_client_id c \<and> snd (snd s) < uc_nonce c))"

lemma sessions_to_broadcast:
  "sessions_to a (c\<lparr>uc_socket := uc_socket c @ map (\<lambda>a. (buf, a)) ns, uc_nonce := k\<rparr>)
     = sessions_to a c @ replicate (count_list ns a) (wire_session buf)"
proof -
  have "concat (map (\<lambda>b. if b = a then [wire_session buf] else []) ns)
      = replicate (count_list ns a) (wire_session buf)"
    by (induction ns) auto
  then show ?thesis by (simp add: sessions_to_def comp_def)
qed

lemma udp_send_keeps_invar: "keeps udp_invar (udp_send sendto h d)"
proof (rule keepsI)
  fix c assume inv: "udp_invar c"
  show "udp_invar (snd (udp_send sendto h d c))"
  proof (cases "encode (udp_message c h d)")
    case (Inl e)
    with inv show ?thesis by (simp add: udp_send_eq)
  next
    case (Inr buf)
    let ?ok = "takeWhile (\<lambda>a. sendto buf a = None) (uc_nodes c)"
    let ?c = "c\<lparr>uc_socket := uc_socket c @ map (\<lambda>a. (buf, a)) ?ok, uc_nonce := uc_nonce c + 1\<rparr>"
    have ws: "wire_session buf = (h, uc_client_id c, uc_nonce c)"
      by (simp add: wire_session_def udp_message_wire [OF Inr])
    have rep: "replicate (count_list ?ok a) x = (if a \<in> set ?ok then [x] else [])" for a and x :: "int \<times> int \<times> int"
      using inv by (simp add: udp_invar_def distinct_count_list)
    have lt: "s \<in> set (sessions_to a c) \<Longrightarrow> snd (snd s) < uc_nonce c" for a s
      using inv unfolding udp_invar_def by blast
    have "udp_invar ?c"
      using inv by (auto simp: udp_invar_def sessions_to_broadcast rep ws sorted_wrt_append
          dest: lt intro: less_imp_le)
    then show ?thesis by (simp add: udp_send_eq Inr Let_def)
  qed
qed

interpretation udpc: guarded_component "\<lambda>r. udp_send sendto (fst r) (snd r)" udp_invar
  by unfold_locales (rule udp_send_keeps_invar)

lemma udp_invar_fresh: "distinct nodes \<Longrightarrow> udp_invar (mk_udp_client n nodes)"
  by (simp add: udp_invar_def mk_udp_client_def sessions_to_def)

lemma run_udp_frame:
  "uc_client_id (run_calls (\<lambda>r. udp_send sendto (fst r) (snd r)) c reqs) = uc_client_id c"
  by (induction reqs arbitrary: c) (simp_all add: udp_send_frame)

section \<open>Properties\<close>

text \<open>
  One call of \<open>send\<close>, on every branch.  If the message cannot be encoded, nothing is sent and
  the nonce stays; otherwise the nonce advances and the one buffer goes to the nodes in order up to
  the first whose \<open>sendto\<close> raises, and that exception is the outcome.
\<close>

theorem udp_send_outcome:
  "udp_send sendto h d c =
     (case encode (udp_message c h d) of
        Inl e \<Rightarrow> (Inl e, c)
      | Inr buf \<Rightarrow>
          let ok = takeWhile (\<lambda>a. sendto buf a = None) (uc_nodes c) in
          ((if ok = uc_nodes c then Inr () else Inl (the (sendto buf (uc_nodes c ! length ok)))),
           c\<lparr>uc_socket := uc_socket c @ map (\<lambda>a. (buf, a)) ok, uc_nonce := uc_nonce c + 1\<rparr>))"
  by (rule udp_send_eq)

text \<open>
  C5. Whatever is sent, and whichever calls of \<open>send\<close> or \<open>sendto\<close> raise on the way, the messages
  that reach one node carry client id 131 and strictly increasing nonces, so the server never sees
  two of them under one session id (chain, client, nonce).
\<close>

theorem udp_sessions_fresh:
  assumes "distinct nodes"
  shows "let c = run_calls (\<lambda>r. udp_send sendto (fst r) (snd r)) (mk_udp_client n nodes) reqs in
    sorted_wrt (\<lambda>s t. snd (snd s) < snd (snd t)) (sessions_to a c) \<and> distinct (sessions_to a c) \<and>
    (\<forall>s \<in> set (sessions_to a c). fst (snd s) = 131)"
proof -
  let ?c = "run_calls (\<lambda>r. udp_send sendto (fst r) (snd r)) (mk_udp_client n nodes) reqs"
  have inv: "udp_invar ?c" by (rule udpc.run_keeps [OF udp_invar_fresh [OF assms]])
  then have sorted: "sorted_wrt (\<lambda>s t. snd (snd s) < snd (snd t)) (sessions_to a ?c)"
    and ids: "\<forall>s \<in> set (sessions_to a ?c). fst (snd s) = uc_client_id ?c"
    unfolding udp_invar_def by blast+
  have "distinct (sessions_to a ?c)"
    by (rule sorted_wrt_distinct [OF sorted]) simp
  with sorted ids show ?thesis by (simp add: Let_def run_udp_frame mk_udp_client_def)
qed

theorem udp_sessions_fresh_witness:
  "sessions_to (''a'', 1)
     (run_calls (\<lambda>r. udp_send (\<lambda>_ _. None) (fst r) (snd r)) (mk_udp_client 7 [(''a'', 1), (''b'', 2)])
       [(5, [1]), (5, [2])]) = [(5, 131, 7), (5, 131, 8)]
   \<and> distinct (sessions_to (''a'', 1)
     (run_calls (\<lambda>r. udp_send (\<lambda>_ _. None) (fst r) (snd r)) (mk_udp_client 7 [(''a'', 1), (''b'', 2)])
       [(5, [1]), (5, [2])]))"
proof -
  have d: "distinct [(''a'', 1 :: int), (''b'', 2)]" by simp
  have "sessions_to (''a'', 1)
     (run_calls (\<lambda>r. udp_send (\<lambda>_ _. None) (fst r) (snd r)) (mk_udp_client 7 [(''a'', 1), (''b'', 2)])
       [(5, [1]), (5, [2])]) = [(5, 131, 7), (5, 131, 8)]"
    by code_simp
  with udp_sessions_fresh [OF d, of "\<lambda>_ _. None" 7 "[(5, [1]), (5, [2])]" "(''a'', 1)"]
  show ?thesis by (simp add: Let_def)
qed

text \<open>
  C6. Delivery to a peer: when every call of a run returns, a node listed once receives one message
  per call, in order, each of which the server reads as a SEND with the call's chain and payload.
\<close>

theorem udp_run_reaches_peer:
  assumes "all_return (\<lambda>r. udp_send sendto (fst r) (snd r)) (mk_udp_client n nodes) reqs"
    and "count_list nodes a = 1"
  shows "list_all2 (\<lambda>buf r. udp_carries buf (fst r) (snd r))
    [buf. (buf, b) \<leftarrow> uc_socket (run_calls (\<lambda>r. udp_send sendto (fst r) (snd r)) (mk_udp_client n nodes) reqs), b = a]
    reqs"
  using udp.sends_reach_peer [OF assms(1), of a] assms(2) by (auto simp: mk_udp_client_def)

theorem udp_run_reaches_peer_witness:
  "\<exists>buf1 buf2. [buf. (buf, b) \<leftarrow> uc_socket (run_calls (\<lambda>r. udp_send (\<lambda>_ _. None) (fst r) (snd r))
       (mk_udp_client 7 [(''a'', 1), (''b'', 2)]) [(5, [1]), (6, [2])]), b = (''b'', 2)] = [buf1, buf2]
     \<and> udp_carries buf1 5 [1] \<and> udp_carries buf2 6 [2]"
proof -
  have r: "all_return (\<lambda>r. udp_send (\<lambda>_ _. None) (fst r) (snd r))
      (mk_udp_client 7 [(''a'', 1), (''b'', 2)]) [(5, [1]), (6, [2])]" by code_simp
  have "count_list [(''a'', 1 :: int), (''b'', 2)] (''b'', 2) = 1" by simp
  from udp_run_reaches_peer [OF r this] show ?thesis
    by (auto simp: list_all2_Cons2)
qed

text \<open>
  Nonces are drawn per process, not per client: two clients made from the same loaded class open
  the same session on a chain with their first messages, whatever their payloads, so a server that
  keys its sessions by (chain, client, nonce) takes the second for a repetition of the first.
\<close>

theorem udp_instances_collide:
  assumes "encode (udp_message (mk_udp_client n nodes) h d1) = Inr b1"
    and "encode (udp_message (mk_udp_client n nodes') h d2) = Inr b2"
  shows "wire_session b1 = wire_session b2 \<and> (d1 \<noteq> d2 \<longrightarrow> b1 \<noteq> b2)"
  using udp_message_wire [OF assms(1)] udp_message_wire [OF assms(2)]
  by (auto simp: wire_session_def mk_udp_client_def)

theorem udp_instances_collide_witness:
  "\<exists>b1 b2. encode (udp_message (mk_udp_client 7 [(''a'', 1)]) 5 [1]) = Inr b1 \<and>
     encode (udp_message (mk_udp_client 7 [(''b'', 2)]) 5 [2]) = Inr b2 \<and>
     wire_session b1 = wire_session b2 \<and> b1 \<noteq> b2"
proof -
  obtain b1 where b1: "encode (udp_message (mk_udp_client 7 [(''a'', 1)]) 5 [1]) = Inr b1"
    by (simp add: encode_eq udp_message_def mk_udp_client_def mk_message_def encodable_def in_u64_def)
  obtain b2 where b2: "encode (udp_message (mk_udp_client 7 [(''b'', 2)]) 5 [2]) = Inr b2"
    by (simp add: encode_eq udp_message_def mk_udp_client_def mk_message_def encodable_def in_u64_def)
  from udp_instances_collide [OF b1 b2] b1 b2 show ?thesis by auto
qed

end
