(* ===== verification/Tracker.thy ===== *)
theory Tracker
  imports Bytes PyDict
begin

text \<open>
  What both testers of client/ keep: for every chain a dictionary from the texts still under way to
  the nodes that have delivered them.  This theory has the abstract account of a test run (who has
  delivered what since it was sent) and the locale \<open>delivery_tracker\<close>: the laws of \<open>on_send\<close> and
  \<open>on_delivery\<close>, and from them, once for both testers, that the book kept by the code is exactly
  the abstract account with the completed messages taken out, and that completions are counted
  right.
\<close>

section \<open>Test runs\<close>

datatype tracker_event =
    Sent int "byte list"
  | Delivered int nat "byte list"

definition text_of :: "byte list \<Rightarrow> codepoints" where
  "text_of data = (case py_decode data of Inr m \<Rightarrow> m | Inl _ \<Rightarrow> [])"

definition decodable :: "byte list \<Rightarrow> bool" where
  "decodable data = (case py_decode data of Inr _ \<Rightarrow> True | Inl _ \<Rightarrow> False)"

lemma py_decode_text: "decodable d \<Longrightarrow> py_decode d = Inr (text_of d)"
  by (simp add: decodable_def text_of_def split: sum.splits)

lemma py_decode_cases: "py_decode d = (if decodable d then Inr (text_of d) else Inl UnicodeDecodeError)"
  by (auto simp: py_decode_text) (auto simp: decodable_def py_decode_def split: sum.splits option.splits)

primrec event_chain :: "tracker_event \<Rightarrow> int" where
  "event_chain (Sent c d) = c"
| "event_chain (Delivered c i d) = c"

primrec event_data :: "tracker_event \<Rightarrow> byte list" where
  "event_data (Sent c d) = d"
| "event_data (Delivered c i d) = d"

text \<open>
  The abstract account: \<open>None\<close> for a text never sent, else the nodes that have delivered it since
  it was last sent.
\<close>

type_synonym account = "int \<Rightarrow> codepoints \<Rightarrow> nat set option"

primrec account_step :: "account \<Rightarrow> tracker_event \<Rightarrow> account" where
  "account_step r (Sent c d) = r(c := (r c)(text_of d \<mapsto> {}))"
| "account_step r (Delivered c i d) =
     r(c := (r c)(text_of d := map_option (insert i) (r c (text_of d))))"

definition recipients :: "tracker_event list \<Rightarrow> account" where
  "recipients es = foldl account_step (\<lambda>_ _. None) es"

definition sent_texts :: "tracker_event list \<Rightarrow> (int \<times> codepoints) list" where
  "sent_texts es = concat (map (\<lambda>e. case e of Sent c d \<Rightarrow> [(c, text_of d)] | _ \<Rightarrow> []) es)"

text \<open>A run as the tools make it: known chains, UTF-8 payloads, node indices below \<open>n\<close>.\<close>

primrec event_ok :: "int set \<Rightarrow> nat \<Rightarrow> tracker_event \<Rightarrow> bool" where
  "event_ok C n (Sent c d) = (c \<in> C \<and> decodable d)"
| "event_ok C n (Delivered c i d) = (c \<in> C \<and> decodable d \<and> i < n)"

text \<open>Sent messages by what became of them.\<close>

definition fully_delivered :: "nat \<Rightarrow> tracker_event list \<Rightarrow> (int \<times> codepoints) set" where
  "fully_delivered n es = {(c, m). recipients es c m = Some {..<n}}"

definition partly_delivered :: "nat \<Rightarrow> tracker_event list \<Rightarrow> (int \<times> codepoints) set" where
  "partly_delivered n es = {(c, m). \<exists>S. recipients es c m = Some S \<and> S \<noteq> {} \<and> S \<noteq> {..<n}}"

definition not_delivered :: "tracker_event list \<Rightarrow> (int \<times> codepoints) set" where
  "not_delivered es = {(c, m). recipients es c m = Some {}}"

lemma recipients_simps [simp]:
  "recipients [] = (\<lambda>_ _. None)"
  "recipients (es @ [e]) = account_step (recipients es) e"
  by (simp_all add: recipients_def)

lemma sent_texts_simps [simp]:
  "sent_texts [] = []"
  "sent_texts (es @ [Sent c d]) = sent_texts es @ [(c, text_of d)]"
  "sent_texts (es @ [Delivered c i d]) = sent_texts es"
  by (simp_all add: sent_texts_def)

lemma recipients_dom: "recipients es c m \<noteq> None \<longleftrightarrow> (c, m) \<in> set (sent_texts es)"
proof (induction es rule: rev_induct)
  case (snoc e es)
  then show ?case by (cases e) auto
qed simp

lemma recipients_bound:
  assumes "\<And>e. e \<in> set es \<Longrightarrow> event_ok C n e" and "recipients es c m = Some S"
  shows "S \<subseteq> {..<n}"
  using assms
proof (induction es arbitrary: S rule: rev_induct)
  case (snoc e es)
  then show ?case by (cases e) (fastforce split: if_splits)+
qed simp

lemma recipients_source:
  "recipients es c m = Some S \<Longrightarrow> i \<in> S \<Longrightarrow> \<exists>d. Delivered c i d \<in> set es \<and> text_of d = m"
proof (induction es arbitrary: S rule: rev_induct)
  case (snoc e es)
  show ?case
  proof (cases e)
    case (Sent c' d)
    with snoc show ?thesis by (fastforce split: if_splits)
  next
    case (Delivered c' i' d)
    show ?thesis
    proof (cases "c' = c \<and> i' = i \<and> text_of d = m")
      case False
      with snoc.prems Delivered obtain S' where "recipients es c m = Some S'" "i \<in> S'"
        by (auto split: if_splits)
      with snoc.IH show ?thesis by auto
    qed (use Delivered in auto)
  qed
qed simp

lemma finite_sent [simp]: "finite {p. p \<in> set (sent_texts es) \<and> P p}"
  by simp

lemma recipients_sets_finite:
  "finite (fully_delivered n es)" "finite (partly_delivered n es)" "finite (not_delivered es)"
proof -
  have "fully_delivered n es \<union> partly_delivered n es \<union> not_delivered es \<subseteq> set (sent_texts es)"
    using recipients_dom [of es] by (auto simp: fully_delivered_def partly_delivered_def not_delivered_def)
  then have "finite (fully_delivered n es \<union> partly_delivered n es \<union> not_delivered es)"
    by (rule finite_subset) simp
  then show "finite (fully_delivered n es)" "finite (partly_delivered n es)" "finite (not_delivered es)"
    by simp_all
qed

text \<open>With at least one node, every sent message falls in exactly one class.\<close>

lemma delivery_classes:
  assumes "0 < n"
  shows "fully_delivered n es \<union> partly_delivered n es \<union> not_delivered es = set (sent_texts es)"
    "fully_delivered n es \<inter> partly_delivered n es = {}"
    "(fully_delivered n es \<union> partly_delivered n es) \<inter> not_delivered es = {}"
proof -
  show "fully_delivered n es \<union> partly_delivered n es \<union> not_delivered es = set (sent_texts es)"
  proof (intro set_eqI)
    fix p :: "int \<times> codepoints"
    obtain c m where p: "p = (c, m)" by (cases p)
    show "p \<in> fully_delivered n es \<union> partly_delivered n es \<union> not_delivered es \<longleftrightarrow> p \<in> set (sent_texts es)"
      using recipients_dom [of es c m]
      by (cases "recipients es c m") (auto simp: p fully_delivered_def partly_delivered_def not_delivered_def)
  qed
  from assms show "fully_delivered n es \<inter> partly_delivered n es = {}"
    "(fully_delivered n es \<union> partly_delivered n es) \<inter> not_delivered es = {}"
    by (auto simp: fully_delivered_def partly_delivered_def not_delivered_def)
qed

section \<open>The interface of a tracker\<close>

text \<open>
  \<open>waiting\<close> is the code's book, \<open>finished\<close> and \<open>started\<close> its counters, kept per \<open>key c\<close> (per chain in
  one tester, over all chains in the other).
\<close>

definition history :: "('e \<Rightarrow> tracker_event option) \<Rightarrow> 'e list \<Rightarrow> tracker_event list" where
  "history ev es = concat (map (\<lambda>e. case ev e of None \<Rightarrow> [] | Some x \<Rightarrow> [x]) es)"

lemma history_simps [simp]:
  "history ev [] = []"
  "history ev (e # es) = (case ev e of None \<Rightarrow> [] | Some x \<Rightarrow> [x]) @ history ev es"
  "history ev (es @ es') = history ev es @ history ev es'"
  by (simp_all add: history_def)

lemma history_Some [simp]: "history Some es = es"
  by (induction es) simp_all

locale delivery_tracker =
  fixes on_event :: "'e \<Rightarrow> ('s, unit) py"
    and ev :: "'e \<Rightarrow> tracker_event option"
    and chains :: "int set"
    and nodes :: nat
    and valid :: "'s \<Rightarrow> bool"
    and waiting :: "'s \<Rightarrow> account"
    and finished :: "'s \<Rightarrow> 'k \<Rightarrow> nat"
    and started :: "'s \<Rightarrow> 'k \<Rightarrow> nat"
    and key :: "int \<Rightarrow> 'k"
  assumes nodes_pos: "0 < nodes"
    and silent_law: "valid s \<Longrightarrow> ev e = None \<Longrightarrow>
      \<exists>s'. on_event e s = (Inr (), s') \<and> valid s' \<and> waiting s' = waiting s \<and>
        finished s' = finished s \<and> started s' = started s"
    and sent_law: "valid s \<Longrightarrow> c \<in> chains \<Longrightarrow> decodable d \<Longrightarrow> ev e = Some (Sent c d) \<Longrightarrow>
      \<exists>s'. on_event e s = (Inr (), s') \<and> valid s' \<and>
        waiting s' = (waiting s)(c := (waiting s c)(text_of d \<mapsto> {})) \<and>
        finished s' = finished s \<and> started s' = (started s)(key c := Suc (started s (key c)))"
    and delivered_law: "valid s \<Longrightarrow> c \<in> chains \<Longrightarrow> decodable d \<Longrightarrow> ev e = Some (Delivered c i d) \<Longrightarrow>
      \<exists>s'. on_event e s = (Inr (), s') \<and> valid s' \<and> started s' = started s \<and>
        (case waiting s c (text_of d) of
           None \<Rightarrow> waiting s' = waiting s \<and> finished s' = finished s
         | Some S \<Rightarrow>
             if i \<in> S then waiting s' = waiting s \<and> finished s' = finished s
             else if card (insert i S) = nodes
             then waiting s' = (waiting s)(c := (waiting s c)(text_of d := None)) \<and>
                  finished s' = (finished s)(key c := Suc (finished s (key c)))
             else waiting s' = (waiting s)(c := (waiting s c)(text_of d \<mapsto> insert i S)) \<and>
                  finished s' = finished s)"
begin

definition book_of :: "account \<Rightarrow> account" where
  "book_of r c m = (case r c m of None \<Rightarrow> None | Some S \<Rightarrow> if S = {..<nodes} then None else Some S)"

definition tracks :: "'s \<Rightarrow> tracker_event list \<Rightarrow> bool" where
  "tracks s es \<longleftrightarrow> valid s \<and> waiting s = book_of (recipients es) \<and>
     (\<forall>k. finished s k = card {(c, m). key c = k \<and> (c, m) \<in> fully_delivered nodes es}) \<and>
     (\<forall>k. started s k = length (filter (\<lambda>(c, m). key c = k) (sent_texts es)))"

lemma insert_is_all: "S \<subseteq> {..<nodes} \<Longrightarrow> i < nodes \<Longrightarrow> insert i S = {..<nodes} \<longleftrightarrow> card (insert i S) = nodes"
  by (metis card_lessThan card_subset_eq finite_lessThan insert_subset lessThan_iff)

lemma finite_finished: "finite {(c, m). key c = k \<and> (c, m) \<in> fully_delivered nodes es}"
  by (rule finite_subset [OF _ recipients_sets_finite(1) [of nodes es]]) auto

lemma tracks_sent:
  assumes "tracks s es" "c \<in> chains" "decodable d" "(c, text_of d) \<notin> set (sent_texts es)"
    and ev: "ev e = Some (Sent c d)"
  shows "\<exists>s'. on_event e s = (Inr (), s') \<and> tracks s' (es @ [Sent c d])"
proof -
  from assms(1) have s: "valid s" "waiting s = book_of (recipients es)" by (simp_all add: tracks_def)
  from sent_law [OF s(1) assms(2,3) ev] obtain s' where
    s': "on_event e s = (Inr (), s')" "valid s'"
      "waiting s' = (waiting s)(c := (waiting s c)(text_of d \<mapsto> {}))"
      "finished s' = finished s" "started s' = (started s)(key c := Suc (started s (key c)))" by blast
  have "waiting s' = book_of (recipients (es @ [Sent c d]))"
    using nodes_pos by (auto simp: s'(3) s(2) book_of_def fun_eq_iff)
  moreover have "fully_delivered nodes (es @ [Sent c d]) = fully_delivered nodes es"
    using assms(4) recipients_dom [of es c "text_of d"] nodes_pos
    by (auto simp: fully_delivered_def split: if_splits)
  ultimately have "tracks s' (es @ [Sent c d])"
    using assms(1) s' by (auto simp: tracks_def)
  with s'(1) show ?thesis by blast
qed

lemma delivered_account:
  assumes "recipients es c (text_of d) = Some S" "i \<in> S"
  shows "recipients (es @ [Delivered c i d]) = recipients es"
  using assms by (auto simp: fun_eq_iff insert_absorb)

lemma tracks_delivered:
  assumes tr: "tracks s es" and ok: "\<And>e. e \<in> set es \<Longrightarrow> event_ok chains nodes e"
    and e: "c \<in> chains" "decodable d" "i < nodes" and ev: "ev e = Some (Delivered c i d)"
  shows "\<exists>s'. on_event e s = (Inr (), s') \<and> tracks s' (es @ [Delivered c i d])"
proof -
  let ?m = "text_of d" and ?R = "recipients es" and ?es' = "es @ [Delivered c i d]"
  from tr have s: "valid s" "waiting s = book_of ?R" by (simp_all add: tracks_def)
  from delivered_law [OF s(1) e(1,2) ev] obtain s' where
    s': "on_event e s = (Inr (), s')" "valid s'" "started s' = started s"
    and law: "case waiting s c ?m of
           None \<Rightarrow> waiting s' = waiting s \<and> finished s' = finished s
         | Some S \<Rightarrow>
             if i \<in> S then waiting s' = waiting s \<and> finished s' = finished s
             else if card (insert i S) = nodes
             then waiting s' = (waiting s)(c := (waiting s c)(?m := None)) \<and>
                  finished s' = (finished s)(key c := Suc (finished s (key c)))
             else waiting s' = (waiting s)(c := (waiting s c)(?m \<mapsto> insert i S)) \<and>
                  finished s' = finished s" by blast
  have same: "tracks s' ?es'" if "recipients ?es' = ?R" "waiting s' = waiting s" "finished s' = finished s"
    using that tr s' by (simp add: tracks_def fully_delivered_def del: recipients_simps)
  have "tracks s' ?es'"
  proof (cases "?R c ?m")
    case None
    then have "recipients ?es' = ?R" by (simp add: fun_eq_iff)
    with None law s(2) show ?thesis by (intro same) (simp_all add: book_of_def)
  next
    case (Some S)
    have sub: "S \<subseteq> {..<nodes}" using recipients_bound [OF ok Some] .
    show ?thesis
    proof (cases "S = {..<nodes} \<or> i \<in> S")
      case True
      then have "i \<in> S" using e(3) by auto
      with Some have "recipients ?es' = ?R" by (rule delivered_account)
      with \<open>i \<in> S\<close> Some law s(2) show ?thesis by (intro same) (auto simp: book_of_def split: if_splits)
    next
      case False
      have R': "recipients ?es' = ?R(c := (?R c)(?m \<mapsto> insert i S))" by (simp add: Some)
      have wait: "waiting s c ?m = Some S" using False Some s(2) by (simp add: book_of_def)
      have notfull: "(c, ?m) \<notin> fully_delivered nodes es" using Some False by (simp add: fully_delivered_def)
      show ?thesis
      proof (cases "card (insert i S) = nodes")
        case True
        then have all: "insert i S = {..<nodes}" using insert_is_all [OF sub e(3)] by simp
        have full: "fully_delivered nodes ?es' = insert (c, ?m) (fully_delivered nodes es)"
          unfolding fully_delivered_def R' all by (auto split: if_splits)
        have "waiting s' = (waiting s)(c := (waiting s c)(?m := None))"
          "finished s' = (finished s)(key c := Suc (finished s (key c)))"
          using law wait False True by simp_all
        moreover have "{(b, m). key b = k \<and> (b, m) \<in> fully_delivered nodes ?es'} =
            (if k = key c then insert (c, ?m) {(b, m). key b = k \<and> (b, m) \<in> fully_delivered nodes es}
             else {(b, m). key b = k \<and> (b, m) \<in> fully_delivered nodes es})" for k
          unfolding full by auto
        moreover have "book_of (recipients ?es') = (waiting s)(c := (waiting s c)(?m := None))"
          unfolding R' all s(2) by (auto simp: book_of_def fun_eq_iff)
        ultimately show ?thesis
          using tr s' notfull finite_finished [of _ es] by (auto simp: tracks_def)
      next
        case notall: False
        then have ne: "insert i S \<noteq> {..<nodes}" using insert_is_all [OF sub e(3)] by simp
        have "fully_delivered nodes ?es' = fully_delivered nodes es"
          unfolding fully_delivered_def R' using ne Some False by (auto split: if_splits)
        moreover have "waiting s' = (waiting s)(c := (waiting s c)(?m \<mapsto> insert i S))"
          "finished s' = finished s"
          using law wait False notall by simp_all
        moreover have "book_of (recipients ?es') = (waiting s)(c := (waiting s c)(?m \<mapsto> insert i S))"
          unfolding R' s(2) using ne by (auto simp: book_of_def fun_eq_iff)
        ultimately show ?thesis using tr s' by (simp add: tracks_def del: recipients_simps)
      qed
    qed
  qed
  with s'(1) show ?thesis by blast
qed

text \<open>A whole run: it never raises, and the state tracks the history.\<close>

lemma tracks_step:
  assumes tr: "tracks s es0" and ok: "\<And>x. x \<in> set (es0 @ history ev [e]) \<Longrightarrow> event_ok chains nodes x"
    and dist: "distinct (sent_texts (es0 @ history ev [e]))"
  shows "\<exists>s'. on_event e s = (Inr (), s') \<and> tracks s' (es0 @ history ev [e])"
proof (cases "ev e")
  case None
  from silent_law [OF _ None, of s] tr None show ?thesis by (auto simp: tracks_def)
next
  case (Some x)
  then have okx: "event_ok chains nodes x" using ok by simp
  show ?thesis
  proof (cases x)
    case (Sent c d)
    with Some okx dist tr show ?thesis by (auto intro: tracks_sent)
  next
    case (Delivered c i d)
    with Some okx ok tr show ?thesis by (auto intro: tracks_delivered)
  qed
qed

lemma tracks_run:
  assumes "tracks s es0" "\<And>x. x \<in> set (es0 @ history ev es) \<Longrightarrow> event_ok chains nodes x"
    and "distinct (sent_texts (es0 @ history ev es))"
  shows "all_return on_event s es \<and> tracks (run_calls on_event s es) (es0 @ history ev es)"
  using assms
proof (induction es arbitrary: s es0)
  case Nil
  then show ?case by simp
next
  case (Cons e es)
  have "sent_texts (es0 @ history ev (e # es)) = sent_texts (es0 @ history ev [e]) @ sent_texts (history ev es)"
    by (simp add: sent_texts_def)
  with Cons.prems(3) have dist: "distinct (sent_texts (es0 @ history ev [e]))" by simp
  have ok: "event_ok chains nodes x" if "x \<in> set (es0 @ history ev [e])" for x
    using that Cons.prems(2) by auto
  obtain s' where s': "on_event e s = (Inr (), s')" "tracks s' (es0 @ history ev [e])"
    using tracks_step [OF Cons.prems(1) ok dist] by blast
  from Cons.IH [OF s'(2)] Cons.prems(2,3) s'(1) show ?case by simp
qed

end

end
