(* ===== verification/Consistency.thy ===== *)
theory Consistency
  imports Tracker
begin

text \<open>
  \<open>ConsistencyTester\<close> of client/consistency_tester.py: its instance state, its three hooks and
  \<open>get_result\<close>, written statement by statement, and the proof that the tester meets the laws of
  \<open>Tracker\<close>, so that what it reports is the true classification of the messages sent.
\<close>

section \<open>State\<close>

type_synonym book = "(int, (codepoints, nat set) dict) dict"

text \<open>The two warnings the testers print.\<close>

datatype notice =
    NonSent nat codepoints int
  | SeveralTimes nat codepoints int

record consistency_tester =
  ct_mchains :: "int list"
  ct_node_count :: nat
  ct_messages :: book
  ct_total_messages_count :: "(int, nat) dict"
  ct_good :: "(int, nat) dict"
  ct_printed :: "notice list"

definition ct_init :: "int list \<Rightarrow> nat \<Rightarrow> consistency_tester" where
  "ct_init mchains n =
     \<lparr>ct_mchains = mchains, ct_node_count = n,
      ct_messages = dict_const mchains [],
      ct_total_messages_count = dict_const mchains 0,
      ct_good = dict_const mchains 0,
      ct_printed = []\<rparr>"

section \<open>Operations\<close>

definition ct_on_test_start :: "(consistency_tester, unit) py" where
  "ct_on_test_start = py_modify (\<lambda>s. s
     \<lparr>ct_messages := dict_const (ct_mchains s) [],
      ct_total_messages_count := dict_const (ct_mchains s) 0,
      ct_good := dict_const (ct_mchains s) 0\<rparr>)"

definition ct_print :: "notice \<Rightarrow> (consistency_tester, unit) py" where
  "ct_print n = py_modify (\<lambda>s. s\<lparr>ct_printed := ct_printed s @ [n]\<rparr>)"

text \<open>\<open>self.messages[mchain][message] = v\<close> and \<open>self.messages[mchain].pop(message)\<close>\<close>

definition ct_put :: "int \<Rightarrow> codepoints \<Rightarrow> nat set \<Rightarrow> (consistency_tester, unit) py" where
  "ct_put mchain m v =
     py_bind (py_gets ct_messages) (\<lambda>ms.
     py_bind (py_lift (dict_index ms mchain)) (\<lambda>chain.
       py_modify (\<lambda>s. s\<lparr>ct_messages := dict_set ms mchain (dict_set chain m v)\<rparr>)))"

definition ct_pop :: "int \<Rightarrow> codepoints \<Rightarrow> (consistency_tester, unit) py" where
  "ct_pop mchain m =
     py_bind (py_gets ct_messages) (\<lambda>ms.
     py_bind (py_lift (dict_index ms mchain)) (\<lambda>chain.
     py_bind (py_lift (dict_index chain m)) (\<lambda>_.
       py_modify (\<lambda>s. s\<lparr>ct_messages := dict_set ms mchain (dict_del chain m)\<rparr>))))"

definition ct_on_send :: "int \<Rightarrow> byte list \<Rightarrow> (consistency_tester, unit) py" where
  "ct_on_send mchain payload = py_block
     [py_bind (py_gets ct_total_messages_count) (\<lambda>d.
      py_bind (py_lift (dict_index d mchain)) (\<lambda>k.
        py_modify (\<lambda>s. s\<lparr>ct_total_messages_count := dict_set d mchain (k + 1)\<rparr>))),
      py_bind (py_lift (py_decode payload)) (\<lambda>m. ct_put mchain m {})]"

definition ct_on_delivery :: "int \<Rightarrow> nat \<Rightarrow> byte list \<Rightarrow> (consistency_tester, unit) py" where
  "ct_on_delivery mchain node_index payload =
     py_bind (py_lift (py_decode payload)) (\<lambda>m.
     py_bind (py_gets ct_messages) (\<lambda>ms.
     py_bind (py_lift (dict_index ms mchain)) (\<lambda>chain.
       case dict_get chain m of
         None \<Rightarrow> ct_print (NonSent node_index m mchain)
       | Some delivered \<Rightarrow>
           if node_index \<in> delivered then ct_print (SeveralTimes node_index m mchain)
           else py_block
             [ct_put mchain m (insert node_index delivered),
              py_bind (py_gets ct_node_count) (\<lambda>n.
                py_when (card (insert node_index delivered) = n) (py_block
                  [ct_pop mchain m,
                   py_bind (py_gets ct_good) (\<lambda>d.
                   py_bind (py_lift (dict_index d mchain)) (\<lambda>k.
                     py_modify (\<lambda>s. s\<lparr>ct_good := dict_set d mchain (k + 1)\<rparr>)))]))])))"

definition ct_chain_result :: "consistency_tester \<Rightarrow> int \<Rightarrow> (int \<times> int \<times> int) res" where
  "ct_chain_result s mchain =
     bind_res (dict_index (ct_messages s) mchain) (\<lambda>chain.
     let partial = dict_count (\<lambda>count. 0 < card count) chain in
     bind_res (dict_index (ct_good s) mchain) (\<lambda>good.
     bind_res (dict_index (ct_total_messages_count s) mchain) (\<lambda>total.
       Inr (int good, int partial, int total - (int good + int partial)))))"

definition ct_get_result :: "consistency_tester \<Rightarrow> (int, int \<times> int \<times> int) dict res" where
  "ct_get_result s =
     bind_res (map_res (ct_chain_result s) (ct_mchains s)) (\<lambda>rs.
       Inr (foldl (\<lambda>d (mchain, r). dict_set d mchain r) [] (zip (ct_mchains s) rs)))"

primrec ct_event :: "tracker_event \<Rightarrow> (consistency_tester, unit) py" where
  "ct_event (Sent c d) = ct_on_send c d"
| "ct_event (Delivered c i d) = ct_on_delivery c i d"

section \<open>The laws of a tracker\<close>

definition ct_waiting :: "consistency_tester \<Rightarrow> account" where
  "ct_waiting s c m = (case map_of (ct_messages s) c of None \<Rightarrow> None | Some d \<Rightarrow> map_of d m)"

definition ct_counter :: "(int, nat) dict \<Rightarrow> int \<Rightarrow> nat" where
  "ct_counter d c = (case map_of d c of None \<Rightarrow> 0 | Some k \<Rightarrow> k)"

definition ct_valid :: "int list \<Rightarrow> nat \<Rightarrow> consistency_tester \<Rightarrow> bool" where
  "ct_valid mchains n s \<longleftrightarrow> ct_mchains s = mchains \<and> ct_node_count s = n \<and>
     dom (map_of (ct_messages s)) = set mchains \<and>
     dom (map_of (ct_total_messages_count s)) = set mchains \<and>
     dom (map_of (ct_good s)) = set mchains \<and>
     (\<forall>c d. map_of (ct_messages s) c = Some d \<longrightarrow> wf_dict d)"

lemma ct_valid_lookup:
  assumes "ct_valid mchains n s" "c \<in> set mchains"
  obtains chain k g where "map_of (ct_messages s) c = Some chain" "wf_dict chain"
    "map_of (ct_total_messages_count s) c = Some k" "map_of (ct_good s) c = Some g"
proof -
  from assms have "c \<in> dom (map_of (ct_messages s))" "c \<in> dom (map_of (ct_total_messages_count s))"
    "c \<in> dom (map_of (ct_good s))" by (simp_all add: ct_valid_def)
  then show thesis using assms that by (fastforce simp: ct_valid_def)
qed

lemma ct_valid_init: "ct_valid mchains n (ct_init mchains n)"
  by (auto simp: ct_valid_def ct_init_def map_of_dict_const dom_def split: if_splits)

lemmas ct_step_defs = ct_put_def ct_pop_def ct_print_def py_defs dict_index_def dict_get_def

lemma ct_waiting_printed [simp]: "ct_waiting (s\<lparr>ct_printed := p\<rparr>) = ct_waiting s"
  by (simp add: ct_waiting_def fun_eq_iff)

lemma ct_on_send_law:
  assumes v: "ct_valid mchains n s" and c: "c \<in> set mchains" and d: "decodable d"
  shows "\<exists>s'. ct_on_send c d s = (Inr (), s') \<and> ct_valid mchains n s' \<and>
    ct_waiting s' = (ct_waiting s)(c := (ct_waiting s c)(text_of d \<mapsto> {})) \<and>
    ct_counter (ct_good s') = ct_counter (ct_good s) \<and>
    ct_counter (ct_total_messages_count s') =
      (ct_counter (ct_total_messages_count s))(c := Suc (ct_counter (ct_total_messages_count s) c))"
proof -
  obtain chain k g where l: "map_of (ct_messages s) c = Some chain" "wf_dict chain"
    "map_of (ct_total_messages_count s) c = Some k" "map_of (ct_good s) c = Some g"
    using ct_valid_lookup [OF v c] .
  define s' where "s' = s\<lparr>ct_total_messages_count := dict_set (ct_total_messages_count s) c (k + 1),
      ct_messages := dict_set (ct_messages s) c (dict_set chain (text_of d) {})\<rparr>"
  have "ct_on_send c d s = (Inr (), s')"
    using l by (simp add: ct_on_send_def ct_step_defs py_decode_text [OF d] s'_def)
  moreover have "ct_valid mchains n s'"
    using v l c by (auto simp: ct_valid_def s'_def)
  moreover have "ct_waiting s' = (ct_waiting s)(c := (ct_waiting s c)(text_of d \<mapsto> {}))"
    using l by (auto simp: ct_waiting_def s'_def fun_eq_iff)
  moreover have "ct_counter (ct_total_messages_count s') =
      (ct_counter (ct_total_messages_count s))(c := Suc (ct_counter (ct_total_messages_count s) c))"
    using l by (auto simp: ct_counter_def s'_def fun_eq_iff)
  ultimately show ?thesis by (auto simp: s'_def)
qed

lemma ct_on_delivery_law:
  assumes v: "ct_valid mchains n s" and c: "c \<in> set mchains" and d: "decodable d"
  shows "\<exists>s'. ct_on_delivery c i d s = (Inr (), s') \<and> ct_valid mchains n s' \<and>
    ct_counter (ct_total_messages_count s') = ct_counter (ct_total_messages_count s) \<and>
    (case ct_waiting s c (text_of d) of
       None \<Rightarrow> ct_waiting s' = ct_waiting s \<and> ct_counter (ct_good s') = ct_counter (ct_good s)
     | Some S \<Rightarrow>
         if i \<in> S then ct_waiting s' = ct_waiting s \<and> ct_counter (ct_good s') = ct_counter (ct_good s)
         else if card (insert i S) = n
         then ct_waiting s' = (ct_waiting s)(c := (ct_waiting s c)(text_of d := None)) \<and>
              ct_counter (ct_good s') = (ct_counter (ct_good s))(c := Suc (ct_counter (ct_good s) c))
         else ct_waiting s' = (ct_waiting s)(c := (ct_waiting s c)(text_of d \<mapsto> insert i S)) \<and>
              ct_counter (ct_good s') = ct_counter (ct_good s))"
proof -
  obtain chain k g where l: "map_of (ct_messages s) c = Some chain" "wf_dict chain"
    "map_of (ct_total_messages_count s) c = Some k" "map_of (ct_good s) c = Some g"
    using ct_valid_lookup [OF v c] .
  have n: "ct_node_count s = n" using v by (simp add: ct_valid_def)
  let ?m = "text_of d"
  have w: "ct_waiting s c ?m = map_of chain ?m" using l by (simp add: ct_waiting_def)
  have run: "ct_on_delivery c i d s =
     (case map_of chain ?m of
        None \<Rightarrow> ct_print (NonSent i ?m c) s
      | Some S \<Rightarrow> if i \<in> S then ct_print (SeveralTimes i ?m c) s
          else if card (insert i S) = n
          then (Inr (), s\<lparr>ct_messages := dict_set (dict_set (ct_messages s) c (dict_set chain ?m (insert i S))) c
                             (dict_del (dict_set chain ?m (insert i S)) ?m),
                          ct_good := dict_set (ct_good s) c (g + 1)\<rparr>)
          else (Inr (), s\<lparr>ct_messages := dict_set (ct_messages s) c (dict_set chain ?m (insert i S))\<rparr>))"
    using l n by (simp add: ct_on_delivery_def ct_step_defs py_decode_text [OF d] split: option.splits)
  consider "map_of chain ?m = None" | S where "map_of chain ?m = Some S" "i \<in> S"
    | S where "map_of chain ?m = Some S" "i \<notin> S" by (cases "map_of chain ?m") auto
  then show ?thesis
  proof cases
    case 1
    with v show ?thesis
      by (simp add: run w ct_print_def py_defs ct_valid_def)
  next
    case (2 S)
    with v show ?thesis
      by (simp add: run w ct_print_def py_defs ct_valid_def)
  next
    case (3 S)
    with v l c show ?thesis
      by (auto simp: run w ct_valid_def ct_waiting_def fun_eq_iff ct_counter_def)
  qed
qed


interpretation ct: delivery_tracker ct_event Some "set mchains" "Suc n" "ct_valid mchains (Suc n)" ct_waiting
  "\<lambda>s. ct_counter (ct_good s)" "\<lambda>s. ct_counter (ct_total_messages_count s)" "\<lambda>c. c"
  using ct_on_send_law [of mchains "Suc n"] ct_on_delivery_law [of mchains "Suc n"]
  by unfold_locales simp_all

lemma ct_tracks_init: "ct.tracks n mchains (ct_init mchains (Suc n)) []"
  by (simp add: ct.tracks_def ct_valid_init ct.book_of_def fully_delivered_def)
    (auto simp: ct_init_def ct_waiting_def ct_counter_def map_of_dict_const fun_eq_iff ct.book_of_def)

lemma ct_tracks_restart:
  assumes "ct_mchains s = mchains" "ct_node_count s = Suc n"
  shows "ct.tracks n mchains (snd (ct_on_test_start s)) []"
  using assms
  by (simp add: ct.tracks_def ct.book_of_def fully_delivered_def ct_on_test_start_def py_defs)
    (auto simp: ct_valid_def ct_waiting_def ct_counter_def map_of_dict_const fun_eq_iff dom_def
      ct.book_of_def split: if_splits)

section \<open>The report\<close>

lemma chain_set_card:
  assumes "finite A"
  shows "card {m. (c, m) \<in> A} = card {(b, m). b = c \<and> (b, m) \<in> A}"
proof -
  have "{(b, m). b = c \<and> (b, m) \<in> A} = Pair c ` {m. (c, m) \<in> A}" by auto
  then show ?thesis by (simp add: card_image inj_on_def)
qed

lemma finite_chain: "finite A \<Longrightarrow> finite {m. (c, m) \<in> (A :: (int \<times> codepoints) set)}"
  by (rule finite_subset [of _ "snd ` A"]) force+

lemma length_chain_sent:
  assumes "distinct (sent_texts es)"
  shows "length (filter (\<lambda>(b, m). b = c) (sent_texts es)) = card {m. (c, m) \<in> set (sent_texts es)}"
proof -
  have "length (filter (\<lambda>(b, m). b = c) (sent_texts es)) = card (set (filter (\<lambda>(b, m). b = c) (sent_texts es)))"
    by (rule distinct_card [symmetric]) (use assms in simp)
  also have "set (filter (\<lambda>(b, m). b = c) (sent_texts es)) = {(b, m). b = c \<and> (b, m) \<in> set (sent_texts es)}"
    by auto
  finally show ?thesis by (simp add: chain_set_card)
qed

text \<open>On each chain the three classes add up to the messages sent there.\<close>

lemma chain_classes_card:
  assumes "0 < n"
  shows "card {m. (c, m) \<in> set (sent_texts es)} = card {m. (c, m) \<in> fully_delivered n es}
    + card {m. (c, m) \<in> partly_delivered n es} + card {m. (c, m) \<in> not_delivered es}"
proof -
  let ?F = "fully_delivered n es" and ?P = "partly_delivered n es" and ?N = "not_delivered es"
  have "{m. (c, m) \<in> set (sent_texts es)} = {m. (c, m) \<in> ?F} \<union> {m. (c, m) \<in> ?P} \<union> {m. (c, m) \<in> ?N}"
    using delivery_classes(1) [OF assms, of es] by blast
  moreover have "card ({m. (c, m) \<in> ?F} \<union> {m. (c, m) \<in> ?P} \<union> {m. (c, m) \<in> ?N})
      = card {m. (c, m) \<in> ?F} + card {m. (c, m) \<in> ?P} + card {m. (c, m) \<in> ?N}"
    using delivery_classes(2,3) [OF assms, of es]
    by (subst card_Un_disjoint, simp_all add: finite_chain recipients_sets_finite, blast)
      (subst card_Un_disjoint, simp_all add: finite_chain recipients_sets_finite, blast)
  ultimately show ?thesis by simp
qed

lemma ct_chain_result_tracks:
  assumes tr: "ct.tracks n mchains s es" and c: "c \<in> set mchains"
    and ok: "\<And>e. e \<in> set es \<Longrightarrow> event_ok (set mchains) (Suc n) e"
    and dist: "distinct (sent_texts es)"
  shows "ct_chain_result s c = Inr
    (int (card {m. (c, m) \<in> fully_delivered (Suc n) es}),
     int (card {m. (c, m) \<in> partly_delivered (Suc n) es}),
     int (card {m. (c, m) \<in> not_delivered es}))"
proof -
  let ?F = "fully_delivered (Suc n) es" and ?P = "partly_delivered (Suc n) es" and ?N = "not_delivered es"
  from tr have v: "ct_valid mchains (Suc n) s" and w: "ct_waiting s = ct.book_of n (recipients es)"
    and fin: "ct_counter (ct_good s) c = card {m. (c, m) \<in> ?F}"
    and tot: "ct_counter (ct_total_messages_count s) c = card {m. (c, m) \<in> set (sent_texts es)}"
    using length_chain_sent [OF dist, of c] chain_set_card [OF recipients_sets_finite(1) [of "Suc n" es], of c]
    by (simp_all add: ct.tracks_def)
  obtain chain k g where l: "map_of (ct_messages s) c = Some chain" "wf_dict chain"
    "map_of (ct_total_messages_count s) c = Some k" "map_of (ct_good s) c = Some g"
    using ct_valid_lookup [OF v c] .
  have chain: "map_of chain m = ct.book_of n (recipients es) c m" for m
    unfolding w [symmetric] by (simp add: ct_waiting_def l(1))
  have "{m. \<exists>S. map_of chain m = Some S \<and> 0 < card S} = {m. (c, m) \<in> ?P}"
  proof -
    have "0 < card S \<longleftrightarrow> S \<noteq> {}" if "recipients es c m = Some S" for m S
      using recipients_bound [OF ok that] by (metis card_gt_0_iff finite_lessThan finite_subset)
    then show ?thesis
      by (auto simp: chain ct.book_of_def partly_delivered_def split: option.splits if_splits)
  qed
  then have part: "dict_count (\<lambda>count. 0 < card count) chain = card {m. (c, m) \<in> ?P}"
    using dict_count_card [OF l(2), of "\<lambda>count. 0 < card count"] by simp
  with l fin tot chain_classes_card [of "Suc n" c es] show ?thesis
    by (simp add: ct_chain_result_def dict_index_def ct_counter_def Let_def)
qed

lemma foldl_dict_set_zip:
  "distinct ks \<Longrightarrow> length ks = length vs \<Longrightarrow>
   set ks \<inter> set (dict_keys d) = {} \<Longrightarrow> foldl (\<lambda>d (k, v). dict_set d k v) d (zip ks vs) = d @ zip ks vs"
proof (induction ks arbitrary: vs d)
  case (Cons k ks)
  then obtain v vs' where vs: "vs = v # vs'" by (cases vs) auto
  have new: "k \<notin> set (dict_keys d) \<Longrightarrow> dict_set d k v = d @ [(k, v)]" for d
    by (induction d) (auto simp: dict_keys_def)
  show ?case using Cons vs new [of d] by (auto simp: dict_keys_def)
qed simp

lemma ct_report_tracks:
  assumes tr: "ct.tracks k mchains s es" and "distinct mchains"
    and "\<And>e. e \<in> set es \<Longrightarrow> event_ok (set mchains) (Suc k) e" and "distinct (sent_texts es)"
  shows "ct_get_result s = Inr (map (\<lambda>c.
      (c, int (card {m. (c, m) \<in> fully_delivered (Suc k) es}),
          int (card {m. (c, m) \<in> partly_delivered (Suc k) es}),
          int (card {m. (c, m) \<in> not_delivered es}))) mchains)"
proof -
  let ?r = "\<lambda>c. (int (card {m. (c, m) \<in> fully_delivered (Suc k) es}),
     int (card {m. (c, m) \<in> partly_delivered (Suc k) es}), int (card {m. (c, m) \<in> not_delivered es}))"
  have "map_res (ct_chain_result s) mchains = Inr (map ?r mchains)"
    using ct_chain_result_tracks [OF tr] assms(3,4) by (intro map_res_all_Inr) simp
  moreover have "ct_mchains s = mchains" using tr by (simp add: ct.tracks_def ct_valid_def)
  ultimately show ?thesis
    using foldl_dict_set_zip [OF assms(2), of "map ?r mchains" "[]"]
    by (simp add: ct_get_result_def dict_keys_def zip_map2 zip_same_conv_map comp_def)
qed

section \<open>Properties\<close>

text \<open>
  C7. The consistency report is right.  From a fresh tester, over any interleaving of sends and
  deliveries on its chains (payloads UTF-8, node indices below the node count, no text sent twice on
  a chain; duplicate deliveries and deliveries of texts never sent are allowed), no hook raises, and
  for each chain \<open>get_result\<close> lists the number of sent messages delivered by every node, by some but
  not all nodes, and by none.
\<close>

theorem consistency_report_correct:
  assumes "0 < n" and "distinct mchains"
    and "\<And>e. e \<in> set es \<Longrightarrow> event_ok (set mchains) n e" and "distinct (sent_texts es)"
  shows "all_return ct_event (ct_init mchains n) es \<and>
    ct_get_result (run_calls ct_event (ct_init mchains n) es) = Inr (map (\<lambda>c.
      (c, int (card {m. (c, m) \<in> fully_delivered n es}),
          int (card {m. (c, m) \<in> partly_delivered n es}),
          int (card {m. (c, m) \<in> not_delivered es}))) mchains)"
proof -
  obtain k where n: "n = Suc k" using assms(1) by (cases n) auto
  let ?s = "run_calls ct_event (ct_init mchains n) es"
  have "all_return ct_event (ct_init mchains n) es \<and> ct.tracks k mchains ?s es"
    using ct.tracks_run [OF ct_tracks_init [where mchains = mchains and n = k], of es] assms(3,4) by (simp add: n)
  then have ret: "all_return ct_event (ct_init mchains n) es" and tr: "ct.tracks k mchains ?s es" by auto
  have "ct_get_result ?s = Inr (map (\<lambda>c.
      (c, int (card {m. (c, m) \<in> fully_delivered (Suc k) es}),
          int (card {m. (c, m) \<in> partly_delivered (Suc k) es}),
          int (card {m. (c, m) \<in> not_delivered es}))) mchains)"
    by (rule ct_report_tracks [OF tr assms(2) _ assms(4)]) (use assms(3) n in simp)
  with ret show ?thesis by (simp add: n)
qed

definition sample_run :: "tracker_event list" where
  "sample_run = [Sent 7 [97], Sent 7 [98], Delivered 7 1 [97], Delivered 7 0 [99], Delivered 7 0 [97],
     Delivered 7 0 [98], Delivered 7 0 [98], Sent 7 [99]]"

theorem consistency_report_correct_witness:
  "ct_get_result (run_calls ct_event (ct_init [7] 2) sample_run) = Inr [(7, 1, 1, 1)] \<and>
   card {m. (7, m) \<in> fully_delivered 2 sample_run} = 1 \<and>
   card {m. (7, m) \<in> partly_delivered 2 sample_run} = 1 \<and>
   card {m. (7, m) \<in> not_delivered sample_run} = 1"
proof -
  have val: "ct_get_result (run_calls ct_event (ct_init [7] 2) sample_run) = Inr [(7, 1, 1, 1)]"
    by code_simp
  have dec: "decodable [97]" "decodable [98]" "decodable [99]" by code_simp+
  have "e \<in> set sample_run \<Longrightarrow> event_ok (set [7]) 2 e" for e
    using dec by (auto simp: sample_run_def)
  moreover have "distinct (sent_texts sample_run)" by code_simp
  ultimately show ?thesis
    using consistency_report_correct [of 2 "[7]" sample_run] val by simp
qed

text \<open>The two hooks step by step when they cannot finish.\<close>

lemma ct_unknown_chain:
  assumes "ct_valid mchains n s" "c \<notin> set mchains"
  shows "dict_index (ct_messages s) c = Inl KeyError" "dict_index (ct_total_messages_count s) c = Inl KeyError"
  using assms by (auto simp: ct_valid_def dict_index_def split: option.splits)

lemma ct_on_delivery_fails:
  assumes v: "ct_valid mchains n s" and "\<not> (c \<in> set mchains \<and> decodable d)"
  shows "ct_on_delivery c i d s = (Inl (if decodable d then KeyError else UnicodeDecodeError), s)"
  using assms ct_unknown_chain [OF v, of c]
  by (auto simp: ct_on_delivery_def py_defs py_decode_cases)

lemma ct_on_send_fails:
  assumes v: "ct_valid mchains n s"
  shows "c \<notin> set mchains \<Longrightarrow> ct_on_send c d s = (Inl KeyError, s)"
    and "c \<in> set mchains \<Longrightarrow> \<not> decodable d \<Longrightarrow> ct_on_send c d s = (Inl UnicodeDecodeError,
        s\<lparr>ct_total_messages_count := dict_set (ct_total_messages_count s) c
            (Suc (ct_counter (ct_total_messages_count s) c))\<rparr>)"
proof -
  show "c \<notin> set mchains \<Longrightarrow> ct_on_send c d s = (Inl KeyError, s)"
    using ct_unknown_chain [OF v, of c] by (simp add: ct_on_send_def py_defs)
  assume "c \<in> set mchains" and d: "\<not> decodable d"
  then obtain k where "map_of (ct_total_messages_count s) c = Some k"
    using ct_valid_lookup [OF v] by metis
  with d show "ct_on_send c d s = (Inl UnicodeDecodeError,
        s\<lparr>ct_total_messages_count := dict_set (ct_total_messages_count s) c
            (Suc (ct_counter (ct_total_messages_count s) c))\<rparr>)"
    by (simp add: ct_on_send_def py_defs dict_index_def py_decode_cases ct_counter_def)
qed

text \<open>
  C8. Exactly when the hooks raise, and what they leave behind, in every state a run on the chains
  \<open>mchains\<close> can reach.  A delivery raises if and only if its payload is not UTF-8
  (\<open>UnicodeDecodeError\<close>) or its chain is unknown (\<open>KeyError\<close>), and then nothing is changed: no entry,
  no counter, no warning.  A send raises if and only if its chain is unknown, which changes nothing,
  or its payload is not UTF-8, and then the message has already been counted: the total of its chain
  is one higher and nothing else has changed, so the message is in the total without ever being in
  the book.
\<close>

theorem consistency_hook_errors:
  assumes "ct_valid mchains n s"
  shows "(ct_on_delivery c i d s = (Inl e, s') \<longleftrightarrow>
      s' = s \<and> (if decodable d then c \<notin> set mchains \<and> e = KeyError else e = UnicodeDecodeError)) \<and>
    (ct_on_send c d s = (Inl e, s') \<longleftrightarrow>
      (if c \<notin> set mchains then e = KeyError \<and> s' = s
       else \<not> decodable d \<and> e = UnicodeDecodeError \<and>
         s' = s\<lparr>ct_total_messages_count := dict_set (ct_total_messages_count s) c
                  (Suc (ct_counter (ct_total_messages_count s) c))\<rparr>))"
proof (cases "c \<in> set mchains \<and> decodable d")
  case True
  with ct_on_delivery_law [OF assms, of c d i] ct_on_send_law [OF assms, of c d] show ?thesis by auto
next
  case False
  with ct_on_delivery_fails [OF assms, of c d i] ct_on_send_fails [OF assms, of c d] show ?thesis by auto
qed

theorem consistency_hook_errors_witness:
  "ct_on_send 7 [255] (ct_init [7] 2) = (Inl UnicodeDecodeError,
     (ct_init [7] 2)\<lparr>ct_total_messages_count := [(7, 1)]\<rparr>) \<and>
   ct_on_send 8 [97] (ct_init [7] 2) = (Inl KeyError, ct_init [7] 2) \<and>
   ct_on_delivery 7 0 [255] (ct_init [7] 2) = (Inl UnicodeDecodeError, ct_init [7] 2) \<and>
   fst (ct_on_delivery 7 0 [97] (ct_init [7] 2)) \<noteq> Inl KeyError"
proof -
  have d: "\<not> decodable [255]" "decodable [97]" by code_simp+
  have t: "dict_set (ct_total_messages_count (ct_init [7] 2)) 7
      (Suc (ct_counter (ct_total_messages_count (ct_init [7] 2)) 7)) = [(7, 1)]"
    by (simp add: ct_init_def dict_const_def ct_counter_def)
  show ?thesis
    using consistency_hook_errors [OF ct_valid_init, of 7 0 "[255]" "[7]" 2 UnicodeDecodeError]
      consistency_hook_errors [OF ct_valid_init, of 8 0 "[97]" "[7]" 2 KeyError]
      consistency_hook_errors [OF ct_valid_init, of 7 0 "[97]" "[7]" 2 KeyError] d t
    by (auto simp: prod_eq_iff)
qed

end
