(* ===== verification/QueueSize.thy ===== *)
theory QueueSize
  imports Tracker Complex_Main
begin

text \<open>
  \<open>QueueSizeTester\<close> of client/queue_size_tester.py.  The attributes that are \<open>None\<close> until a test
  starts are options, and using them before raises as in Python.  Times are exact rationals (the
  rounding of floats is not modelled); the reading of \<open>perf_counter()\<close> that a method makes is its
  first argument.  The tester is a second instance of \<open>Tracker\<close>; on top of it, \<open>get_result\<close> is
  shown to report the number of messages in process after every call that changes it.
\<close>

type_synonym time = rat

section \<open>State\<close>

datatype event_type = DELIVER_MESSAGE | STOP_SENDING | SEND_MESSAGE

definition event_type_int :: "event_type \<Rightarrow> int" where
  "event_type_int t = (case t of DELIVER_MESSAGE \<Rightarrow> -1 | STOP_SENDING \<Rightarrow> 0 | SEND_MESSAGE \<Rightarrow> 1)"

record event =
  ev_time :: time
  ev_type :: event_type

definition mk_event :: "time \<Rightarrow> event_type \<Rightarrow> event" where
  "mk_event now t = \<lparr>ev_time = now, ev_type = t\<rparr>"

record queue_tester =
  qt_mchains :: "int list"
  qt_node_count :: nat
  qt_messages :: "(int, (codepoints, nat set) dict) dict option"
  qt_events :: "event list option"
  qt_start_time :: "time option"
  qt_printed :: "(bool \<times> nat \<times> codepoints \<times> int) list"

definition qt_init :: "int list \<Rightarrow> nat \<Rightarrow> queue_tester" where
  "qt_init mchains n =
     \<lparr>qt_mchains = mchains, qt_node_count = n, qt_messages = None, qt_events = None,
      qt_start_time = None, qt_printed = []\<rparr>"

section \<open>Operations\<close>

definition qt_on_test_start :: "time \<Rightarrow> (queue_tester, unit) py" where
  "qt_on_test_start now = py_modify (\<lambda>s. s
     \<lparr>qt_messages := Some (dict_const (qt_mchains s) []),
      qt_events := Some [],
      qt_start_time := Some now\<rparr>)"

text \<open>\<open>None[...]\<close> is a \<open>TypeError\<close>, \<open>None.append\<close> an \<open>AttributeError\<close>.\<close>

definition qt_chain :: "int \<Rightarrow> (queue_tester, (codepoints, nat set) dict) py" where
  "qt_chain mchain =
     py_bind (py_gets qt_messages) (\<lambda>ms. py_lift (case ms of
        None \<Rightarrow> Inl TypeError | Some d \<Rightarrow> dict_index d mchain))"

definition qt_set_chain :: "int \<Rightarrow> (codepoints, nat set) dict \<Rightarrow> (queue_tester, unit) py" where
  "qt_set_chain mchain chain =
     py_modify (\<lambda>s. s\<lparr>qt_messages := map_option (\<lambda>d. dict_set d mchain chain) (qt_messages s)\<rparr>)"

definition qt_put :: "int \<Rightarrow> codepoints \<Rightarrow> nat set \<Rightarrow> (queue_tester, unit) py" where
  "qt_put mchain m v = py_bind (qt_chain mchain) (\<lambda>chain. qt_set_chain mchain (dict_set chain m v))"

definition qt_pop :: "int \<Rightarrow> codepoints \<Rightarrow> (queue_tester, unit) py" where
  "qt_pop mchain m =
     py_bind (qt_chain mchain) (\<lambda>chain.
     py_bind (py_lift (dict_index chain m)) (\<lambda>_. qt_set_chain mchain (dict_del chain m)))"

definition qt_append_event :: "time \<Rightarrow> event_type \<Rightarrow> (queue_tester, unit) py" where
  "qt_append_event now t =
     py_bind (py_gets qt_events) (\<lambda>evs.
       case evs of
         None \<Rightarrow> py_raise AttributeError
       | Some l \<Rightarrow> py_modify (\<lambda>s. s\<lparr>qt_events := Some (l @ [mk_event now t])\<rparr>))"

definition qt_on_send :: "time \<Rightarrow> int \<Rightarrow> byte list \<Rightarrow> (queue_tester, unit) py" where
  "qt_on_send now mchain payload =
     py_bind (py_lift (py_decode payload)) (\<lambda>m. py_block
       [qt_put mchain m {},
        qt_append_event now SEND_MESSAGE])"

definition qt_print :: "bool \<Rightarrow> nat \<Rightarrow> codepoints \<Rightarrow> int \<Rightarrow> (queue_tester, unit) py" where
  "qt_print again i m c = py_modify (\<lambda>s. s\<lparr>qt_printed := qt_printed s @ [(again, i, m, c)]\<rparr>)"

definition qt_on_delivery :: "time \<Rightarrow> int \<Rightarrow> nat \<Rightarrow> byte list \<Rightarrow> (queue_tester, unit) py" where
  "qt_on_delivery now mchain node_index payload =
     py_bind (py_lift (py_decode payload)) (\<lambda>m.
     py_bind (qt_chain mchain) (\<lambda>chain.
       case dict_get chain m of
         None \<Rightarrow> qt_print False node_index m mchain
       | Some delivered \<Rightarrow>
           if node_index \<in> delivered then qt_print True node_index m mchain
           else py_block
             [qt_put mchain m (insert node_index delivered),
              py_bind (py_gets qt_node_count) (\<lambda>n.
                py_when (card (insert node_index delivered) = n) (py_block
                  [qt_pop mchain m,
                   qt_append_event now DELIVER_MESSAGE]))]))"

definition qt_on_stop_sending :: "time \<Rightarrow> (queue_tester, unit) py" where
  "qt_on_stop_sending now = qt_append_event now STOP_SENDING"

text \<open>The loop of \<open>get_result\<close>: its three locals, from left to right over the events.\<close>

primrec qt_loop :: "time \<Rightarrow> int \<Rightarrow> int list \<Rightarrow> time option \<Rightarrow> event list \<Rightarrow> int list \<times> time option" where
  "qt_loop start queue_size queue_sizes stop_time [] = (queue_sizes, stop_time)"
| "qt_loop start queue_size queue_sizes stop_time (e # es) =
     (if ev_type e = STOP_SENDING
      then qt_loop start queue_size queue_sizes (Some (ev_time e - start)) es
      else let queue_size' = queue_size + event_type_int (ev_type e)
           in qt_loop start queue_size' (queue_sizes @ [queue_size']) stop_time es)"

text \<open>
  With no start time the subtraction raises, but only if there is an event to subtract from.
\<close>

definition qt_get_result :: "queue_tester \<Rightarrow> (time list \<times> int list \<times> time option) res" where
  "qt_get_result s =
     (case qt_events s of
        None \<Rightarrow> Inl TypeError
      | Some evs \<Rightarrow>
          (case qt_start_time s of
             None \<Rightarrow> if evs = [] then Inr ([], [], None) else Inl TypeError
           | Some start \<Rightarrow>
               let times = map (\<lambda>e. ev_time e - start) (filter (\<lambda>e. ev_type e \<noteq> STOP_SENDING) evs);
                   (queue_sizes, stop_time) = qt_loop start 0 [] None evs
               in Inr (times, queue_sizes, stop_time)))"

text \<open>A call of a hook with the clock reading it makes.\<close>

datatype qt_call = Hook time tracker_event | Stop time

primrec qt_event :: "qt_call \<Rightarrow> tracker_event option" where
  "qt_event (Hook now e) = Some e"
| "qt_event (Stop now) = None"

primrec qt_hook :: "qt_call \<Rightarrow> (queue_tester, unit) py" where
  "qt_hook (Hook now e) = (case e of
      Sent c d \<Rightarrow> qt_on_send now c d | Delivered c i d \<Rightarrow> qt_on_delivery now c i d)"
| "qt_hook (Stop now) = qt_on_stop_sending now"

section \<open>The laws of a tracker\<close>

definition qt_waiting :: "queue_tester \<Rightarrow> account" where
  "qt_waiting s c m = (case qt_messages s of None \<Rightarrow> None | Some ms \<Rightarrow>
     (case map_of ms c of None \<Rightarrow> None | Some d \<Rightarrow> map_of d m))"

definition qt_number :: "event_type \<Rightarrow> queue_tester \<Rightarrow> nat" where
  "qt_number t s = (case qt_events s of None \<Rightarrow> 0 | Some evs \<Rightarrow> length (filter (\<lambda>e. ev_type e = t) evs))"

definition qt_valid :: "int list \<Rightarrow> nat \<Rightarrow> queue_tester \<Rightarrow> bool" where
  "qt_valid mchains n s \<longleftrightarrow> qt_mchains s = mchains \<and> qt_node_count s = n \<and>
     (\<exists>ms evs. qt_messages s = Some ms \<and> qt_events s = Some evs \<and> qt_start_time s \<noteq> None \<and>
        dom (map_of ms) = set mchains \<and> (\<forall>c d. map_of ms c = Some d \<longrightarrow> wf_dict d))"

lemmas qt_step_defs = qt_put_def qt_pop_def qt_print_def qt_chain_def qt_set_chain_def
  qt_append_event_def py_defs dict_index_def dict_get_def

lemma qt_valid_lookup:
  assumes "qt_valid mchains n s" "c \<in> set mchains"
  obtains ms evs chain where "qt_messages s = Some ms" "qt_events s = Some evs"
    "map_of ms c = Some chain" "wf_dict chain" "qt_node_count s = n"
proof -
  from assms(1) obtain ms evs where m: "qt_messages s = Some ms" "qt_events s = Some evs"
    "dom (map_of ms) = set mchains" "\<forall>c d. map_of ms c = Some d \<longrightarrow> wf_dict d" "qt_node_count s = n"
    by (auto simp: qt_valid_def)
  with assms(2) obtain chain where "map_of ms c = Some chain" by blast
  with m that show thesis by blast
qed

lemma qt_waiting_frame [simp]:
  "qt_waiting (s\<lparr>qt_printed := p\<rparr>) = qt_waiting s"
  "qt_waiting (s\<lparr>qt_events := es\<rparr>) = qt_waiting s"
  "qt_number t (s\<lparr>qt_printed := p\<rparr>) = qt_number t s"
  "qt_number t (s\<lparr>qt_messages := ms\<rparr>) = qt_number t s"
  by (simp_all add: qt_waiting_def qt_number_def fun_eq_iff)

text \<open>The events a call records, all at the time it has read.\<close>

definition qt_appended :: "time \<Rightarrow> event_type list \<Rightarrow> queue_tester \<Rightarrow> queue_tester \<Rightarrow> bool" where
  "qt_appended now ts s s' \<longleftrightarrow> qt_start_time s' = qt_start_time s \<and>
     (\<exists>evs. qt_events s = Some evs \<and> qt_events s' = Some (evs @ map (mk_event now) ts))"

lemma qt_stop_law:
  assumes "qt_valid mchains n s"
  shows "\<exists>s'. qt_on_stop_sending now s = (Inr (), s') \<and> qt_valid mchains n s' \<and>
    qt_waiting s' = qt_waiting s \<and> qt_number DELIVER_MESSAGE s' = qt_number DELIVER_MESSAGE s \<and>
    qt_number SEND_MESSAGE s' = qt_number SEND_MESSAGE s \<and> qt_appended now [STOP_SENDING] s s'"
  using assms
  by (auto simp: qt_valid_def qt_on_stop_sending_def qt_append_event_def py_defs qt_number_def
      mk_event_def qt_appended_def)

lemma qt_on_send_law:
  assumes v: "qt_valid mchains n s" and c: "c \<in> set mchains" and d: "decodable d"
  shows "\<exists>s'. qt_on_send now c d s = (Inr (), s') \<and> qt_valid mchains n s' \<and>
    qt_waiting s' = (qt_waiting s)(c := (qt_waiting s c)(text_of d \<mapsto> {})) \<and>
    qt_number DELIVER_MESSAGE s' = qt_number DELIVER_MESSAGE s \<and>
    qt_number SEND_MESSAGE s' = Suc (qt_number SEND_MESSAGE s) \<and> qt_appended now [SEND_MESSAGE] s s'"
proof -
  obtain ms evs chain where l: "qt_messages s = Some ms" "qt_events s = Some evs"
    "map_of ms c = Some chain" "wf_dict chain" "qt_node_count s = n"
    using qt_valid_lookup [OF v c] .
  define s' where "s' = s\<lparr>qt_messages := Some (dict_set ms c (dict_set chain (text_of d) {})),
      qt_events := Some (evs @ [mk_event now SEND_MESSAGE])\<rparr>"
  have "qt_on_send now c d s = (Inr (), s')"
    using l by (simp add: qt_on_send_def qt_step_defs py_decode_text [OF d] s'_def)
  moreover have "qt_valid mchains n s'"
    using v l c by (auto simp: qt_valid_def s'_def)
  moreover have "qt_waiting s' = (qt_waiting s)(c := (qt_waiting s c)(text_of d \<mapsto> {}))"
    using l by (auto simp: qt_waiting_def s'_def fun_eq_iff)
  ultimately show ?thesis
    using l by (auto simp: qt_number_def mk_event_def s'_def qt_appended_def)
qed

lemma qt_on_delivery_law:
  assumes v: "qt_valid mchains n s" and c: "c \<in> set mchains" and d: "decodable d"
  shows "\<exists>s'. qt_on_delivery now c i d s = (Inr (), s') \<and> qt_valid mchains n s' \<and>
    (qt_appended now [] s s' \<or> qt_appended now [DELIVER_MESSAGE] s s') \<and>
    qt_number SEND_MESSAGE s' = qt_number SEND_MESSAGE s \<and>
    (case qt_waiting s c (text_of d) of
       None \<Rightarrow> qt_waiting s' = qt_waiting s \<and> qt_number DELIVER_MESSAGE s' = qt_number DELIVER_MESSAGE s
     | Some S \<Rightarrow>
         if i \<in> S
         then qt_waiting s' = qt_waiting s \<and> qt_number DELIVER_MESSAGE s' = qt_number DELIVER_MESSAGE s
         else if card (insert i S) = n
         then qt_waiting s' = (qt_waiting s)(c := (qt_waiting s c)(text_of d := None)) \<and>
              qt_number DELIVER_MESSAGE s' = Suc (qt_number DELIVER_MESSAGE s)
         else qt_waiting s' = (qt_waiting s)(c := (qt_waiting s c)(text_of d \<mapsto> insert i S)) \<and>
              qt_number DELIVER_MESSAGE s' = qt_number DELIVER_MESSAGE s)"
proof -
  obtain ms evs chain where l: "qt_messages s = Some ms" "qt_events s = Some evs"
    "map_of ms c = Some chain" "wf_dict chain" "qt_node_count s = n"
    using qt_valid_lookup [OF v c] .
  let ?m = "text_of d"
  have w: "qt_waiting s c ?m = map_of chain ?m" using l by (simp add: qt_waiting_def)
  have run: "qt_on_delivery now c i d s =
     (case map_of chain ?m of
        None \<Rightarrow> qt_print False i ?m c s
      | Some S \<Rightarrow> if i \<in> S then qt_print True i ?m c s
          else if card (insert i S) = n
          then (Inr (), s\<lparr>qt_messages := Some (dict_set (dict_set ms c (dict_set chain ?m (insert i S))) c
                             (dict_del (dict_set chain ?m (insert i S)) ?m)),
                          qt_events := Some (evs @ [mk_event now DELIVER_MESSAGE])\<rparr>)
          else (Inr (), s\<lparr>qt_messages := Some (dict_set ms c (dict_set chain ?m (insert i S)))\<rparr>))"
    using l by (simp add: qt_on_delivery_def qt_step_defs py_decode_text [OF d] split: option.splits)
  consider "map_of chain ?m = None" | S where "map_of chain ?m = Some S" "i \<in> S"
    | S where "map_of chain ?m = Some S" "i \<notin> S" by (cases "map_of chain ?m") auto
  then show ?thesis
  proof cases
    case 1
    with v l show ?thesis
      by (simp add: run w qt_print_def py_defs qt_valid_def qt_appended_def)
  next
    case (2 S)
    with v l show ?thesis
      by (simp add: run w qt_print_def py_defs qt_valid_def qt_appended_def)
  next
    case (3 S)
    with v l c show ?thesis
      by (auto simp: run w qt_valid_def qt_appended_def qt_waiting_def fun_eq_iff qt_number_def mk_event_def)
  qed
qed

lemma unit_functions:
  "(\<lambda>_. a)(() := b) = (\<lambda>_. b)" "((\<lambda>_ :: unit. a) = (\<lambda>_. b)) = (a = b)"
  by (auto simp: fun_eq_iff)

interpretation qt: delivery_tracker qt_hook qt_event "set mchains" "Suc n" "qt_valid mchains (Suc n)"
  qt_waiting "\<lambda>s _. qt_number DELIVER_MESSAGE s" "\<lambda>s _. qt_number SEND_MESSAGE s" "\<lambda>_. ()"
proof (unfold_locales, goal_cases)
  case 1
  show ?case by simp
next
  case (2 s e)
  then obtain now where "e = Stop now" by (cases e) auto
  with qt_stop_law [OF 2(1), of now] show ?case by auto
next
  case (3 s c d e)
  then obtain now where "e = Hook now (Sent c d)" by (cases e) auto
  with qt_on_send_law [OF 3(1-3), of now] show ?case by (auto simp: unit_functions)
next
  case (4 s c d e i)
  then obtain now where "e = Hook now (Delivered c i d)" by (cases e) auto
  with qt_on_delivery_law [OF 4(1-3), of now i] show ?case
    by (elim exE, rename_tac s', rule_tac x = s' in exI) (simp add: unit_functions split: option.splits if_splits)
qed

section \<open>The report\<close>

definition in_process :: "nat \<Rightarrow> tracker_event list \<Rightarrow> nat" where
  "in_process n es = card (set (sent_texts es) - fully_delivered n es)"

lemma fully_delivered_sent: "fully_delivered n es \<subseteq> set (sent_texts es)"
  using recipients_dom [of es] by (auto simp: fully_delivered_def)

lemma in_process_code:
  "in_process n es = card (set (filter (\<lambda>(c, m). recipients es c m \<noteq> Some (set [0..<n])) (sent_texts es)))"
  unfolding in_process_def fully_delivered_def by (rule arg_cong [where f = card]) (auto simp: atLeast_upt)

definition balance :: "event list \<Rightarrow> int" where
  "balance evs = sum_list (map (\<lambda>e. event_type_int (ev_type e)) evs)"

lemma balance_counts:
  "balance evs = int (length (filter (\<lambda>e. ev_type e = SEND_MESSAGE) evs))
     - int (length (filter (\<lambda>e. ev_type e = DELIVER_MESSAGE) evs))"
proof (induction evs)
  case (Cons e evs)
  then show ?case by (cases "ev_type e") (simp_all add: balance_def event_type_int_def)
qed (simp add: balance_def)

lemma qt_loop_snoc:
  "fst (qt_loop start q qs st (evs @ [e])) =
     (if ev_type e = STOP_SENDING then fst (qt_loop start q qs st evs)
      else fst (qt_loop start q qs st evs) @ [q + balance (evs @ [e])])"
  by (induction evs arbitrary: q qs st) (auto simp: Let_def balance_def event_type_int_def)

lemma qt_loop_stop:
  "snd (qt_loop start q qs st evs) =
     (case filter (\<lambda>e. ev_type e = STOP_SENDING) evs of [] \<Rightarrow> st | es \<Rightarrow> Some (ev_time (last es) - start))"
  by (induction evs arbitrary: q qs st) (auto simp: Let_def split: list.splits)

abbreviation qt_run :: "int list \<Rightarrow> nat \<Rightarrow> time \<Rightarrow> qt_call list \<Rightarrow> queue_tester" where
  "qt_run mchains n start es \<equiv>
     run_calls qt_hook (snd (qt_on_test_start start (qt_init mchains n))) es"

lemma qt_tracks_start: "qt.tracks n mchains (snd (qt_on_test_start start (qt_init mchains (Suc n)))) []"
  unfolding qt.tracks_def
  by (auto simp: qt_on_test_start_def qt_init_def py_defs qt_valid_def qt_number_def qt_waiting_def
      fun_eq_iff map_of_dict_const qt.book_of_def fully_delivered_def split: if_splits)

text \<open>
  What the report should hold: the calls of a run that change the number of messages in process, the
  time of each and the number after it, and the last time the test stopped sending.
\<close>

primrec call_time :: "qt_call \<Rightarrow> time" where
  "call_time (Hook now e) = now"
| "call_time (Stop now) = now"

definition is_stop :: "qt_call \<Rightarrow> bool" where
  "is_stop e \<longleftrightarrow> qt_event e = None"

definition process_after :: "nat \<Rightarrow> qt_call list \<Rightarrow> nat \<Rightarrow> nat" where
  "process_after n es k = in_process n (history qt_event (take k es))"

definition process_changes :: "nat \<Rightarrow> qt_call list \<Rightarrow> nat list" where
  "process_changes n es = filter (\<lambda>k. process_after n es (Suc k) \<noteq> process_after n es k) [0..<length es]"

definition change_times :: "nat \<Rightarrow> qt_call list \<Rightarrow> time list" where
  "change_times n es = map (\<lambda>k. call_time (es ! k)) (process_changes n es)"

definition change_sizes :: "nat \<Rightarrow> qt_call list \<Rightarrow> int list" where
  "change_sizes n es = map (\<lambda>k. int (process_after n es (Suc k))) (process_changes n es)"

definition last_stop :: "time \<Rightarrow> qt_call list \<Rightarrow> time option" where
  "last_stop start es =
     (case filter is_stop es of [] \<Rightarrow> None | stops \<Rightarrow> Some (call_time (last stops) - start))"

lemma process_after_snoc: "k \<le> length es \<Longrightarrow> process_after n (es @ [e]) k = process_after n es k"
  by (simp add: process_after_def)

lemma process_changes_snoc:
  "process_changes n (es @ [e]) = process_changes n es @
     (if in_process n (history qt_event (es @ [e])) \<noteq> in_process n (history qt_event es) then [length es] else [])"
proof -
  have "filter (\<lambda>k. process_after n (es @ [e]) (Suc k) \<noteq> process_after n (es @ [e]) k) [0..<length es]
      = process_changes n es"
    unfolding process_changes_def by (rule filter_cong) (simp_all add: process_after_snoc)
  then show ?thesis by (simp add: process_changes_def process_after_def)
qed

lemma process_changes_less: "k \<in> set (process_changes n es) \<Longrightarrow> k < length es"
  by (simp add: process_changes_def)

lemma change_snoc:
  "change_times n (es @ [e]) = change_times n es @
     (if in_process n (history qt_event (es @ [e])) \<noteq> in_process n (history qt_event es) then [call_time e] else [])"
  "change_sizes n (es @ [e]) = change_sizes n es @
     (if in_process n (history qt_event (es @ [e])) \<noteq> in_process n (history qt_event es)
      then [int (in_process n (history qt_event (es @ [e])))] else [])"
  by (auto simp: change_times_def change_sizes_def process_changes_snoc nth_append process_after_snoc
      process_after_def dest: process_changes_less)

lemma qt_step_appends:
  assumes v: "qt_valid mchains n s" and "\<And>x. x \<in> set (history qt_event [e]) \<Longrightarrow> event_ok (set mchains) n x"
  shows "\<exists>ts. qt_appended (call_time e) ts s (snd (qt_hook e s)) \<and>
    (if is_stop e then ts = [STOP_SENDING] else ts = [] \<or> ts = [SEND_MESSAGE] \<or> ts = [DELIVER_MESSAGE])"
proof (cases e)
  case (Hook now x)
  then have ok: "event_ok (set mchains) n x" using assms(2) by simp
  show ?thesis
  proof (cases x)
    case (Sent c d)
    with ok Hook qt_on_send_law [OF v, of c d now] show ?thesis by (auto simp: is_stop_def)
  next
    case (Delivered c i d)
    with ok Hook qt_on_delivery_law [OF v, of c d now i] show ?thesis by (auto simp: is_stop_def)
  qed
next
  case (Stop now)
  with qt_stop_law [OF v, of now] show ?thesis by (auto simp: is_stop_def)
qed

text \<open>The sends recorded less the deliveries recorded are the messages in process.\<close>

lemma qt_tracks_balance:
  assumes tr: "qt.tracks n mchains s h" and "distinct (sent_texts h)" and evs: "qt_events s = Some evs"
  shows "balance evs = int (in_process (Suc n) h)"
    and "length (sent_texts h) \<le> length (filter (\<lambda>e. ev_type e \<noteq> STOP_SENDING) evs)"
proof -
  have "int (card (set (sent_texts h))) - int (card (fully_delivered (Suc n) h)) = int (in_process (Suc n) h)"
    unfolding in_process_def using fully_delivered_sent [of "Suc n" h]
    by (simp add: card_Diff_subset recipients_sets_finite card_mono)
  moreover have "qt_number SEND_MESSAGE s = card (set (sent_texts h))"
    "qt_number DELIVER_MESSAGE s = card (fully_delivered (Suc n) h)"
    using tr distinct_card [OF assms(2)] by (simp_all add: qt.tracks_def)
  ultimately show "balance evs = int (in_process (Suc n) h)"
    using evs by (simp add: balance_counts qt_number_def)
  have "length (sent_texts h) = length (filter (\<lambda>e. ev_type e = SEND_MESSAGE) evs)"
    using tr by (simp add: qt.tracks_def) (simp add: evs qt_number_def)
  also have "\<dots> \<le> length (filter (\<lambda>e. ev_type e \<noteq> STOP_SENDING) evs)" by (induction evs) auto
  finally show "length (sent_texts h) \<le> length (filter (\<lambda>e. ev_type e \<noteq> STOP_SENDING) evs)" .
qed

text \<open>The events of a run are its changes, in order, and its stop marks.\<close>

definition run_events :: "time \<Rightarrow> nat \<Rightarrow> qt_call list \<Rightarrow> event list \<Rightarrow> bool" where
  "run_events start n es evs \<longleftrightarrow>
     map ev_time (filter (\<lambda>e. ev_type e \<noteq> STOP_SENDING) evs) = change_times n es \<and>
     fst (qt_loop start 0 [] None evs) = change_sizes n es \<and>
     map ev_time (filter (\<lambda>e. ev_type e = STOP_SENDING) evs) = map call_time (filter is_stop es)"

lemma run_events_step:
  assumes "run_events start n es evs" and "balance evs = int (in_process n (history qt_event es))"
    and "balance (evs @ map (mk_event (call_time e)) ts) = int (in_process n (history qt_event (es @ [e])))"
    and "if is_stop e then ts = [STOP_SENDING] else ts = [] \<or> ts = [SEND_MESSAGE] \<or> ts = [DELIVER_MESSAGE]"
  shows "run_events start n (es @ [e]) (evs @ map (mk_event (call_time e)) ts)"
proof -
  consider "is_stop e" "ts = [STOP_SENDING]" | "\<not> is_stop e" "ts = []" | "\<not> is_stop e" "ts = [SEND_MESSAGE]"
    | "\<not> is_stop e" "ts = [DELIVER_MESSAGE]" using assms(4) by (auto split: if_splits)
  then show ?thesis
    by cases (use assms(1-3) in \<open>auto simp: run_events_def change_snoc qt_loop_snoc balance_def mk_event_def
      event_type_int_def\<close>)
qed

lemma qt_run_events:
  assumes base: "qt.tracks n mchains b []" "qt_events b = Some []" "qt_start_time b = Some start"
    and "\<And>x. x \<in> set (history qt_event es) \<Longrightarrow> event_ok (set mchains) (Suc n) x"
    and "distinct (sent_texts (history qt_event es))"
  shows "\<exists>evs. qt_events (run_calls qt_hook b es) = Some evs \<and>
    qt_start_time (run_calls qt_hook b es) = Some start \<and> run_events start (Suc n) es evs"
  using assms(4,5)
proof (induction es rule: rev_induct)
  case Nil
  show ?case using base(2,3)
    by (simp add: run_events_def change_times_def change_sizes_def process_changes_def)
next
  case (snoc e es)
  let ?s = "run_calls qt_hook b es" and ?s' = "run_calls qt_hook b (es @ [e])"
  have prems: "x \<in> set (history qt_event es) \<Longrightarrow> event_ok (set mchains) (Suc n) x"
    "distinct (sent_texts (history qt_event es))" for x
    using snoc.prems by (auto simp: sent_texts_def)
  from snoc.IH [OF prems] obtain evs where evs: "qt_events ?s = Some evs" "qt_start_time ?s = Some start"
    and IH: "run_events start (Suc n) es evs" by blast
  have tr: "qt.tracks n mchains ?s (history qt_event es)"
    using qt.tracks_run [OF base(1), of es] prems by auto
  have tr': "qt.tracks n mchains ?s' (history qt_event (es @ [e]))"
    using qt.tracks_run [OF base(1), of "es @ [e]"] snoc.prems by auto
  from tr have "qt_valid mchains (Suc n) ?s" by (simp add: qt.tracks_def)
  then obtain ts where ts: "qt_appended (call_time e) ts ?s ?s'"
    "if is_stop e then ts = [STOP_SENDING] else ts = [] \<or> ts = [SEND_MESSAGE] \<or> ts = [DELIVER_MESSAGE]"
    using qt_step_appends [of mchains "Suc n" ?s e] snoc.prems(1) by (auto simp: run_calls_append)
  from ts(1) evs have evs': "qt_events ?s' = Some (evs @ map (mk_event (call_time e)) ts)"
    "qt_start_time ?s' = Some start" by (auto simp: qt_appended_def)
  from run_events_step [OF IH qt_tracks_balance(1) [OF tr prems(2) evs(1)]
      qt_tracks_balance(1) [OF tr' snoc.prems(2) evs'(1)] ts(2)] evs'
  show ?case by blast
qed

text \<open>The report of a run from any freshly started state.\<close>

lemma qt_report:
  assumes "qt.tracks n mchains b []" "qt_events b = Some []" "qt_start_time b = Some start"
    and "\<And>x. x \<in> set (history qt_event es) \<Longrightarrow> event_ok (set mchains) (Suc n) x"
    and "distinct (sent_texts (history qt_event es))"
  shows "qt_get_result (run_calls qt_hook b es) =
      Inr (map (\<lambda>t. t - start) (change_times (Suc n) es), change_sizes (Suc n) es, last_stop start es)"
    and "length (sent_texts (history qt_event es)) \<le> length (change_sizes (Suc n) es)"
proof -
  obtain evs where evs: "qt_events (run_calls qt_hook b es) = Some evs"
    "qt_start_time (run_calls qt_hook b es) = Some start" "run_events start (Suc n) es evs"
    using qt_run_events [OF assms] by blast
  let ?stops = "filter (\<lambda>e. ev_type e = STOP_SENDING) evs"
  have stops: "map ev_time ?stops = map call_time (filter is_stop es)"
    using evs(3) by (simp add: run_events_def)
  have "snd (qt_loop start 0 [] None evs) = last_stop start es"
  proof (cases "filter is_stop es = []")
    case True
    with stops show ?thesis by (simp add: qt_loop_stop last_stop_def)
  next
    case False
    with stops have "?stops \<noteq> []" by auto
    with False stops have "ev_time (last ?stops) = call_time (last (filter is_stop es))" by (metis last_map)
    with False \<open>?stops \<noteq> []\<close> show ?thesis
      by (auto simp: qt_loop_stop last_stop_def split: list.split)
  qed
  moreover have "map (\<lambda>e. ev_time e - start) (filter (\<lambda>e. ev_type e \<noteq> STOP_SENDING) evs) =
      map (\<lambda>t. t - start) (change_times (Suc n) es)"
    using arg_cong [of _ _ "map (\<lambda>t. t - start)", OF conjunct1 [OF evs(3) [unfolded run_events_def]]]
    by (simp add: comp_def)
  ultimately show "qt_get_result (run_calls qt_hook b es) =
      Inr (map (\<lambda>t. t - start) (change_times (Suc n) es), change_sizes (Suc n) es, last_stop start es)"
    using evs by (simp add: qt_get_result_def run_events_def prod_eq_iff split: prod.splits)
  have "length (change_times (Suc n) es) = length (filter (\<lambda>e. ev_type e \<noteq> STOP_SENDING) evs)"
    using evs(3) by (metis run_events_def length_map)
  moreover have "qt.tracks n mchains (run_calls qt_hook b es) (history qt_event es)"
    using qt.tracks_run [OF assms(1), of es] assms(4,5) by auto
  ultimately show "length (sent_texts (history qt_event es)) \<le> length (change_sizes (Suc n) es)"
    using qt_tracks_balance(2) [OF _ assms(5) evs(1)] by (simp add: change_times_def change_sizes_def)
qed

section \<open>Properties\<close>

text \<open>
  C9. The queue report is exact.  After any run of hooks (sends, deliveries and stop marks in any
  order, at any times; duplicate deliveries and deliveries of texts never sent included) \<open>get_result\<close>
  has one entry for every call that changed the number of messages sent but not yet delivered by all
  nodes, in the order of the calls and no other: its time is the time of the call, counted from the
  start of the test, and its queue size that number right after the call.  The stop time is that of
  the last stop mark, and \<open>None\<close> when sending was never stopped.
\<close>

theorem queue_report_correct:
  assumes "0 < n" and "\<And>x. x \<in> set (history qt_event es) \<Longrightarrow> event_ok (set mchains) n x"
    and "distinct (sent_texts (history qt_event es))"
  defines "number \<equiv> \<lambda>k. in_process n (history qt_event (take k es))"
  defines "changes \<equiv> filter (\<lambda>k. number (Suc k) \<noteq> number k) [0..<length es]"
  shows "qt_get_result (qt_run mchains n start es) = Inr
    (map (\<lambda>k. call_time (es ! k) - start) changes,
     map (\<lambda>k. int (number (Suc k))) changes,
     (case filter is_stop es of [] \<Rightarrow> None | stops \<Rightarrow> Some (call_time (last stops) - start)))"
proof -
  obtain k where n: "n = Suc k" using assms(1) by (cases n) auto
  have "qt_events (snd (qt_on_test_start start (qt_init mchains (Suc k)))) = Some []"
    "qt_start_time (snd (qt_on_test_start start (qt_init mchains (Suc k)))) = Some start"
    by (simp_all add: qt_on_test_start_def py_defs)
  from qt_report(1) [OF qt_tracks_start this assms(2) [unfolded n] assms(3)] show ?thesis
    by (simp add: n number_def changes_def change_times_def change_sizes_def process_changes_def process_after_def
        last_stop_def comp_def)
qed

theorem queue_report_correct_witness:
  "qt_get_result (qt_run [7] 2 10 [Hook 11 (Sent 7 [97]), Hook 12 (Sent 7 [98]),
      Hook 13 (Delivered 7 0 [97]), Stop 14, Hook 15 (Delivered 7 1 [97])])
     = Inr ([1, 2, 5], [1, 2, 1], Some 4)"
proof -
  let ?es = "[Hook 11 (Sent 7 [97]), Hook 12 (Sent 7 [98]),
      Hook 13 (Delivered 7 0 [97]), Stop 14, Hook 15 (Delivered 7 1 [97])]"
  have dec: "decodable [97]" "decodable [98]" by code_simp+
  have ok: "x \<in> set (history qt_event ?es) \<Longrightarrow> event_ok (set [7]) 2 x" for x using dec by auto
  have dist: "distinct (sent_texts (history qt_event ?es))" by code_simp
  have changes: "process_changes 2 ?es = [0, 1, 4]"
    unfolding process_changes_def process_after_def in_process_code by code_simp
  have sizes: "map (\<lambda>k. int (process_after 2 ?es (Suc k))) [0, 1, 4] = [1, 2, 1]"
    unfolding process_after_def in_process_code by code_simp
  from queue_report_correct [OF _ ok dist, of 10] show ?thesis
    unfolding process_after_def [symmetric] process_changes_def [symmetric] changes sizes by (simp add: is_stop_def)
qed

text \<open>
  Before \<open>on_test_start\<close> the tester cannot take a call: a delivery of any UTF-8 payload raises
  \<open>TypeError\<close> and a stop mark \<open>AttributeError\<close>, both leaving the state alone; and the report itself
  raises \<open>TypeError\<close>.
\<close>

theorem queue_tester_before_start:
  "qt_get_result (qt_init mchains n) = Inl TypeError \<and>
   qt_on_stop_sending now (qt_init mchains n) = (Inl AttributeError, qt_init mchains n) \<and>
   qt_on_delivery now c i d (qt_init mchains n) =
     (Inl (if decodable d then TypeError else UnicodeDecodeError), qt_init mchains n)"
  by (simp add: qt_get_result_def qt_on_stop_sending_def qt_append_event_def qt_on_delivery_def
      qt_chain_def qt_init_def py_defs py_decode_cases)

end
