(* ===== verification/RedisListener.thy ===== *)
theory RedisListener
  imports Bytes PyStr PyDict
begin

text \<open>
  \<open>RedisListener\<close> of client/redis_listener.py.  \<open>connections\<close> and \<open>handlers\<close> are attributes of the
  class that no instance rebinds, so their state is one record shared by all listeners.  Redis and
  the event loop are the environment: replies arrive at a source at any time, and a round of
  \<open>_listen\<close> runs when \<open>asyncio.wait\<close> returns.  Called without a timeout it returns when all tasks
  are done, and hands them back as a set, in an order the environment chooses.
\<close>

type_synonym 's handler = "int \<Rightarrow> nat \<Rightarrow> byte list \<Rightarrow> ('s, unit) py"
type_synonym redis_address = "string \<times> int"
type_synonym popped = "byte list \<times> byte list"

section \<open>The class attributes\<close>

record 's listener_class =
  rl_connections :: "(nat, redis_address) dict"
  rl_handlers :: "'s handler list"
  rl_deleted :: "(redis_address \<times> int) list"

definition register_handler :: "'s handler \<Rightarrow> ('s listener_class, unit) py" where
  "register_handler h = py_modify (\<lambda>c. c\<lparr>rl_handlers := rl_handlers c @ [h]\<rparr>)"

text \<open>What \<open>aioredis.create_redis\<close> and \<open>connection.delete\<close> raise, if anything.\<close>

record redis_faults =
  on_create :: "redis_address \<Rightarrow> py_exn option"
  on_delete :: "redis_address \<Rightarrow> int \<Rightarrow> py_exn option"

definition create_redis :: "redis_faults \<Rightarrow> nat \<times> redis_address \<Rightarrow> ('s listener_class, unit) py" where
  "create_redis rf ia =
     (case on_create rf (snd ia) of
        Some e \<Rightarrow> py_raise e
      | None \<Rightarrow> py_modify (\<lambda>c. c\<lparr>rl_connections := dict_set (rl_connections c) (fst ia) (snd ia)\<rparr>))"

definition redis_delete :: "redis_faults \<Rightarrow> redis_address \<Rightarrow> int \<Rightarrow> ('s listener_class, unit) py" where
  "redis_delete rf a mchain =
     (case on_delete rf a mchain of
        Some e \<Rightarrow> py_raise e
      | None \<Rightarrow> py_modify (\<lambda>c. c\<lparr>rl_deleted := rl_deleted c @ [(a, mchain)]\<rparr>))"

definition prepare_connections ::
  "redis_faults \<Rightarrow> int list \<Rightarrow> redis_address list \<Rightarrow> ('s listener_class, unit) py"
where
  "prepare_connections rf mchains addresses =
     py_block
       [py_for (enumerate 0 addresses) (create_redis rf),
        py_bind (py_gets (\<lambda>c. map snd (rl_connections c)))
          (\<lambda>cs. py_for cs (\<lambda>a. py_for mchains (redis_delete rf a)))]"

section \<open>The listening loop\<close>

text \<open>
  \<open>ls_inbox i\<close> holds the replies of source \<open>i\<close>'s \<open>blpop\<close> that no round has taken yet: a pair of
  the key and the element.  The application is what the handlers change.
\<close>

record 's listening =
  ls_tasks :: "nat list"
  ls_pending :: "nat list"
  ls_inbox :: "nat \<Rightarrow> popped list"
  ls_app :: 's

definition start_listening :: "'s listener_class \<Rightarrow> 's \<Rightarrow> 's listening" where
  "start_listening c a =
     \<lparr>ls_tasks = dict_keys (rl_connections c), ls_pending = [], ls_inbox = (\<lambda>_. []), ls_app = a\<rparr>"

definition on_app :: "('s, unit) py \<Rightarrow> ('s listening, unit) py" where
  "on_app m s = (case m (ls_app s) of (r, a) \<Rightarrow> (r, s\<lparr>ls_app := a\<rparr>))"

text \<open>
  \<open>int(popped[0].decode())\<close>.  Redis answers with the key it was asked for, the decimal text of
  an mchain; text beyond Latin-1 counts as no number.
\<close>

definition key_mchain :: "byte list \<Rightarrow> int res" where
  "key_mchain key = bind_res (py_decode key) (\<lambda>cs.
     if list_all (\<lambda>c. c < 256) cs then py_int (map char_of cs) else Inl ValueError)"

definition handle_task :: "'s handler list \<Rightarrow> nat \<times> popped \<Rightarrow> ('s listening, unit) py" where
  "handle_task hs t =
     py_bind (py_lift (key_mchain (fst (snd t)))) (\<lambda>mchain.
     py_block
       [py_for hs (\<lambda>h. on_app (h mchain (fst t) (snd (snd t)))),
        py_modify (\<lambda>s. s\<lparr>ls_pending := ls_pending s @ [fst t]\<rparr>)])"

definition wait_returns :: "nat list \<Rightarrow> 's listening \<Rightarrow> bool" where
  "wait_returns order s \<longleftrightarrow>
     distinct order \<and> set order = set (ls_tasks s) \<and> (\<forall>i \<in> set (ls_tasks s). ls_inbox s i \<noteq> [])"

definition asyncio_wait :: "nat list \<Rightarrow> ('s listening, (nat \<times> popped) list) py" where
  "asyncio_wait order s =
     (if ls_tasks s = [] then (Inl ValueError, s)
      else (Inr (map (\<lambda>i. (i, hd (ls_inbox s i))) order),
            s\<lparr>ls_inbox := (\<lambda>i. if i \<in> set (ls_tasks s) then tl (ls_inbox s i) else ls_inbox s i),
              ls_pending := []\<rparr>))"

definition listen_round :: "'s handler list \<Rightarrow> nat list \<Rightarrow> ('s listening, unit) py" where
  "listen_round hs order =
     py_bind (asyncio_wait order) (\<lambda>completed.
     py_block
       [py_for completed (handle_task hs),
        py_modify (\<lambda>s. s\<lparr>ls_tasks := ls_pending s\<rparr>)])"

text \<open>
  The environment's moves: a reply reaches a source, or the loop gets to run.  A round runs only
  when the wait returns; an exception ends the task for good.
\<close>

datatype move = Arrive nat popped | Round "nat list"
datatype 's listener = Running "'s listening" | Stopped py_exn "'s listening"

primrec listener_move :: "'s handler list \<Rightarrow> 's listening \<Rightarrow> move \<Rightarrow> 's listener" where
  "listener_move hs s (Arrive i m) = Running (s\<lparr>ls_inbox := (ls_inbox s)(i := ls_inbox s i @ [m])\<rparr>)"
| "listener_move hs s (Round order) =
     (if wait_returns order s then
        (case listen_round hs order s of
           (Inr _, s') \<Rightarrow> Running s'
         | (Inl e, s') \<Rightarrow> Stopped e s')
      else Running s)"

primrec listener_step :: "'s handler list \<Rightarrow> 's listener \<Rightarrow> move \<Rightarrow> 's listener" where
  "listener_step hs (Running s) mv = listener_move hs s mv"
| "listener_step hs (Stopped e s) mv = Stopped e s"

definition listener_run :: "'s handler list \<Rightarrow> 's listener \<Rightarrow> move list \<Rightarrow> 's listener" where
  "listener_run hs = foldl (listener_step hs)"

section \<open>What the application is told\<close>

text \<open>A delivery: the chain, the source and the payload the handlers are called with.\<close>

type_synonym delivery = "int \<times> nat \<times> byte list"

definition deliver :: "'s handler list \<Rightarrow> delivery \<Rightarrow> ('s, unit) py" where
  "deliver hs d = py_for hs (\<lambda>h. h (fst d) (fst (snd d)) (snd (snd d)))"

definition delivery_of :: "nat \<Rightarrow> popped \<Rightarrow> delivery res" where
  "delivery_of i m = bind_res (key_mchain (fst m)) (\<lambda>c. Inr (c, i, snd m))"

definition arrived :: "nat \<Rightarrow> move list \<Rightarrow> popped list" where
  "arrived i mvs = concat (map (\<lambda>mv. case mv of Arrive j m \<Rightarrow> if j = i then [m] else [] | Round _ \<Rightarrow> []) mvs)"

definition from_source :: "nat \<Rightarrow> delivery list \<Rightarrow> delivery list" where
  "from_source i ds = filter (\<lambda>d. fst (snd d) = i) ds"

lemma arrived_simps [simp]:
  "arrived i [] = []"
  "arrived i (mvs @ [Round order]) = arrived i mvs"
  "arrived i (mvs @ [Arrive j m]) = arrived i mvs @ (if j = i then [m] else [])"
  by (simp_all add: arrived_def)

lemma from_source_simps [simp]:
  "from_source i [] = []"
  "from_source i (ds @ es) = from_source i ds @ from_source i es"
  by (simp_all add: from_source_def)

lemma listener_run_simps [simp]:
  "listener_run hs st [] = st"
  "listener_run hs st (mvs @ [mv]) = listener_step hs (listener_run hs st mvs) mv"
  by (simp_all add: listener_run_def)

lemma key_mchain_int_to_dec [simp]: "key_mchain (py_encode (int_to_dec i)) = Inr i"
proof -
  have "map char_of (str_codes s) = s" for s by (simp add: str_codes_def comp_def)
  then show ?thesis by (simp add: key_mchain_def py_decode_encode str_codes_def list_all_iff)
qed

lemma on_app_handlers:
  "py_for hs (\<lambda>h. on_app (h c i d)) s =
     (case deliver hs (c, i, d) (ls_app s) of (r, a) \<Rightarrow> (r, s\<lparr>ls_app := a\<rparr>))"
  unfolding deliver_def
proof (induction hs arbitrary: s)
  case (Cons h hs)
  then show ?case
    by (cases "h c i d (ls_app s)") (simp add: py_defs on_app_def split: sum.splits prod.splits)
qed (simp add: py_defs)

lemma handle_task_returns:
  "handle_task hs (i, m) s = (Inr x, s') \<longleftrightarrow>
     (\<exists>d a. delivery_of i m = Inr d \<and> deliver hs d (ls_app s) = (Inr (), a) \<and>
        s' = s\<lparr>ls_app := a, ls_pending := ls_pending s @ [i]\<rparr>)"
  by (cases "key_mchain (fst m)"; cases "deliver hs (projr (key_mchain (fst m)), i, snd m) (ls_app s)")
    (auto simp: handle_task_def delivery_of_def on_app_handlers py_defs split: sum.splits)

lemma handle_tasks_return:
  "py_for (map (\<lambda>i. (i, f i)) order) (handle_task hs) s = (Inr x, s') \<Longrightarrow>
     \<exists>ds. map_res (\<lambda>i. delivery_of i (f i)) order = Inr ds \<and> all_return (deliver hs) (ls_app s) ds \<and>
       s' = s\<lparr>ls_app := run_calls (deliver hs) (ls_app s) ds, ls_pending := ls_pending s @ order\<rparr>"
proof (induction order arbitrary: s)
  case (Cons i order)
  from Cons.prems obtain s1 where one: "handle_task hs (i, f i) s = (Inr (), s1)"
    and rest: "py_for (map (\<lambda>i. (i, f i)) order) (handle_task hs) s1 = (Inr x, s')"
    by (auto simp: py_defs split: prod.splits sum.splits)
  from one obtain d a where d: "delivery_of i (f i) = Inr d" "deliver hs d (ls_app s) = (Inr (), a)"
    and s1: "s1 = s\<lparr>ls_app := a, ls_pending := ls_pending s @ [i]\<rparr>"
    by (auto simp: handle_task_returns)
  from Cons.IH [OF rest] obtain ds where
    "map_res (\<lambda>i. delivery_of i (f i)) order = Inr ds" "all_return (deliver hs) a ds"
    "s' = s1\<lparr>ls_app := run_calls (deliver hs) a ds, ls_pending := ls_pending s1 @ order\<rparr>"
    by (auto simp: s1)
  with d s1 show ?case by (intro exI [of _ "d # ds"]) simp
qed (simp add: py_defs)

section \<open>Lockstep\<close>

definition in_lockstep ::
  "'s handler list \<Rightarrow> nat list \<Rightarrow> 's \<Rightarrow> move list \<Rightarrow> 's listening \<Rightarrow> nat \<Rightarrow> delivery list \<Rightarrow> bool"
where
  "in_lockstep hs sources a mvs s k ds \<longleftrightarrow>
     distinct (ls_tasks s) \<and> set (ls_tasks s) = set sources \<and>
     all_return (deliver hs) a ds \<and> ls_app s = run_calls (deliver hs) a ds \<and>
     (\<forall>d \<in> set ds. fst (snd d) \<in> set sources) \<and>
     (\<forall>i \<in> set sources. k \<le> length (arrived i mvs) \<and> ls_inbox s i = drop k (arrived i mvs) \<and>
        map_res (delivery_of i) (take k (arrived i mvs)) = Inr (from_source i ds))"

lemma map_res_append_Inr:
  "map_res f xs = Inr ys \<Longrightarrow> map_res f zs = Inr ws \<Longrightarrow> map_res f (xs @ zs) = Inr (ys @ ws)"
  by (induction xs arbitrary: ys) (auto simp: bind_res_eq_Inr)

lemma delivery_of_source: "delivery_of i m = Inr d \<Longrightarrow> fst (snd d) = i"
  by (auto simp: delivery_of_def bind_res_eq_Inr)

lemma round_sources:
  assumes "map_res (\<lambda>i. delivery_of i (f i)) order = Inr ds"
  shows "\<forall>d \<in> set ds. fst (snd d) \<in> set order"
    and "distinct order \<Longrightarrow> i \<in> set order \<Longrightarrow> map_res (delivery_of i) [f i] = Inr (from_source i ds)"
proof -
  show "\<forall>d \<in> set ds. fst (snd d) \<in> set order" using assms
  proof (induction order arbitrary: ds)
    case (Cons i order)
    then obtain d es where "delivery_of i (f i) = Inr d" "ds = d # es"
      and "map_res (\<lambda>i. delivery_of i (f i)) order = Inr es" by (auto simp: bind_res_eq_Inr)
    with Cons.IH [of es] delivery_of_source show ?case by simp
  qed simp
  have other: "i \<notin> set order \<Longrightarrow> map_res (\<lambda>i. delivery_of i (f i)) order = Inr ds \<Longrightarrow>
      from_source i ds = []" for i order ds
    by (induction order arbitrary: ds)
      (auto simp: bind_res_eq_Inr from_source_def dest: delivery_of_source)
  show "distinct order \<Longrightarrow> i \<in> set order \<Longrightarrow> map_res (delivery_of i) [f i] = Inr (from_source i ds)"
    using assms
  proof (induction order arbitrary: ds)
    case (Cons j order)
    from Cons.prems(3) obtain d es where d: "delivery_of j (f j) = Inr d"
      and es: "map_res (\<lambda>i. delivery_of i (f i)) order = Inr es" and ds: "ds = d # es"
      by (auto simp: bind_res_eq_Inr)
    show ?case
    proof (cases "i = j")
      case True
      with d es ds Cons.prems(1) other [of i order es] delivery_of_source [OF d] show ?thesis
        by (simp add: from_source_def)
    next
      case False
      with Cons.IH [of es] Cons.prems es ds delivery_of_source [OF d] show ?thesis
        by (simp add: from_source_def)
    qed
  qed simp
qed

lemma wait_returns_perm: "wait_returns order s \<Longrightarrow> ls_tasks s \<noteq> [] \<Longrightarrow>
  asyncio_wait order s = (Inr (map (\<lambda>i. (i, hd (ls_inbox s i))) order),
    s\<lparr>ls_inbox := (\<lambda>i. if i \<in> set order then tl (ls_inbox s i) else ls_inbox s i), ls_pending := []\<rparr>)"
  by (auto simp: asyncio_wait_def wait_returns_def)

lemma listen_round_returns:
  assumes ret: "listen_round hs order s = (Inr x, s')" and w: "wait_returns order s"
  shows "\<exists>ds. map_res (\<lambda>i. delivery_of i (hd (ls_inbox s i))) order = Inr ds \<and>
    all_return (deliver hs) (ls_app s) ds \<and>
    s' = s\<lparr>ls_app := run_calls (deliver hs) (ls_app s) ds, ls_pending := order, ls_tasks := order,
      ls_inbox := (\<lambda>i. if i \<in> set order then tl (ls_inbox s i) else ls_inbox s i)\<rparr>"
proof -
  have tasks: "ls_tasks s \<noteq> []" using ret by (auto simp: listen_round_def asyncio_wait_def py_defs)
  let ?s0 = "s\<lparr>ls_inbox := (\<lambda>i. if i \<in> set order then tl (ls_inbox s i) else ls_inbox s i),
    ls_pending := []\<rparr>"
  from ret obtain s1 where
    loop: "py_for (map (\<lambda>i. (i, hd (ls_inbox s i))) order) (handle_task hs) ?s0 = (Inr (), s1)"
    and s': "s' = s1\<lparr>ls_tasks := ls_pending s1\<rparr>"
    by (auto simp: listen_round_def wait_returns_perm [OF w tasks] py_defs split: prod.splits sum.splits)
  show ?thesis using handle_tasks_return [OF loop] s' by auto
qed

lemma lockstep_round:
  assumes inv: "in_lockstep hs sources a mvs s k ds" and w: "wait_returns order s"
    and ret: "listen_round hs order s = (Inr x, s')"
  shows "\<exists>ds'. in_lockstep hs sources a (mvs @ [Round order]) s' (Suc k) ds'"
proof -
  from listen_round_returns [OF ret w] obtain es where
    es: "map_res (\<lambda>i. delivery_of i (hd (ls_inbox s i))) order = Inr es"
    and all: "all_return (deliver hs) (ls_app s) es"
    and s': "s' = s\<lparr>ls_app := run_calls (deliver hs) (ls_app s) es, ls_pending := order,
      ls_tasks := order,
      ls_inbox := (\<lambda>i. if i \<in> set order then tl (ls_inbox s i) else ls_inbox s i)\<rparr>" by blast
  from inv w have order: "set order = set sources" "distinct order"
    and ready: "\<And>i. i \<in> set sources \<Longrightarrow> ls_inbox s i \<noteq> []"
    by (auto simp: in_lockstep_def wait_returns_def)
  have append: "all_return (deliver hs) a ds \<Longrightarrow> all_return (deliver hs) (run_calls (deliver hs) a ds) es \<Longrightarrow>
      all_return (deliver hs) a (ds @ es)" for a
    by (induction ds arbitrary: a) auto
  have "Suc k \<le> length (arrived i mvs) \<and> tl (ls_inbox s i) = drop (Suc k) (arrived i mvs) \<and>
      map_res (delivery_of i) (take (Suc k) (arrived i mvs)) = Inr (from_source i (ds @ es))"
    if i: "i \<in> set sources" for i
  proof -
    from inv i have inbox: "ls_inbox s i = drop k (arrived i mvs)"
      and seen: "map_res (delivery_of i) (take k (arrived i mvs)) = Inr (from_source i ds)"
      by (auto simp: in_lockstep_def)
    with ready [OF i] have less: "k < length (arrived i mvs)" by simp
    moreover have "map_res (delivery_of i) [hd (ls_inbox s i)] = Inr (from_source i es)"
      using round_sources(2) [OF es] order i by simp
    ultimately show ?thesis
      using map_res_append_Inr [OF seen] inbox
      by (simp add: take_Suc_conv_app_nth hd_drop_conv_nth drop_Suc tl_drop)
  qed
  with inv all order append round_sources(1) [OF es]
  have "in_lockstep hs sources a (mvs @ [Round order]) s' (Suc k) (ds @ es)"
    by (auto simp: in_lockstep_def s' run_calls_append)
  then show ?thesis by blast
qed

lemma lockstep_start:
  "wf_dict (rl_connections c) \<Longrightarrow>
     in_lockstep hs (dict_keys (rl_connections c)) a [] (start_listening c a) 0 []"
  by (simp add: in_lockstep_def start_listening_def wf_dict_def dict_keys_def)

text \<open>
  The turns of the loop that get through: those that come when every source has more replies than
  there have been such turns before.
\<close>

primrec turns_rev :: "nat list \<Rightarrow> move list \<Rightarrow> nat" where
  "turns_rev sources [] = 0"
| "turns_rev sources (mv # mvs) =
     (let k = turns_rev sources mvs in
      case mv of
        Arrive i m \<Rightarrow> k
      | Round order \<Rightarrow>
          if distinct order \<and> set order = set sources \<and> (\<forall>i \<in> set sources. k < length (arrived i (rev mvs)))
          then Suc k else k)"

definition turns :: "nat list \<Rightarrow> move list \<Rightarrow> nat" where
  "turns sources mvs = turns_rev sources (rev mvs)"

lemma turns_snoc:
  "turns sources [] = 0"
  "turns sources (mvs @ [Arrive i m]) = turns sources mvs"
  "turns sources (mvs @ [Round order]) =
     (if distinct order \<and> set order = set sources \<and> (\<forall>i \<in> set sources. turns sources mvs < length (arrived i mvs))
      then Suc (turns sources mvs) else turns sources mvs)"
  by (simp_all add: turns_def Let_def)

lemma lockstep_waits:
  assumes "in_lockstep hs sources a mvs s k ds"
  shows "wait_returns order s \<longleftrightarrow>
    distinct order \<and> set order = set sources \<and> (\<forall>i \<in> set sources. k < length (arrived i mvs))"
  using assms by (auto simp: wait_returns_def in_lockstep_def)

lemma lockstep_move:
  assumes "in_lockstep hs sources a mvs s (turns sources mvs) ds" and "listener_move hs s mv = Running s'"
  shows "\<exists>ds'. in_lockstep hs sources a (mvs @ [mv]) s' (turns sources (mvs @ [mv])) ds'"
proof (cases mv)
  case (Arrive i m)
  with assms have "in_lockstep hs sources a (mvs @ [mv]) s' (turns sources (mvs @ [mv])) ds"
    by (auto simp: in_lockstep_def turns_snoc)
  then show ?thesis by blast
next
  case (Round order)
  show ?thesis
  proof (cases "wait_returns order s")
    case True
    then have "listen_round hs order s = (Inr (), s')"
      using assms(2) Round by (auto split: prod.splits sum.splits)
    from lockstep_round [OF assms(1) True this] True [unfolded lockstep_waits [OF assms(1)]] Round
    show ?thesis by (simp add: turns_snoc)
  next
    case False
    then have "turns sources (mvs @ [mv]) = turns sources mvs"
      using lockstep_waits [OF assms(1), of order] Round by (simp add: turns_snoc del: not_all)
    with assms Round False have "in_lockstep hs sources a (mvs @ [mv]) s' (turns sources (mvs @ [mv])) ds"
      by (auto simp: in_lockstep_def)
    then show ?thesis by blast
  qed
qed

lemma lockstep_run:
  assumes "wf_dict (rl_connections c)"
    and "listener_run hs (Running (start_listening c a)) mvs = Running s"
  shows "\<exists>ds. in_lockstep hs (dict_keys (rl_connections c)) a mvs s (turns (dict_keys (rl_connections c)) mvs) ds"
  using assms(2)
proof (induction mvs arbitrary: s rule: rev_induct)
  case Nil
  then show ?case using lockstep_start [OF assms(1)] by (fastforce simp: turns_snoc)
next
  case (snoc mv mvs)
  then obtain s0 where "listener_run hs (Running (start_listening c a)) mvs = Running s0"
    and "listener_move hs s0 mv = Running s"
    by (cases "listener_run hs (Running (start_listening c a)) mvs") auto
  with snoc.IH obtain ds where
    "in_lockstep hs (dict_keys (rl_connections c)) a mvs s0 (turns (dict_keys (rl_connections c)) mvs) ds"
    by blast
  then show ?case using \<open>listener_move hs s0 mv = Running s\<close> by (rule lockstep_move)
qed

section \<open>Progress\<close>

lemma tasks_progress:
  assumes "\<And>d b. fst (deliver hs d b) = Inr ()"
    and "\<And>i. i \<in> set order \<Longrightarrow> \<exists>c. key_mchain (fst (f i)) = Inr c"
  shows "\<exists>s'. py_for (map (\<lambda>i. (i, f i)) order) (handle_task hs) s = (Inr (), s')"
  using assms(2)
proof (induction order arbitrary: s)
  case (Cons i order)
  obtain d where "delivery_of i (f i) = Inr d"
    using Cons.prems [of i] by (auto simp: delivery_of_def)
  moreover obtain b where "deliver hs d (ls_app s) = (Inr (), b)"
    by (metis assms(1) prod.collapse)
  ultimately have "handle_task hs (i, f i) s = (Inr (), s\<lparr>ls_app := b, ls_pending := ls_pending s @ [i]\<rparr>)"
    by (simp add: handle_task_returns)
  moreover obtain s' where
    "py_for (map (\<lambda>i. (i, f i)) order) (handle_task hs)
       (s\<lparr>ls_app := b, ls_pending := ls_pending s @ [i]\<rparr>) = (Inr (), s')"
    using Cons.IH [OF Cons.prems] by fastforce
  ultimately show ?case by (simp add: py_bind_def)
qed (simp add: py_defs)

lemma round_progress:
  assumes "wait_returns order s" "ls_tasks s \<noteq> []" "\<And>d b. fst (deliver hs d b) = Inr ()"
    and "\<And>i. i \<in> set (ls_tasks s) \<Longrightarrow> \<exists>c. key_mchain (fst (hd (ls_inbox s i))) = Inr c"
  shows "\<exists>s'. listen_round hs order s = (Inr (), s')"
proof -
  let ?s0 = "s\<lparr>ls_inbox := (\<lambda>i. if i \<in> set order then tl (ls_inbox s i) else ls_inbox s i),
    ls_pending := []\<rparr>"
  have "\<And>i. i \<in> set order \<Longrightarrow> \<exists>c. key_mchain (fst (hd (ls_inbox s i))) = Inr c"
    using assms(1,4) by (auto simp: wait_returns_def)
  from tasks_progress [where f = "\<lambda>i. hd (ls_inbox s i)" and order = order and s = ?s0, OF assms(3) this]
  obtain s' where "py_for (map (\<lambda>i. (i, hd (ls_inbox s i))) order) (handle_task hs) ?s0 = (Inr (), s')"
    by blast
  then show ?thesis by (simp add: listen_round_def wait_returns_perm [OF assms(1,2)] py_defs)
qed

lemma arrivals_lockstep:
  assumes "wf_dict (rl_connections c)" and "list_all (\<lambda>mv. \<exists>i m. mv = Arrive i m) mvs"
  shows "\<exists>s. listener_run hs (Running (start_listening c a)) mvs = Running s \<and>
    in_lockstep hs (dict_keys (rl_connections c)) a mvs s 0 []"
  using assms(2)
proof (induction mvs rule: rev_induct)
  case Nil
  then show ?case using lockstep_start [OF assms(1)] by simp
next
  case (snoc mv mvs)
  then obtain s i m where "listener_run hs (Running (start_listening c a)) mvs = Running s"
    and "in_lockstep hs (dict_keys (rl_connections c)) a mvs s 0 []" and "mv = Arrive i m"
    by auto
  then show ?case by (auto simp: in_lockstep_def)
qed

lemma rounds_progress:
  assumes lock: "in_lockstep hs sources a mvs s k ds" and src: "distinct sources" "sources \<noteq> []"
    and total: "\<And>d b. fst (deliver hs d b) = Inr ()"
    and keys: "\<And>i m. i \<in> set sources \<Longrightarrow> m \<in> set (arrived i mvs) \<Longrightarrow> \<exists>c. key_mchain (fst m) = Inr c"
    and enough: "\<And>i. i \<in> set sources \<Longrightarrow> k + n \<le> length (arrived i mvs)"
  shows "\<exists>s' ds'. listener_run hs (Running s) (replicate n (Round sources)) = Running s' \<and>
    in_lockstep hs sources a mvs s' (k + n) ds'"
  using lock enough
proof (induction n arbitrary: s k ds)
  case 0
  then show ?case by auto
next
  case (Suc n)
  have less: "k < length (arrived i mvs)" if "i \<in> set sources" for i
    using Suc.prems(2) [OF that] by linarith
  have inbox: "ls_inbox s i = drop k (arrived i mvs)" if "i \<in> set sources" for i
    using Suc.prems(1) that by (simp add: in_lockstep_def)
  have tasks: "set (ls_tasks s) = set sources" using Suc.prems(1) by (simp add: in_lockstep_def)
  have wait: "wait_returns sources s"
    using src less inbox by (auto simp: wait_returns_def tasks not_le)
  have "\<exists>c. key_mchain (fst (hd (ls_inbox s i))) = Inr c" if i: "i \<in> set (ls_tasks s)" for i
    using less inbox keys [of i "arrived i mvs ! k"] i tasks by (simp add: hd_drop_conv_nth)
  moreover have "ls_tasks s \<noteq> []" using tasks src by force
  ultimately obtain s1 where s1: "listen_round hs sources s = (Inr (), s1)"
    using round_progress [OF wait _ total] by blast
  from lockstep_round [OF Suc.prems(1) wait s1] obtain ds1 where
    "in_lockstep hs sources a (mvs @ [Round sources]) s1 (Suc k) ds1" by blast
  then have "in_lockstep hs sources a mvs s1 (Suc k) ds1" by (simp add: in_lockstep_def)
  from Suc.IH [OF this] Suc.prems(2) obtain s' ds' where
    "listener_run hs (Running s1) (replicate n (Round sources)) = Running s'"
    "in_lockstep hs sources a mvs s' (Suc k + n) ds'" by auto
  with s1 wait show ?case by (auto simp: listener_run_def)
qed

section \<open>Preparing connections\<close>

definition no_faults :: "redis_faults \<Rightarrow> bool" where
  "no_faults rf \<longleftrightarrow> (\<forall>a. on_create rf a = None) \<and> (\<forall>a m. on_delete rf a m = None)"

lemma create_loop:
  "(\<And>a. on_create rf a = None) \<Longrightarrow> py_for ias (create_redis rf) c =
     (Inr (), c\<lparr>rl_connections := dict_update (rl_connections c) ias\<rparr>)"
  by (induction ias arbitrary: c) (simp_all add: py_defs create_redis_def dict_update_def case_prod_beta)

lemma delete_loop:
  "(\<And>a m. on_delete rf a m = None) \<Longrightarrow> py_for as (\<lambda>a. py_for ms (redis_delete rf a)) c =
     (Inr (), c\<lparr>rl_deleted := rl_deleted c @ concat (map (\<lambda>a. map (Pair a) ms) as)\<rparr>)"
proof (induction as arbitrary: c)
  case (Cons a as)
  have one: "py_for ms (redis_delete rf a) c =
      (Inr (), c\<lparr>rl_deleted := rl_deleted c @ map (Pair a) ms\<rparr>)" for c :: "'a listener_class"
    using Cons.prems by (induction ms arbitrary: c) (simp_all add: py_defs redis_delete_def)
  show ?case using Cons.IH [OF Cons.prems] by (simp add: py_defs one)
qed (simp add: py_defs)

lemma prepare_connections_eq:
  assumes "no_faults rf"
  shows "prepare_connections rf mchains addresses c =
    (let cs = dict_update (rl_connections c) (enumerate 0 addresses) in
     (Inr (), c\<lparr>rl_connections := cs,
        rl_deleted := rl_deleted c @ concat (map (\<lambda>a. map (Pair a) mchains) (map snd cs))\<rparr>))"
proof -
  have create: "\<And>a. on_create rf a = None" and delete: "\<And>a m. on_delete rf a m = None"
    using assms unfolding no_faults_def by blast+
  show ?thesis
    by (simp add: prepare_connections_def py_bind_def py_gets_def py_return_def Let_def
        create_loop [OF create] delete_loop [OF delete])
qed

lemma map_of_enumerate: "map_of (rev (enumerate 0 xs)) i = (if i < length xs then Some (xs ! i) else None)"
  by (induction xs rule: rev_induct) (auto simp: enumerate_append_eq nth_append)

lemma dict_update_enumerate:
  "wf_dict d \<Longrightarrow> dict_get (dict_update d (enumerate 0 xs)) i =
     (if i < length xs then Some (xs ! i) else dict_get d i)"
  by (simp add: dict_get_def map_of_dict_update map_add_def map_of_enumerate)

section \<open>Properties\<close>

text \<open>A handler that writes down what it is told, and two sources to try the loop on.\<close>

definition note_delivery :: "delivery list handler" where
  "note_delivery mchain i d = py_modify (\<lambda>l. l @ [(mchain, i, d)])"

definition two_sources :: "delivery list listener_class" where
  "two_sources = \<lparr>rl_connections = [(0, (''a'', 1)), (1, (''b'', 1))],
     rl_handlers = [note_delivery], rl_deleted = []\<rparr>"

definition sample_moves :: "move list" where
  "sample_moves = [Arrive 0 (py_encode ''5'', [1]), Round [0, 1], Arrive 0 (py_encode ''5'', [2]),
     Arrive 1 (py_encode ''5'', [3])]"

lemma key_5: "key_mchain (py_encode ''5'') = Inr 5"
  by code_simp

lemma sample_start:
  "listener_run [note_delivery] (Running (start_listening two_sources [])) sample_moves =
     Running \<lparr>ls_tasks = [0, 1], ls_pending = [],
       ls_inbox = (\<lambda>_. [])(0 := [(py_encode ''5'', [1]), (py_encode ''5'', [2])],
                        1 := [(py_encode ''5'', [3])]), ls_app = []\<rparr>"
  by (simp add: sample_moves_def listener_run_def start_listening_def two_sources_def dict_keys_def
      wait_returns_def fun_upd_twist)

lemma sample_round:
  "\<exists>s. listener_run [note_delivery] (Running (start_listening two_sources []))
      (sample_moves @ [Round [1, 0]]) = Running s \<and> ls_app s = [(5, 1, [3]), (5, 0, [1])]"
  unfolding listener_run_simps sample_start listener_step.simps listener_move.simps
  by (simp add: wait_returns_def listen_round_def asyncio_wait_def handle_task_def on_app_def
      note_delivery_def key_5 py_defs insert_commute)

text \<open>
  C10. The listener runs in lockstep.  Whatever arrives and in whatever order rounds run and return
  their completed tasks, as long as no handler has raised the application has been told, for one
  number \<open>k\<close> common to all connected sources, exactly the first \<open>k\<close> replies of each source: in the
  source's order, none lost, none repeated, each with the chain its key names; and nothing else.
\<close>

theorem listener_lockstep:
  assumes "wf_dict (rl_connections c)"
    and "listener_run hs (Running (start_listening c a)) mvs = Running s"
  shows "\<exists>k ds. ls_app s = run_calls (deliver hs) a ds \<and> all_return (deliver hs) a ds \<and>
    (\<forall>d \<in> set ds. fst (snd d) \<in> set (dict_keys (rl_connections c))) \<and>
    (\<forall>i \<in> set (dict_keys (rl_connections c)). k \<le> length (arrived i mvs) \<and>
       map_res (delivery_of i) (take k (arrived i mvs)) = Inr (from_source i ds))"
proof -
  from lockstep_run [OF assms] obtain k ds where
    "in_lockstep hs (dict_keys (rl_connections c)) a mvs s k ds" by blast
  then show ?thesis unfolding in_lockstep_def by blast
qed

theorem listener_lockstep_witness:
  "\<exists>s k ds. listener_run [note_delivery] (Running (start_listening two_sources []))
      (sample_moves @ [Round [1, 0]]) = Running s \<and> ls_app s = [(5, 1, [3]), (5, 0, [1])] \<and>
    ls_app s = run_calls (deliver [note_delivery]) [] ds \<and>
    map_res (delivery_of 0) (take k (arrived 0 (sample_moves @ [Round [1, 0]]))) = Inr (from_source 0 ds) \<and>
    map_res (delivery_of 1) (take k (arrived 1 (sample_moves @ [Round [1, 0]]))) = Inr (from_source 1 ds)"
proof -
  have wf: "wf_dict (rl_connections two_sources)" by (simp add: two_sources_def wf_dict_def)
  have keys: "set (dict_keys (rl_connections two_sources)) = {0, 1}"
    by (simp add: two_sources_def dict_keys_def)
  obtain s where s: "listener_run [note_delivery] (Running (start_listening two_sources []))
      (sample_moves @ [Round [1, 0]]) = Running s" and app: "ls_app s = [(5, 1, [3]), (5, 0, [1])]"
    using sample_round by blast
  from listener_lockstep [OF wf s] keys s app show ?thesis by auto
qed

text \<open>
  C11. The listener makes progress when every source does: once every connected source has \<open>n\<close> replies
  with keys that name a chain, and the handlers do not raise, \<open>n\<close> turns of the loop deliver the first
  \<open>n\<close> replies of every source.
\<close>

theorem listener_progress:
  assumes "wf_dict (rl_connections c)" and "rl_connections c \<noteq> []"
    and "\<And>d b. fst (deliver hs d b) = Inr ()"
    and "list_all (\<lambda>mv. \<exists>i m. mv = Arrive i m) mvs"
    and "\<And>i m. i \<in> set (dict_keys (rl_connections c)) \<Longrightarrow> m \<in> set (arrived i mvs) \<Longrightarrow>
          \<exists>mchain. key_mchain (fst m) = Inr mchain"
    and "\<And>i. i \<in> set (dict_keys (rl_connections c)) \<Longrightarrow> n \<le> length (arrived i mvs)"
  shows "\<exists>s ds. listener_run hs (Running (start_listening c a))
        (mvs @ replicate n (Round (dict_keys (rl_connections c)))) = Running s \<and>
      ls_app s = run_calls (deliver hs) a ds \<and>
      (\<forall>i \<in> set (dict_keys (rl_connections c)).
         map_res (delivery_of i) (take n (arrived i mvs)) = Inr (from_source i ds))"
proof -
  have src: "distinct (dict_keys (rl_connections c))" "dict_keys (rl_connections c) \<noteq> []"
    using assms(1,2) by (simp_all add: wf_dict_def dict_keys_def)
  from arrivals_lockstep [OF assms(1,4)] obtain s where
    s: "listener_run hs (Running (start_listening c a)) mvs = Running s"
    and lock: "in_lockstep hs (dict_keys (rl_connections c)) a mvs s 0 []" by blast
  have "\<exists>s' ds. listener_run hs (Running s) (replicate n (Round (dict_keys (rl_connections c)))) = Running s' \<and>
      in_lockstep hs (dict_keys (rl_connections c)) a mvs s' (0 + n) ds"
    by (rule rounds_progress [OF lock src]) (rule assms(3), erule (1) assms(5), simp add: assms(6))
  then obtain s' ds where
    "listener_run hs (Running s) (replicate n (Round (dict_keys (rl_connections c)))) = Running s'"
    "in_lockstep hs (dict_keys (rl_connections c)) a mvs s' n ds" by auto
  with s show ?thesis unfolding in_lockstep_def listener_run_def by auto
qed

theorem listener_progress_witness:
  "\<exists>s ds. listener_run [note_delivery] (Running (start_listening two_sources []))
     ([Arrive 1 (py_encode ''5'', [3]), Arrive 0 (py_encode ''5'', [1])] @ replicate 1 (Round [0, 1])) = Running s \<and>
   ls_app s = run_calls (deliver [note_delivery]) [] ds \<and> [(5, 1, [3])] = from_source 1 ds"
proof -
  let ?mvs = "[Arrive 1 (py_encode ''5'', [3]), Arrive 0 (py_encode ''5'', [1])]"
  have keys: "dict_keys (rl_connections two_sources) = [0, 1]"
    by (simp add: two_sources_def dict_keys_def)
  have "\<exists>s ds. listener_run [note_delivery] (Running (start_listening two_sources []))
        (?mvs @ replicate 1 (Round (dict_keys (rl_connections two_sources)))) = Running s \<and>
      ls_app s = run_calls (deliver [note_delivery]) [] ds \<and>
      (\<forall>i \<in> set (dict_keys (rl_connections two_sources)).
         map_res (delivery_of i) (take 1 (arrived i ?mvs)) = Inr (from_source i ds))"
    by (rule listener_progress)
      (auto simp: two_sources_def wf_dict_def dict_keys_def deliver_def note_delivery_def py_defs
        arrived_def key_5)
  then show ?thesis by (auto simp: keys arrived_def delivery_of_def key_5)
qed

text \<open>
  One silent node silences all of them: while a single connected source has sent nothing, the
  listener hands nothing to the application, whatever the other sources send and however often the
  loop runs; their replies stay where they are.
\<close>

theorem silent_node_blocks_listener:
  assumes "j \<in> set (dict_keys (rl_connections c))" and "arrived j mvs = []"
  shows "\<exists>s. listener_run hs (Running (start_listening c a)) mvs = Running s \<and> ls_app s = a \<and>
    ls_inbox s = (\<lambda>i. arrived i mvs) \<and> ls_tasks s = dict_keys (rl_connections c)"
  using assms(2)
proof (induction mvs rule: rev_induct)
  case Nil
  then show ?case by (simp add: start_listening_def)
next
  case (snoc mv mvs)
  then have "arrived j mvs = []" by (simp add: arrived_def)
  with snoc.IH obtain s where s: "listener_run hs (Running (start_listening c a)) mvs = Running s"
    "ls_app s = a" "ls_inbox s = (\<lambda>i. arrived i mvs)" "ls_tasks s = dict_keys (rl_connections c)"
    by blast
  show ?case
  proof (cases mv)
    case (Arrive i m)
    with s show ?thesis by (auto simp: fun_eq_iff)
  next
    case (Round order)
    have "\<not> wait_returns order s" using s assms(1) \<open>arrived j mvs = []\<close> by (auto simp: wait_returns_def)
    with s Round show ?thesis by simp
  qed
qed

theorem silent_node_blocks_listener_witness:
  "\<exists>s. listener_run [note_delivery] (Running (start_listening two_sources []))
     [Arrive 0 (py_encode ''5'', [1]), Round [0, 1], Arrive 0 (py_encode ''5'', [2]), Round [0, 1]] =
     Running s \<and> ls_app s = []"
  using silent_node_blocks_listener [of 1 two_sources
      "[Arrive 0 (py_encode ''5'', [1]), Round [0, 1], Arrive 0 (py_encode ''5'', [2]), Round [0, 1]]"
      "[note_delivery]" "[]"]
  by (auto simp: two_sources_def dict_keys_def arrived_def)

text \<open>
  C14. Listeners are not independent.  When a second listener of the process prepares its connections,
  the class still holds those of the first: source \<open>i\<close> is the second one's \<open>i\<close>-th address as far as
  it has one and the first one's beyond, and its chains are deleted on the first one's servers too.
\<close>

theorem listeners_share_connections:
  assumes "no_faults rf" and "rl_connections c = []"
  shows "\<exists>c'. py_block [prepare_connections rf mchains addresses,
        prepare_connections rf mchains' addresses'] c = (Inr (), c') \<and>
    dict_get (rl_connections c') i =
      (if i < length addresses' then Some (addresses' ! i)
       else if i < length addresses then Some (addresses ! i) else None) \<and>
    (\<forall>m \<in> set mchains'. \<forall>a \<in> set (drop (length addresses') addresses). (a, m) \<in> set (rl_deleted c'))"
proof -
  let ?d1 = "dict_update [] (enumerate 0 addresses)"
  let ?d2 = "dict_update ?d1 (enumerate 0 addresses')"
  have wf: "wf_dict ?d1" by (rule wf_dict_update) (simp add: wf_dict_def)
  have wf2: "wf_dict ?d2" by (rule wf_dict_update [OF wf])
  have get: "dict_get ?d2 i = (if i < length addresses' then Some (addresses' ! i)
      else if i < length addresses then Some (addresses ! i) else None)" for i
    using dict_update_enumerate [OF wf] dict_update_enumerate [of "[]" addresses]
    by (simp add: wf_dict_def dict_get_def)
  have "a \<in> snd ` set ?d2" if "a \<in> set (drop (length addresses') addresses)" for a
  proof -
    from that obtain n where "n < length addresses - length addresses'"
      "a = addresses ! (length addresses' + n)" by (auto simp: in_set_conv_nth)
    then have "dict_get ?d2 (length addresses' + n) = Some a" by (simp add: get)
    then show ?thesis unfolding dict_get_def by (force dest: map_of_SomeD)
  qed
  then show ?thesis using get [of i] assms(2)
    by (auto simp: py_bind_def py_return_def Let_def prepare_connections_eq [OF assms(1)] image_iff)
qed

theorem listeners_share_connections_witness:
  "\<exists>c'. py_block [prepare_connections \<lparr>on_create = (\<lambda>_. None), on_delete = (\<lambda>_ _. None)\<rparr> [5] [(''a'', 1), (''b'', 1)],
      prepare_connections \<lparr>on_create = (\<lambda>_. None), on_delete = (\<lambda>_ _. None)\<rparr> [6] [(''c'', 1)]]
      (two_sources\<lparr>rl_connections := []\<rparr>) = (Inr (), c') \<and>
    dict_get (rl_connections c') 1 = Some (''b'', 1)"
  using listeners_share_connections [of "\<lparr>on_create = (\<lambda>_. None), on_delete = (\<lambda>_ _. None)\<rparr>"
      "two_sources\<lparr>rl_connections := []\<rparr>" "[5]" "[(''a'', 1), (''b'', 1)]" "[6]" "[(''c'', 1)]" 1]
  by (auto simp: no_faults_def)

end
