(* ===== verification/Tester.thy ===== *)
theory Tester
  imports Generator UdpClient QueueSize
begin

text \<open>
  \<open>Tester\<close> of client/tester.py: the paced sending loop, the wait for completion and the delivery
  callback.  The subclass is a record of hooks over its own attributes, the client is any
  \<open>send\<close>.  The environment decides how much time passes before each reading of \<open>perf_counter\<close> and
  which deliveries run while the coroutine sleeps; nothing else runs between two awaits.
  Floating-point numbers are rationals.  The two \<open>while\<close> loops take fuel; running out of it means
  that \<open>test\<close> has not returned yet.
\<close>

section \<open>Hooks, environment, state\<close>

text \<open>Every hook may read the clock, so it is given a reading.\<close>

record 't hooks =
  on_test_start :: "time \<Rightarrow> ('t, unit) py"
  on_send :: "time \<Rightarrow> int \<Rightarrow> byte list \<Rightarrow> ('t, unit) py"
  on_delivery :: "time \<Rightarrow> int \<Rightarrow> nat \<Rightarrow> byte list \<Rightarrow> ('t, unit) py"
  on_stop_sending :: "time \<Rightarrow> ('t, unit) py"

definition base_hooks :: "'t hooks" where
  "base_hooks = \<lparr>on_test_start = (\<lambda>_. py_return ()), on_send = (\<lambda>_ _ _. py_return ()),
     on_delivery = (\<lambda>_ _ _ _. py_return ()), on_stop_sending = (\<lambda>_. py_return ())\<rparr>"

type_synonym arrival = "int \<times> nat \<times> byte list"

text \<open>
  \<open>env_lag n\<close> is the time that passes before the \<open>n\<close>-th reading of the clock, \<open>env_arrivals n\<close> what
  the listener delivers during the \<open>n\<close>-th sleep.
\<close>

record test_env =
  env_lag :: "nat \<Rightarrow> time"
  env_arrivals :: "nat \<Rightarrow> arrival list"

record ('t, 'c) tester =
  ts_mchains :: "int list"
  ts_client :: 'c
  ts_generator :: gen
  ts_last_delivery_time :: time
  ts_listening :: bool
  ts_self :: 't
  ts_clock :: time
  ts_readings :: nat
  ts_sleeps :: nat

text \<open>The local variables of \<open>test\<close>; \<open>current_time\<close> has no value before the first message.\<close>

record ('t, 'c) test_run = "('t, 'c) tester" +
  start_time :: time
  request_times :: "time list"
  total_messages_count :: nat
  previous_rps_report_time :: time
  current_time :: "time option"

definition time_window_sec :: time where
  "time_window_sec = 5"

definition on_self :: "('t, unit) py \<Rightarrow> (('t, 'c) test_run, unit) py" where
  "on_self m s = (case m (ts_self s) of (r, t) \<Rightarrow> (r, s\<lparr>ts_self := t\<rparr>))"

definition on_client :: "('c, unit) py \<Rightarrow> (('t, 'c) test_run, unit) py" where
  "on_client m s = (case m (ts_client s) of (r, c) \<Rightarrow> (r, s\<lparr>ts_client := c\<rparr>))"

definition perf_counter :: "test_env \<Rightarrow> (('t, 'c) test_run, time) py" where
  "perf_counter env s =
     (let t = ts_clock s + env_lag env (ts_readings s)
      in (Inr t, s\<lparr>ts_clock := t, ts_readings := ts_readings s + 1\<rparr>))"

section \<open>Deliveries\<close>

definition tester_on_delivery :: "'t hooks \<Rightarrow> test_env \<Rightarrow> arrival \<Rightarrow> (('t, 'c) test_run, unit) py" where
  "tester_on_delivery hs env d =
     py_block
       [py_bind (perf_counter env) (\<lambda>t. py_modify (\<lambda>s. s\<lparr>ts_last_delivery_time := t\<rparr>)),
        py_bind (perf_counter env) (\<lambda>t. on_self (on_delivery hs t (fst d) (fst (snd d)) (snd (snd d))))]"

text \<open>
  The handler runs in the listener's task: an exception ends that task, not \<open>test\<close>, and no further
  delivery is made.
\<close>

definition listener_delivers :: "'t hooks \<Rightarrow> test_env \<Rightarrow> arrival \<Rightarrow> (('t, 'c) test_run, unit) py" where
  "listener_delivers hs env d =
     py_bind (py_gets ts_listening) (\<lambda>listening.
       py_when listening
         (py_except (tester_on_delivery hs env d) (\<lambda>_. True)
           (\<lambda>_. py_modify (\<lambda>s. s\<lparr>ts_listening := False\<rparr>))))"

text \<open>\<open>asyncio.sleep(delay)\<close> gives the loop to the deliveries and resumes no earlier than asked.\<close>

definition asyncio_sleep :: "'t hooks \<Rightarrow> test_env \<Rightarrow> time \<Rightarrow> (('t, 'c) test_run, unit) py" where
  "asyncio_sleep hs env delay =
     py_bind (py_gets (\<lambda>s. ts_clock s + delay)) (\<lambda>wake.
     py_bind (py_gets (\<lambda>s. env_arrivals env (ts_sleeps s))) (\<lambda>ds.
     py_block
       [py_modify (\<lambda>s. s\<lparr>ts_sleeps := ts_sleeps s + 1\<rparr>),
        py_for ds (listener_delivers hs env),
        py_modify (\<lambda>s. s\<lparr>ts_clock := max (ts_clock s) wake\<rparr>)]))"

section \<open>The sending loop\<close>

definition next_message :: "(('t, 'c) test_run, string) py" where
  "next_message s = (case gen_next (ts_generator s) of (w, g) \<Rightarrow> (Inr w, s\<lparr>ts_generator := g\<rparr>))"

definition interval_start :: "time \<Rightarrow> ('t, 'c) test_run \<Rightarrow> time" where
  "interval_start now s = max (start_time s) (now - time_window_sec)"

definition report_rps :: "time \<Rightarrow> (('t, 'c) test_run, unit) py" where
  "report_rps now =
     py_modify (\<lambda>s.
       if now - 1 > previous_rps_report_time s \<and> request_times s \<noteq> [] \<and> hd (request_times s) < now
       then s\<lparr>previous_rps_report_time := now\<rparr> else s)"

text \<open>\<open>len(request_times) / rps - elapsed_time\<close> raises when \<open>rps\<close> is zero.\<close>

definition test_delay :: "int \<Rightarrow> nat \<Rightarrow> time \<Rightarrow> time res" where
  "test_delay rps n elapsed =
     (if rps = 0 then Inl ZeroDivisionError else Inr (of_nat n / of_int rps - elapsed))"

definition throttle :: "'t hooks \<Rightarrow> test_env \<Rightarrow> int \<Rightarrow> time \<Rightarrow> (('t, 'c) test_run, unit) py" where
  "throttle hs env rps elapsed =
     py_bind (py_gets request_times) (\<lambda>q.
       py_when (of_nat (length q) > of_int rps * elapsed)
         (py_bind (py_lift (test_delay rps (length q) elapsed)) (asyncio_sleep hs env)))"

text \<open>One message: draw, send, tell the hook, take the time, prune the window, report, wait.\<close>

definition note_request :: "time \<Rightarrow> (('t, 'c) test_run, unit) py" where
  "note_request now =
     py_block
       [py_modify (\<lambda>s. s\<lparr>current_time := Some now, request_times := request_times s @ [now],
          total_messages_count := total_messages_count s + 1\<rparr>),
        py_modify (\<lambda>s. s\<lparr>request_times := dropWhile (\<lambda>t. t < interval_start now s) (request_times s)\<rparr>),
        report_rps now]"

definition test_message ::
  "'t hooks \<Rightarrow> (int \<Rightarrow> byte list \<Rightarrow> ('c, unit) py) \<Rightarrow> test_env \<Rightarrow> int \<Rightarrow> int \<Rightarrow> int
     \<Rightarrow> (('t, 'c) test_run, unit) py"
where
  "test_message hs send env rps iter_number mchain =
     py_bind next_message (\<lambda>message.
     py_block
       [on_client (send mchain (message_data iter_number message)),
        py_bind (perf_counter env) (\<lambda>t. on_self (on_send hs t mchain (message_data iter_number message))),
        py_bind (perf_counter env) (\<lambda>now.
          py_block
            [note_request now,
             py_bind (py_gets (interval_start now)) (\<lambda>start. throttle hs env rps (now - start))])])"

definition read_current_time :: "(('t, 'c) test_run, time) py" where
  "read_current_time s =
     (case current_time s of None \<Rightarrow> (Inl UnboundLocalError, s) | Some t \<Rightarrow> (Inr t, s))"

primrec test_loop ::
  "'t hooks \<Rightarrow> (int \<Rightarrow> byte list \<Rightarrow> ('c, unit) py) \<Rightarrow> test_env \<Rightarrow> time \<Rightarrow> int \<Rightarrow> int \<Rightarrow> nat
     \<Rightarrow> (('t, 'c) test_run, bool) py"
where
  "test_loop hs send env duration rps iter_number 0 = py_return False"
| "test_loop hs send env duration rps iter_number (Suc fuel) =
     py_bind (py_gets ts_mchains) (\<lambda>mchains.
     py_bind (py_for mchains (test_message hs send env rps iter_number)) (\<lambda>_.
     py_bind read_current_time (\<lambda>now.
     py_bind (py_gets start_time) (\<lambda>start.
       if now > start + duration then py_return True
       else test_loop hs send env duration rps iter_number fuel))))"

section \<open>Waiting for completion\<close>

primrec await_completion :: "'t hooks \<Rightarrow> test_env \<Rightarrow> time \<Rightarrow> nat \<Rightarrow> (('t, 'c) test_run, bool) py" where
  "await_completion hs env completion_time 0 = py_return False"
| "await_completion hs env completion_time (Suc fuel) =
     py_bind (perf_counter env) (\<lambda>now.
     py_bind (py_gets (\<lambda>s. ts_last_delivery_time s + completion_time)) (\<lambda>wait_until.
       if now < wait_until
       then py_bind (asyncio_sleep hs env (wait_until - now))
              (\<lambda>_. await_completion hs env completion_time fuel)
       else py_return True))"

section \<open>The test\<close>

definition average_rps :: "(('t, 'c) test_run, time) py" where
  "average_rps =
     py_bind (py_gets total_messages_count) (\<lambda>n.
     py_bind read_current_time (\<lambda>now.
     py_bind (py_gets start_time) (\<lambda>start.
       py_lift (if now - start = 0 then Inl ZeroDivisionError else Inr (of_nat n / (now - start))))))"

definition begin_test :: "test_env \<Rightarrow> (('t, 'c) test_run, unit) py" where
  "begin_test env =
     py_bind (perf_counter env) (\<lambda>t.
       py_modify (\<lambda>s. s\<lparr>start_time := t, request_times := [], total_messages_count := 0,
         previous_rps_report_time := t, current_time := None\<rparr>))"

text \<open>\<open>None\<close>: still running when the fuel of one of the loops is used up.\<close>

definition tester_test ::
  "'t hooks \<Rightarrow> ('t \<Rightarrow> 'r res) \<Rightarrow> (int \<Rightarrow> byte list \<Rightarrow> ('c, unit) py) \<Rightarrow> test_env \<Rightarrow> nat
     \<Rightarrow> time \<Rightarrow> int \<Rightarrow> time \<Rightarrow> int \<Rightarrow> (('t, 'c) test_run, ('r \<times> time) option) py"
where
  "tester_test hs get_result send env fuel duration rps completion_time iter_number =
     py_bind (py_bind (perf_counter env) (\<lambda>t. on_self (on_test_start hs t))) (\<lambda>_.
     py_bind (begin_test env) (\<lambda>_.
     py_bind (test_loop hs send env duration rps iter_number fuel) (\<lambda>broke.
       if \<not> broke then py_return None else
         py_bind average_rps (\<lambda>average.
         py_bind (py_bind (perf_counter env) (\<lambda>t. on_self (on_stop_sending hs t))) (\<lambda>_.
         py_bind (await_completion hs env completion_time fuel) (\<lambda>complete.
           if \<not> complete then py_return None else
             py_bind (py_gets ts_self) (\<lambda>self.
             py_bind (py_lift (get_result self)) (\<lambda>result.
               py_return (Some (result, average))))))))))"

section \<open>The calls a test makes on its subclass\<close>

datatype hook_call =
    TestStart time
  | Send time int "byte list"
  | Delivery time int nat "byte list"
  | StopSending time

primrec hook_apply :: "'t hooks \<Rightarrow> hook_call \<Rightarrow> ('t, unit) py" where
  "hook_apply hs (TestStart t) = on_test_start hs t"
| "hook_apply hs (Send t c d) = on_send hs t c d"
| "hook_apply hs (Delivery t c i d) = on_delivery hs t c i d"
| "hook_apply hs (StopSending t) = on_stop_sending hs t"

primrec sent_data :: "hook_call \<Rightarrow> (int \<times> byte list) list" where
  "sent_data (TestStart t) = []"
| "sent_data (Send t c d) = [(c, d)]"
| "sent_data (Delivery t c i d) = []"
| "sent_data (StopSending t) = []"

definition sends :: "hook_call list \<Rightarrow> (int \<times> byte list) list" where
  "sends cs = concat (map sent_data cs)"

definition arrives :: "test_env \<Rightarrow> arrival \<Rightarrow> bool" where
  "arrives env d \<longleftrightarrow> (\<exists>n. d \<in> set (env_arrivals env n))"

definition deliveries_of :: "test_env \<Rightarrow> hook_call list \<Rightarrow> bool" where
  "deliveries_of env cs \<longleftrightarrow> (\<forall>x \<in> set cs. \<exists>t c i d. x = Delivery t c i d \<and> arrives env (c, i, d))"

lemma sends_simps [simp]:
  "sends [] = []" "sends (x # cs) = sent_data x @ sends cs" "sends (cs @ ds) = sends cs @ sends ds"
  by (simp_all add: sends_def)

lemma deliveries_of_simps [simp]:
  "deliveries_of env []"
  "deliveries_of env (cs @ ds) \<longleftrightarrow> deliveries_of env cs \<and> deliveries_of env ds"
  by (auto simp: deliveries_of_def)

lemma deliveries_no_sends: "deliveries_of env cs \<Longrightarrow> sends cs = []"
  by (induction cs) (auto simp: deliveries_of_def)

text \<open>
  What a test hears: as long as the listening task runs and no hook raises, the deliveries it is told of
  are all the arrivals of its sleeps, in their order.
\<close>

primrec delivered_data :: "hook_call \<Rightarrow> arrival list" where
  "delivered_data (TestStart t) = []"
| "delivered_data (Send t c d) = []"
| "delivered_data (Delivery t c i d) = [(c, i, d)]"
| "delivered_data (StopSending t) = []"

definition heard :: "hook_call list \<Rightarrow> arrival list" where
  "heard cs = concat (map delivered_data cs)"

definition arrivals_between :: "test_env \<Rightarrow> nat \<Rightarrow> nat \<Rightarrow> arrival list" where
  "arrivals_between env m n = concat (map (env_arrivals env) [m..<n])"

definition hears ::
  "'t hooks \<Rightarrow> test_env \<Rightarrow> ('t, 'c) test_run \<Rightarrow> hook_call list \<Rightarrow> ('t, 'c) test_run \<Rightarrow> bool"
where
  "hears hs env s cs s' \<longleftrightarrow> ts_sleeps s \<le> ts_sleeps s' \<and>
     (ts_listening s \<and> all_return (hook_apply hs) (ts_self s) cs \<longrightarrow>
        ts_listening s' \<and> heard cs = arrivals_between env (ts_sleeps s) (ts_sleeps s'))"

lemma heard_simps [simp]:
  "heard [] = []" "heard (x # cs) = delivered_data x @ heard cs" "heard (cs @ ds) = heard cs @ heard ds"
  by (simp_all add: heard_def)

lemma arrivals_between_simps [simp]:
  "arrivals_between env m m = []" "arrivals_between env m (Suc m) = env_arrivals env m"
  by (simp_all add: arrivals_between_def)

lemma arrivals_between_append:
  "m \<le> n \<Longrightarrow> n \<le> k \<Longrightarrow> arrivals_between env m n @ arrivals_between env n k = arrivals_between env m k"
  by (simp add: arrivals_between_def flip: concat_append map_append) (metis le_add_diff_inverse upt_add_eq_append)

lemma hears_nothing:
  "ts_listening s' = ts_listening s \<Longrightarrow> ts_sleeps s' = ts_sleeps s \<Longrightarrow> heard cs = [] \<Longrightarrow> hears hs env s cs s'"
  by (simp add: hears_def)

lemma hears_trans:
  assumes "hears hs env s cs s'" "ts_self s' = run_calls (hook_apply hs) (ts_self s) cs" "hears hs env s' ds s''"
  shows "hears hs env s (cs @ ds) s''"
  using assms arrivals_between_append [of "ts_sleeps s" "ts_sleeps s'" "ts_sleeps s''" env]
  by (auto simp: hears_def all_return_append)

text \<open>
  What the environment may change while the coroutine is suspended, and the clock's contract:
  no lag is negative.
\<close>

definition lags_ok :: "test_env \<Rightarrow> bool" where
  "lags_ok env \<longleftrightarrow> (\<forall>n. 0 \<le> env_lag env n)"

definition only_env :: "('t, 'c) test_run \<Rightarrow> ('t, 'c) test_run \<Rightarrow> bool" where
  "only_env s s' \<longleftrightarrow> s' = s\<lparr>ts_self := ts_self s', ts_last_delivery_time := ts_last_delivery_time s',
     ts_listening := ts_listening s', ts_clock := ts_clock s', ts_readings := ts_readings s',
     ts_sleeps := ts_sleeps s'\<rparr>"

lemma only_env_refl [simp]: "only_env s s"
  by (simp add: only_env_def)

lemma only_env_trans: "only_env s s' \<Longrightarrow> only_env s' s'' \<Longrightarrow> only_env s s''"
  unfolding only_env_def
  by (cases s; cases s'; cases s'') simp

lemma only_env_fields:
  assumes "only_env s s'"
  shows "start_time s' = start_time s" "request_times s' = request_times s"
    "total_messages_count s' = total_messages_count s" "current_time s' = current_time s"
    "ts_mchains s' = ts_mchains s" "ts_client s' = ts_client s" "ts_generator s' = ts_generator s"
    "previous_rps_report_time s' = previous_rps_report_time s"
  by (subst assms [unfolded only_env_def], simp)+

lemma listener_delivers_effect:
  "\<exists>s' cs. listener_delivers hs env d s = (Inr (), s') \<and> only_env s s' \<and> ts_sleeps s' = ts_sleeps s \<and>
     ts_self s' = run_calls (hook_apply hs) (ts_self s) cs \<and>
     (\<forall>x \<in> set cs. \<exists>t. x = Delivery t (fst d) (fst (snd d)) (snd (snd d))) \<and>
     (ts_listening s \<and> all_return (hook_apply hs) (ts_self s) cs \<longrightarrow> ts_listening s' \<and> heard cs = [d]) \<and>
     (lags_ok env \<longrightarrow> ts_clock s \<le> ts_clock s')"
proof (cases "ts_listening s")
  case True
  define t1 where "t1 = ts_clock s + env_lag env (ts_readings s)"
  define t2 where "t2 = t1 + env_lag env (ts_readings s + 1)"
  define s1 where "s1 = s\<lparr>ts_clock := t2, ts_readings := ts_readings s + 2, ts_last_delivery_time := t1\<rparr>"
  obtain r a where ra: "on_delivery hs t2 (fst d) (fst (snd d)) (snd (snd d)) (ts_self s) = (r, a)"
    by fastforce
  have "listener_delivers hs env d s =
      (Inr (), s1\<lparr>ts_self := a, ts_listening := (case r of Inl e \<Rightarrow> False | Inr x \<Rightarrow> ts_listening s)\<rparr>)"
    using True ra
    by (auto simp: listener_delivers_def tester_on_delivery_def perf_counter_def on_self_def py_defs
        s1_def t1_def t2_def Let_def split: sum.splits)
  moreover have "ts_clock s \<le> t2" if "lags_ok env"
    using that by (simp add: t2_def t1_def lags_ok_def add_increasing2)
  moreover have "run_calls (hook_apply hs) (ts_self s) [Delivery t2 (fst d) (fst (snd d)) (snd (snd d))] = a"
    using ra by simp
  ultimately show ?thesis
    by (intro exI [of _ "s1\<lparr>ts_self := a, ts_listening := (case r of Inl e \<Rightarrow> False | Inr x \<Rightarrow> ts_listening s)\<rparr>"]
        exI [of _ "[Delivery t2 (fst d) (fst (snd d)) (snd (snd d))]"])
      (use ra in \<open>simp add: only_env_def s1_def split: sum.splits\<close>)
next
  case False
  then show ?thesis by (intro exI [of _ s] exI [of _ "[]"]) (simp add: listener_delivers_def py_defs)
qed

lemma deliveries_effect:
  "\<exists>s' cs. py_for ds (listener_delivers hs env) s = (Inr (), s') \<and> only_env s s' \<and>
     ts_sleeps s' = ts_sleeps s \<and> ts_self s' = run_calls (hook_apply hs) (ts_self s) cs \<and>
     (\<forall>x \<in> set cs. \<exists>t c i d. x = Delivery t c i d \<and> (c, i, d) \<in> set ds) \<and>
     (ts_listening s \<and> all_return (hook_apply hs) (ts_self s) cs \<longrightarrow> ts_listening s' \<and> heard cs = ds) \<and>
     (lags_ok env \<longrightarrow> ts_clock s \<le> ts_clock s')"
proof (induction ds arbitrary: s)
  case Nil
  then show ?case by (intro exI [of _ s] exI [of _ "[]"]) (simp add: py_defs)
next
  case (Cons d ds)
  from listener_delivers_effect [of hs env d s] obtain s1 cs1 where
    1: "listener_delivers hs env d s = (Inr (), s1)" "only_env s s1" "ts_sleeps s1 = ts_sleeps s"
      "ts_self s1 = run_calls (hook_apply hs) (ts_self s) cs1"
      "\<forall>x \<in> set cs1. \<exists>t. x = Delivery t (fst d) (fst (snd d)) (snd (snd d))"
      "ts_listening s \<and> all_return (hook_apply hs) (ts_self s) cs1 \<longrightarrow> ts_listening s1 \<and> heard cs1 = [d]"
      "lags_ok env \<longrightarrow> ts_clock s \<le> ts_clock s1" by blast
  from Cons.IH [of s1] obtain s2 cs2 where
    2: "py_for ds (listener_delivers hs env) s1 = (Inr (), s2)" "only_env s1 s2"
      "ts_sleeps s2 = ts_sleeps s1" "ts_self s2 = run_calls (hook_apply hs) (ts_self s1) cs2"
      "\<forall>x \<in> set cs2. \<exists>t c i d. x = Delivery t c i d \<and> (c, i, d) \<in> set ds"
      "ts_listening s1 \<and> all_return (hook_apply hs) (ts_self s1) cs2 \<longrightarrow> ts_listening s2 \<and> heard cs2 = ds"
      "lags_ok env \<longrightarrow> ts_clock s1 \<le> ts_clock s2" by blast
  have "\<exists>t c i d'. x = Delivery t c i d' \<and> (c, i, d') \<in> set (d # ds)" if "x \<in> set (cs1 @ cs2)" for x
    using that 1(5) 2(5) by (cases d) fastforce
  moreover have "py_for (d # ds) (listener_delivers hs env) s = (Inr (), s2)"
    using 1(1) 2(1) by (simp add: py_bind_def)
  ultimately show ?case using 1 2 only_env_trans [OF 1(2) 2(2)]
    by (intro exI [of _ s2] exI [of _ "cs1 @ cs2"]) (auto simp: run_calls_append all_return_append)
qed

lemma asyncio_sleep_effect:
  "\<exists>s' cs. asyncio_sleep hs env delay s = (Inr (), s') \<and> only_env s s' \<and>
     ts_sleeps s' = ts_sleeps s + 1 \<and> ts_self s' = run_calls (hook_apply hs) (ts_self s) cs \<and>
     deliveries_of env cs \<and> hears hs env s cs s' \<and> ts_clock s + delay \<le> ts_clock s' \<and>
     (lags_ok env \<longrightarrow> ts_clock s \<le> ts_clock s') \<and>
     (env_arrivals env (ts_sleeps s) = [] \<longrightarrow> ts_last_delivery_time s' = ts_last_delivery_time s)"
proof -
  let ?s0 = "s\<lparr>ts_sleeps := ts_sleeps s + 1\<rparr>"
  let ?ds = "env_arrivals env (ts_sleeps s)"
  from deliveries_effect [of ?ds hs env ?s0] obtain s1 cs where
    1: "py_for ?ds (listener_delivers hs env) ?s0 = (Inr (), s1)" "only_env ?s0 s1"
      "ts_sleeps s1 = ts_sleeps s + 1" "ts_self s1 = run_calls (hook_apply hs) (ts_self s) cs"
      "\<forall>x \<in> set cs. \<exists>t c i d. x = Delivery t c i d \<and> (c, i, d) \<in> set ?ds"
      "ts_listening s \<and> all_return (hook_apply hs) (ts_self s) cs \<longrightarrow> ts_listening s1 \<and> heard cs = ?ds"
      "lags_ok env \<longrightarrow> ts_clock s \<le> ts_clock s1" by auto
  let ?s2 = "s1\<lparr>ts_clock := max (ts_clock s1) (ts_clock s + delay)\<rparr>"
  have run: "asyncio_sleep hs env delay s = (Inr (), ?s2)"
    using 1(1) by (simp add: asyncio_sleep_def py_bind_def py_gets_def py_modify_def py_return_def)
  have "only_env s ?s0" "only_env s1 ?s2" by (simp_all add: only_env_def)
  then have frame: "only_env s ?s2" using 1(2) only_env_trans by blast
  have "deliveries_of env cs" using 1(5) unfolding deliveries_of_def arrives_def by blast
  moreover have "hears hs env s cs ?s2" using 1(3,6) by (simp add: hears_def)
  moreover have "?ds = [] \<Longrightarrow> ts_last_delivery_time s1 = ts_last_delivery_time s"
    using 1(1) by (auto simp: py_defs)
  ultimately show ?thesis using run frame 1
    by (intro exI [of _ ?s2] exI [of _ cs]) auto
qed

section \<open>One message\<close>

text \<open>The moment before which \<open>throttle\<close> does not let the next message go.\<close>

definition window_full_until :: "int \<Rightarrow> nat \<Rightarrow> time \<Rightarrow> time" where
  "window_full_until rps n start = start + of_nat n / of_int rps"

lemma throttle_effect:
  assumes "throttle hs env rps elapsed s = (Inr x, s')"
  shows "\<exists>cs. only_env s s' \<and> ts_self s' = run_calls (hook_apply hs) (ts_self s) cs \<and>
    deliveries_of env cs \<and> hears hs env s cs s' \<and> (lags_ok env \<longrightarrow> ts_clock s \<le> ts_clock s') \<and>
    (of_int rps * elapsed < of_nat (length (request_times s)) \<longrightarrow>
       rps \<noteq> 0 \<and> ts_sleeps s < ts_sleeps s' \<and>
       window_full_until rps (length (request_times s)) (ts_clock s - elapsed) \<le> ts_clock s')"
proof (cases "of_int rps * elapsed < of_nat (length (request_times s))")
  case True
  with assms have rps: "rps \<noteq> 0"
    and sleep: "asyncio_sleep hs env (of_nat (length (request_times s)) / of_int rps - elapsed) s = (Inr x, s')"
    by (auto simp: throttle_def test_delay_def py_bind_def py_gets_def py_lift_def split: if_splits)
  from asyncio_sleep_effect [of hs env "of_nat (length (request_times s)) / of_int rps - elapsed" s] sleep
  obtain cs where "only_env s s'" "ts_sleeps s < ts_sleeps s'" "ts_self s' = run_calls (hook_apply hs) (ts_self s) cs"
    "deliveries_of env cs" "hears hs env s cs s'" "lags_ok env \<longrightarrow> ts_clock s \<le> ts_clock s'"
    "ts_clock s + (of_nat (length (request_times s)) / of_int rps - elapsed) \<le> ts_clock s'" by auto
  with rps show ?thesis
    by (intro exI [of _ cs]) (simp add: window_full_until_def algebra_simps)
next
  case False
  with assms have "s' = s" by (simp add: throttle_def py_defs)
  with False show ?thesis by (intro exI [of _ "[]"]) (simp add: hears_nothing)
qed

definition noted :: "time \<Rightarrow> ('t, 'c) test_run \<Rightarrow> ('t, 'c) test_run" where
  "noted now s =
     (let q = dropWhile (\<lambda>u. u < max (start_time s) (now - time_window_sec)) (request_times s @ [now])
      in s\<lparr>request_times := q, total_messages_count := Suc (total_messages_count s),
        previous_rps_report_time :=
          (if now - 1 > previous_rps_report_time s \<and> q \<noteq> [] \<and> hd q < now then now
           else previous_rps_report_time s), current_time := Some now\<rparr>)"

lemma note_request_eq: "note_request now s = (Inr (), noted now s)"
  by (simp add: note_request_def report_rps_def noted_def interval_start_def py_bind_def py_return_def
      py_modify_def Let_def)

lemma test_message_effect:
  assumes "test_message hs send env rps k mchain s = (Inr x, s')"
  shows "\<exists>t now cs. now = ts_clock s + env_lag env (ts_readings s) + env_lag env (Suc (ts_readings s)) \<and>
    start_time s' = start_time s \<and> ts_mchains s' = ts_mchains s \<and>
    ts_generator s' = snd (gen_next (ts_generator s)) \<and> current_time s' = Some now \<and>
    total_messages_count s' = Suc (total_messages_count s) \<and>
    send mchain (message_data k (fst (gen_next (ts_generator s)))) (ts_client s) = (Inr (), ts_client s') \<and>
    request_times s' = dropWhile (\<lambda>u. u < max (start_time s) (now - time_window_sec)) (request_times s @ [now]) \<and>
    ts_self s' = run_calls (hook_apply hs) (ts_self s)
      (Send t mchain (message_data k (fst (gen_next (ts_generator s)))) # cs) \<and> deliveries_of env cs \<and>
    hears hs env s (Send t mchain (message_data k (fst (gen_next (ts_generator s)))) # cs) s' \<and>
    (lags_ok env \<longrightarrow> ts_clock s \<le> now \<and> now \<le> ts_clock s') \<and>
    (of_int rps * (now - max (start_time s) (now - time_window_sec)) < of_nat (length (request_times s')) \<longrightarrow>
       ts_sleeps s < ts_sleeps s' \<and>
       window_full_until rps (length (request_times s')) (max (start_time s) (now - time_window_sec)) \<le> ts_clock s')"
proof -
  obtain w g where gen: "gen_next (ts_generator s) = (w, g)" by fastforce
  let ?d = "message_data k w"
  obtain r c where snt: "send mchain ?d (ts_client s) = (r, c)" by fastforce
  with assms gen have r: "r = Inr ()"
    by (cases r) (auto simp: test_message_def next_message_def on_client_def py_bind_def)
  define t where "t = ts_clock s + env_lag env (ts_readings s)"
  define now where "now = t + env_lag env (Suc (ts_readings s))"
  obtain r' a where hk: "on_send hs t mchain ?d (ts_self s) = (r', a)" by fastforce
  with assms gen snt r have r': "r' = Inr ()"
    by (cases r') (auto simp: test_message_def next_message_def on_client_def on_self_def py_bind_def
        perf_counter_def t_def Let_def)
  define s0 where "s0 = s\<lparr>ts_generator := g, ts_client := c, ts_self := a, ts_clock := now,
    ts_readings := ts_readings s + 2\<rparr>"
  define q where "q = request_times (noted now s0)"
  have throttled: "throttle hs env rps (now - max (start_time s) (now - time_window_sec)) (noted now s0) = (Inr (), s')"
    using assms gen snt r hk r'
    by (simp add: test_message_def next_message_def on_client_def on_self_def py_bind_def py_return_def
        perf_counter_def note_request_eq py_gets_def interval_start_def
        t_def [symmetric] now_def [symmetric] s0_def Let_def split: prod.splits sum.splits)
      (simp add: noted_def s0_def Let_def split: prod.splits sum.splits)
  from throttle_effect [OF this] obtain cs where
    cs: "only_env (noted now s0) s'" "ts_self s' = run_calls (hook_apply hs) a cs" "deliveries_of env cs"
      "hears hs env (noted now s0) cs s'" "lags_ok env \<longrightarrow> now \<le> ts_clock s'"
      "of_int rps * (now - max (start_time s) (now - time_window_sec)) < of_nat (length q) \<longrightarrow> ts_sleeps s < ts_sleeps s' \<and>
       window_full_until rps (length q) (max (start_time s) (now - time_window_sec)) \<le> ts_clock s'"
    by (auto simp: noted_def s0_def q_def Let_def)
  have "hears hs env s [Send t mchain ?d] (noted now s0)"
    by (rule hears_nothing) (simp_all add: noted_def s0_def Let_def)
  moreover have "ts_self (noted now s0) = run_calls (hook_apply hs) (ts_self s) [Send t mchain ?d]"
    using hk by (simp add: noted_def s0_def Let_def)
  ultimately have all: "hears hs env s (Send t mchain ?d # cs) s'"
    using hears_trans [OF _ _ cs(4)] by fastforce
  have "lags_ok env \<longrightarrow> ts_clock s \<le> now"
    by (simp add: now_def t_def lags_ok_def add_increasing2)
  then show ?thesis
    using cs(2,3,5,6) all now_def t_def gen snt r hk r' only_env_fields [OF cs(1)]
    by (intro exI [of _ t] exI [of _ now] exI [of _ cs]) (simp add: noted_def s0_def q_def Let_def)
qed

section \<open>Rounds: what is sent\<close>

text \<open>
  \<open>sent_so_far\<close>: since the loop began in \<open>s0\<close>, messages went to \<open>dests\<close>, in that order, each carrying
  the next word, and the subclass saw these sends and some deliveries.
\<close>

definition words_to :: "int \<Rightarrow> gen \<Rightarrow> int list \<Rightarrow> (int \<times> byte list) list" where
  "words_to k g dests = zip dests (map (message_data k) (draws gen_next (length dests) g))"

definition in_loop :: "test_env \<Rightarrow> hook_call list \<Rightarrow> bool" where
  "in_loop env cs \<longleftrightarrow> (\<forall>x \<in> set cs. case x of Send t c d \<Rightarrow> True
     | Delivery t c i d \<Rightarrow> arrives env (c, i, d) | _ \<Rightarrow> False)"

definition sent_so_far ::
  "'t hooks \<Rightarrow> (int \<Rightarrow> byte list \<Rightarrow> ('c, unit) py) \<Rightarrow> test_env \<Rightarrow> int \<Rightarrow> ('t, 'c) test_run \<Rightarrow> int list
     \<Rightarrow> ('t, 'c) test_run \<Rightarrow> bool"
where
  "sent_so_far hs send env k s0 dests s \<longleftrightarrow>
     start_time s = start_time s0 \<and> ts_mchains s = ts_mchains s0 \<and>
     total_messages_count s = total_messages_count s0 + length dests \<and>
     ts_generator s = after gen_next (length dests) (ts_generator s0) \<and>
     all_return (\<lambda>r. send (fst r) (snd r)) (ts_client s0) (words_to k (ts_generator s0) dests) \<and>
     ts_client s = run_calls (\<lambda>r. send (fst r) (snd r)) (ts_client s0) (words_to k (ts_generator s0) dests) \<and>
     (\<exists>cs. ts_self s = run_calls (hook_apply hs) (ts_self s0) cs \<and> in_loop env cs \<and>
       sends cs = words_to k (ts_generator s0) dests \<and> hears hs env s0 cs s)"

lemma in_loop_simps [simp]:
  "in_loop env []" "in_loop env (cs @ ds) \<longleftrightarrow> in_loop env cs \<and> in_loop env ds"
  "in_loop env (Send t c d # cs) \<longleftrightarrow> in_loop env cs"
  by (auto simp: in_loop_def)

lemma deliveries_in_loop: "deliveries_of env cs \<Longrightarrow> in_loop env cs"
  by (fastforce simp: deliveries_of_def in_loop_def)

lemma words_to_snoc:
  "words_to k g (dests @ [c]) =
     words_to k g dests @ [(c, message_data k (fst (gen_next (after gen_next (length dests) g))))]"
  using draws_add [of gen_next "length dests" 1 g] by (simp add: words_to_def del: draws.simps(2)) simp

lemma after_Suc: "after draw (Suc n) g = snd (draw (after draw n g))"
  by (induction n arbitrary: g) simp_all

lemma sent_start: "sent_so_far hs send env k s0 [] s0"
  by (simp add: sent_so_far_def words_to_def hears_nothing exI [of _ "[]"])

lemma sent_message:
  assumes far: "sent_so_far hs send env k s0 dests s"
    and run: "test_message hs send env rps k c s = (Inr x, s')"
  shows "sent_so_far hs send env k s0 (dests @ [c]) s'"
proof -
  from far obtain cs where cs: "ts_self s = run_calls (hook_apply hs) (ts_self s0) cs" "in_loop env cs"
    "sends cs = words_to k (ts_generator s0) dests" "hears hs env s0 cs s" by (auto simp: sent_so_far_def)
  let ?d = "message_data k (fst (gen_next (ts_generator s)))"
  from test_message_effect [OF run] obtain t ds where
    eff: "start_time s' = start_time s" "ts_mchains s' = ts_mchains s"
      "ts_generator s' = snd (gen_next (ts_generator s))"
      "total_messages_count s' = Suc (total_messages_count s)"
      "send c ?d (ts_client s) = (Inr (), ts_client s')"
      "ts_self s' = run_calls (hook_apply hs) (ts_self s) (Send t c ?d # ds)" "deliveries_of env ds"
      "hears hs env s (Send t c ?d # ds) s'" by blast
  have "ts_self s' = run_calls (hook_apply hs) (ts_self s0) (cs @ Send t c ?d # ds)"
    by (simp add: eff(6) cs(1) run_calls_append)
  moreover have "in_loop env (cs @ Send t c ?d # ds)"
    using cs(2) deliveries_in_loop [OF eff(7)] by simp
  moreover have "sends (cs @ Send t c ?d # ds) = words_to k (ts_generator s0) (dests @ [c])"
    using far deliveries_no_sends [OF eff(7)] by (simp add: cs(3) words_to_snoc sent_so_far_def)
  moreover have "hears hs env s0 (cs @ Send t c ?d # ds) s'" by (rule hears_trans [OF cs(4,1) eff(8)])
  ultimately have "\<exists>cs. ts_self s' = run_calls (hook_apply hs) (ts_self s0) cs \<and> in_loop env cs \<and>
      sends cs = words_to k (ts_generator s0) (dests @ [c]) \<and> hears hs env s0 cs s'" by blast
  moreover have "all_return (\<lambda>r. send (fst r) (snd r)) (ts_client s0) (words_to k (ts_generator s0) (dests @ [c]))
      \<and> ts_client s' = run_calls (\<lambda>r. send (fst r) (snd r)) (ts_client s0)
          (words_to k (ts_generator s0) (dests @ [c]))"
    using far eff(5) by (simp add: words_to_snoc all_return_append run_calls_append sent_so_far_def)
  moreover have "ts_generator s' = after gen_next (length (dests @ [c])) (ts_generator s0)"
    using far eff(3) by (simp add: after_Suc sent_so_far_def del: after.simps)
  ultimately show ?thesis
    using far eff(1,2,4) by (simp add: sent_so_far_def)
qed

lemma sent_round:
  "sent_so_far hs send env k s0 dests s \<Longrightarrow> py_for ms (test_message hs send env rps k) s = (Inr x, s') \<Longrightarrow>
     sent_so_far hs send env k s0 (dests @ ms) s'"
proof (induction ms arbitrary: s dests)
  case (Cons m ms)
  from Cons.prems(2) obtain s1 where "test_message hs send env rps k m s = (Inr (), s1)"
    and rest: "py_for ms (test_message hs send env rps k) s1 = (Inr x, s')"
    by (auto simp: py_bind_def split: prod.splits sum.splits)
  from Cons.IH [OF sent_message [OF Cons.prems(1) this(1)] rest] show ?case by simp
qed (simp add: py_defs)

lemma sent_loop:
  "sent_so_far hs send env k s0 (concat (replicate r (ts_mchains s0))) s \<Longrightarrow>
   test_loop hs send env duration rps k fuel s = (Inr True, s') \<Longrightarrow>
   \<exists>r'. r < r' \<and> r' \<le> r + fuel \<and> sent_so_far hs send env k s0 (concat (replicate r' (ts_mchains s0))) s'"
proof (induction fuel arbitrary: s r)
  case (Suc fuel)
  have ms: "ts_mchains s = ts_mchains s0" using Suc.prems(1) by (simp add: sent_so_far_def)
  from Suc.prems(2) obtain s1 where round: "py_for (ts_mchains s0) (test_message hs send env rps k) s = (Inr (), s1)"
    and rest: "s' = s1 \<or> test_loop hs send env duration rps k fuel s1 = (Inr True, s')"
    by (auto simp: ms py_bind_def py_gets_def py_return_def read_current_time_def
        split: prod.splits sum.splits option.splits if_splits)
  have "concat (replicate r (ts_mchains s0)) @ ts_mchains s0 = concat (replicate (Suc r) (ts_mchains s0))"
    by (simp add: replicate_append_same [symmetric] flip: concat_append)
      (metis concat.simps(1,2) append_Nil2 concat_append replicate_append_same)
  with sent_round [OF Suc.prems(1) round]
  have far: "sent_so_far hs send env k s0 (concat (replicate (Suc r) (ts_mchains s0))) s1" by simp
  from rest show ?case
  proof
    assume "s' = s1"
    with far show ?thesis by (intro exI [of _ "Suc r"]) simp
  next
    assume "test_loop hs send env duration rps k fuel s1 = (Inr True, s')"
    from Suc.IH [OF far this] obtain r' where "Suc r < r'" "r' \<le> Suc r + fuel"
      "sent_so_far hs send env k s0 (concat (replicate r' (ts_mchains s0))) s'" by blast
    then show ?thesis by (intro exI [of _ r']) simp
  qed
qed (simp add: py_defs)

section \<open>Pace\<close>

text \<open>
  While the sliding window has not started to slide, every request of the test is in it, and the
  loop is never more than one message ahead of \<open>rps\<close>.
\<close>

definition on_pace :: "int \<Rightarrow> ('t, 'c) test_run \<Rightarrow> bool" where
  "on_pace rps s \<longleftrightarrow> start_time s \<le> ts_clock s \<and> (\<forall>u \<in> set (request_times s). start_time s \<le> u) \<and>
     (case current_time s of
        None \<Rightarrow> total_messages_count s = 0 \<and> request_times s = []
      | Some t \<Rightarrow> start_time s \<le> t \<and> t \<le> ts_clock s \<and>
          (t \<le> start_time s + time_window_sec \<longrightarrow>
             length (request_times s) = total_messages_count s \<and>
             of_nat (total_messages_count s) \<le> of_int rps * (t - start_time s) + 1 \<and>
             of_nat (total_messages_count s) \<le> of_int rps * (ts_clock s - start_time s)))"

definition in_window :: "('t, 'c) test_run \<Rightarrow> bool" where
  "in_window s \<longleftrightarrow> (case current_time s of None \<Rightarrow> True | Some t \<Rightarrow> t \<le> start_time s + time_window_sec)"

definition time_of :: "('t, 'c) test_run \<Rightarrow> time" where
  "time_of s = (case current_time s of None \<Rightarrow> start_time s | Some t \<Rightarrow> t)"

lemma on_pace_start:
  "start_time s \<le> ts_clock s \<Longrightarrow> current_time s = None \<Longrightarrow> total_messages_count s = 0 \<Longrightarrow>
   request_times s = [] \<Longrightarrow> on_pace rps s"
  by (simp add: on_pace_def)

lemma pace_bound:
  "0 < rps \<Longrightarrow> on_pace rps s \<Longrightarrow> in_window s \<Longrightarrow>
     of_nat (total_messages_count s) \<le> of_int rps * (ts_clock s - start_time s) \<and>
     length (request_times s) = total_messages_count s \<and>
     of_nat (total_messages_count s) \<le> of_int rps * (time_of s - start_time s) + 1"
  by (simp add: on_pace_def in_window_def time_of_def split: option.splits)

lemma pace_message:
  assumes rps: "0 < rps" and lags: "lags_ok env" and pace: "on_pace rps s"
    and run: "test_message hs send env rps k c s = (Inr x, s')"
  shows "on_pace rps s' \<and> start_time s' = start_time s \<and> ts_clock s \<le> time_of s' \<and>
    time_of s' \<le> ts_clock s' \<and> current_time s' \<noteq> None \<and> time_of s \<le> time_of s' \<and>
    total_messages_count s' = Suc (total_messages_count s)"
proof -
  from test_message_effect [OF run] lags obtain now where
    eff: "start_time s' = start_time s" "current_time s' = Some now"
      "total_messages_count s' = Suc (total_messages_count s)"
      "request_times s' = dropWhile (\<lambda>u. u < max (start_time s) (now - time_window_sec)) (request_times s @ [now])"
      "ts_clock s \<le> now" "now \<le> ts_clock s'"
      "of_int rps * (now - max (start_time s) (now - time_window_sec)) < of_nat (length (request_times s')) \<longrightarrow>
       window_full_until rps (length (request_times s')) (max (start_time s) (now - time_window_sec)) \<le> ts_clock s'"
    by blast
  have st: "start_time s \<le> ts_clock s" and req: "\<forall>u \<in> set (request_times s). start_time s \<le> u"
    using pace by (simp_all add: on_pace_def)
  have "time_of s \<le> ts_clock s"
    using pace by (simp add: on_pace_def time_of_def split: option.splits)
  then have mono: "time_of s \<le> now" using eff(5) by simp
  have req': "\<forall>u \<in> set (request_times s'). start_time s \<le> u"
    using req st eff(4,5) by (auto dest!: set_dropWhileD)
  have "length (request_times s') = Suc (total_messages_count s) \<and>
      of_nat (Suc (total_messages_count s)) \<le> of_int rps * (now - start_time s) + 1 \<and>
      of_nat (Suc (total_messages_count s)) \<le> of_int rps * (ts_clock s' - start_time s)"
    if win: "now \<le> start_time s + time_window_sec"
  proof -
    have "in_window s" using win mono by (simp add: in_window_def time_of_def split: option.splits)
    from pace_bound [OF rps pace this]
    have total: "of_nat (total_messages_count s) \<le> of_int rps * (ts_clock s - start_time s)"
      and len: "length (request_times s) = total_messages_count s" by simp_all
    have start: "max (start_time s) (now - time_window_sec) = start_time s" using win by simp
    have q: "request_times s' = request_times s @ [now]"
    proof (cases "request_times s")
      case Nil
      then show ?thesis using eff(4,5) start st by simp
    next
      case (Cons u us)
      then show ?thesis using eff(4) start req by simp
    qed
    have rps': "0 < (of_int rps :: time)" using rps by simp
    have "of_int rps * (ts_clock s - start_time s) \<le> of_int rps * (now - start_time s)"
      using rps' eff(5) by simp
    with total have one: "of_nat (Suc (total_messages_count s)) \<le> of_int rps * (now - start_time s) + 1"
      by simp
    have "of_nat (Suc (total_messages_count s)) \<le> of_int rps * (ts_clock s' - start_time s)"
    proof (cases "of_int rps * (now - start_time s) < of_nat (Suc (total_messages_count s))")
      case True
      then have "start_time s + of_nat (Suc (total_messages_count s)) / of_int rps \<le> ts_clock s'"
        using eff(7) unfolding start by (simp add: q len window_full_until_def)
      then have "of_nat (Suc (total_messages_count s)) / of_int rps \<le> ts_clock s' - start_time s"
        by simp
      then show ?thesis using rps' by (simp only: pos_divide_le_eq mult.commute)
    next
      case False
      moreover have "of_int rps * (now - start_time s) \<le> of_int rps * (ts_clock s' - start_time s)"
        using rps' eff(6) by simp
      ultimately show ?thesis by linarith
    qed
    with one q len show ?thesis by simp
  qed
  then show ?thesis using eff(1-3,5,6) st req' mono
    by (simp add: on_pace_def time_of_def)
qed

lemma pace_round:
  assumes "0 < rps" "lags_ok env"
  shows "on_pace rps s \<Longrightarrow> py_for ms (test_message hs send env rps k) s = (Inr x, s') \<Longrightarrow>
     on_pace rps s' \<and> start_time s' = start_time s \<and>
     total_messages_count s' = total_messages_count s + length ms \<and> time_of s \<le> time_of s' \<and>
     (ms \<noteq> [] \<longrightarrow> current_time s' \<noteq> None \<and> ts_clock s \<le> time_of s')"
proof (induction ms arbitrary: s)
  case (Cons m ms)
  from Cons.prems(2) obtain s1 where one: "test_message hs send env rps k m s = (Inr (), s1)"
    and rest: "py_for ms (test_message hs send env rps k) s1 = (Inr x, s')"
    by (auto simp: py_bind_def split: prod.splits sum.splits)
  note p = pace_message [OF assms Cons.prems(1) one]
  with Cons.IH [OF _ rest] have ih: "on_pace rps s'" "start_time s' = start_time s1"
    "total_messages_count s' = total_messages_count s1 + length ms" "time_of s1 \<le> time_of s'"
    "ms \<noteq> [] \<longrightarrow> current_time s' \<noteq> None" by simp_all
  have "current_time s' \<noteq> None"
    using ih(5) rest p by (cases "ms = []") (auto simp: py_defs)
  with p ih show ?case by auto
qed (simp add: py_defs)

text \<open>When the loop breaks, at the end of round that first goes past the duration.\<close>

lemma pace_loop:
  assumes rps: "0 < rps" and lags: "lags_ok env" and dur: "duration \<le> time_window_sec"
  shows "on_pace rps s \<Longrightarrow> time_of s \<le> start_time s + duration \<Longrightarrow>
     test_loop hs send env duration rps k fuel s = (Inr True, s') \<Longrightarrow>
     start_time s' + duration < time_of s' \<and> current_time s' \<noteq> None \<and>
     of_nat (total_messages_count s') \<le> of_int rps * (time_of s' - start_time s') + of_nat (length (ts_mchains s))"
proof (induction fuel arbitrary: s)
  case (Suc fuel)
  from Suc.prems(3) obtain s1 where round: "py_for (ts_mchains s) (test_message hs send env rps k) s = (Inr (), s1)"
    and cur: "current_time s1 \<noteq> None"
    and next_round: "if time_of s1 > start_time s1 + duration then s' = s1
      else test_loop hs send env duration rps k fuel s1 = (Inr True, s')"
    by (auto simp: py_bind_def py_gets_def py_return_def read_current_time_def time_of_def
        split: prod.splits sum.splits option.splits if_splits)
  note p = pace_round [OF rps lags Suc.prems(1) round]
  have "sent_so_far hs send env k s (ts_mchains s) s1"
    using sent_round [OF sent_start round] by simp
  then have ms: "ts_mchains s1 = ts_mchains s" by (simp add: sent_so_far_def)
  show ?case
  proof (cases "time_of s1 > start_time s1 + duration")
    case True
    have "in_window s" using Suc.prems(2) dur by (simp add: in_window_def time_of_def split: option.splits)
    from pace_bound [OF rps Suc.prems(1) this]
    have b: "of_nat (total_messages_count s) \<le> of_int rps * (ts_clock s - start_time s)" by simp
    have "ts_mchains s \<noteq> []"
      using True round Suc.prems(2) by (auto simp: py_defs)
    then have "ts_clock s \<le> time_of s1" using p by blast
    then have "of_int rps * (ts_clock s - start_time s) \<le> of_int rps * (time_of s1 - start_time s)"
      using rps by simp
    with b p True next_round cur show ?thesis by simp
  next
    case False
    with next_round have "test_loop hs send env duration rps k fuel s1 = (Inr True, s')" by simp
    from Suc.IH [OF _ _ this] p False ms show ?thesis by simp
  qed
qed (simp add: py_defs)

section \<open>Completion and the whole test\<close>

lemma perf_counter_effect:
  "\<exists>t s'. perf_counter env s = (Inr t, s') \<and> only_env s s' \<and> ts_clock s' = t \<and> ts_self s' = ts_self s \<and>
     ts_last_delivery_time s' = ts_last_delivery_time s \<and> ts_sleeps s' = ts_sleeps s \<and>
     ts_listening s' = ts_listening s \<and> (lags_ok env \<longrightarrow> ts_clock s \<le> t)"
  by (simp add: perf_counter_def Let_def only_env_def lags_ok_def)

lemma await_effect:
  "await_completion hs env completion_time fuel s = (Inr True, s') \<Longrightarrow>
     only_env s s' \<and> ts_last_delivery_time s' + completion_time \<le> ts_clock s' \<and>
     (\<exists>cs. ts_self s' = run_calls (hook_apply hs) (ts_self s) cs \<and> deliveries_of env cs \<and> hears hs env s cs s')"
proof (induction fuel arbitrary: s)
  case (Suc fuel)
  obtain now s1 where c: "perf_counter env s = (Inr now, s1)" "only_env s s1" "ts_clock s1 = now"
    "ts_self s1 = ts_self s" and same: "ts_listening s1 = ts_listening s" "ts_sleeps s1 = ts_sleeps s"
    using perf_counter_effect [of env s] by blast
  from same have start: "hears hs env s [] s1" by (rule hears_nothing) simp
  show ?case
  proof (cases "now < ts_last_delivery_time s1 + completion_time")
    case False
    with Suc.prems c have "s' = s1" by (simp add: py_bind_def py_gets_def py_return_def)
    with False c start show ?thesis by (intro conjI exI [of _ "[]"]) simp_all
  next
    case True
    let ?delay = "ts_last_delivery_time s1 + completion_time - now"
    from asyncio_sleep_effect [of hs env ?delay s1] obtain s2 cs where
      2: "asyncio_sleep hs env ?delay s1 = (Inr (), s2)" "only_env s1 s2"
        "ts_self s2 = run_calls (hook_apply hs) (ts_self s1) cs" "deliveries_of env cs"
        "hears hs env s1 cs s2" by blast
    with True Suc.prems c have "await_completion hs env completion_time fuel s2 = (Inr True, s')"
      by (simp add: py_bind_def py_gets_def)
    from Suc.IH [OF this] obtain ds where
      "only_env s2 s'" "ts_last_delivery_time s' + completion_time \<le> ts_clock s'"
      "ts_self s' = run_calls (hook_apply hs) (ts_self s2) ds" "deliveries_of env ds"
      and rest: "hears hs env s2 ds s'" by blast
    have "hears hs env s (cs @ ds) s'"
      using hears_trans [OF start _ hears_trans [OF 2(5,3) rest]] c(4) by simp
    with 2 c \<open>ts_self s' = _\<close> \<open>deliveries_of env ds\<close> \<open>only_env s2 s'\<close> \<open>ts_last_delivery_time s' + _ \<le> _\<close>
    show ?thesis using only_env_trans [OF c(2) only_env_trans [OF 2(2)]]
      by (intro conjI exI [of _ "cs @ ds"]) (simp_all add: run_calls_append)
  qed
qed (simp add: py_defs)

lemma tester_test_parts:
  assumes "tester_test hs get_result send env fuel duration rps completion_time k s = (Inr (Some (r, avg)), s')"
  shows "\<exists>t0 s1 s2 t1 s3. fst (on_test_start hs t0 (ts_self s)) = Inr () \<and>
    ts_self s1 = snd (on_test_start hs t0 (ts_self s)) \<and> ts_client s1 = ts_client s \<and>
    ts_generator s1 = ts_generator s \<and> ts_mchains s1 = ts_mchains s \<and> start_time s1 = ts_clock s1 \<and>
    request_times s1 = [] \<and> total_messages_count s1 = 0 \<and> current_time s1 = None \<and>
    ts_last_delivery_time s1 = ts_last_delivery_time s \<and>
    ts_listening s1 = ts_listening s \<and> ts_sleeps s1 = ts_sleeps s \<and>
    test_loop hs send env duration rps k fuel s1 = (Inr True, s2) \<and>
    time_of s2 \<noteq> start_time s2 \<and> avg = of_nat (total_messages_count s2) / (time_of s2 - start_time s2) \<and>
    fst (on_stop_sending hs t1 (ts_self s2)) = Inr () \<and>
    only_env s2 s3 \<and> ts_self s3 = snd (on_stop_sending hs t1 (ts_self s2)) \<and>
    ts_last_delivery_time s3 = ts_last_delivery_time s2 \<and> ts_clock s3 = t1 \<and> ts_sleeps s3 = ts_sleeps s2 \<and>
    ts_listening s3 = ts_listening s2 \<and>
    await_completion hs env completion_time fuel s3 = (Inr True, s') \<and> get_result (ts_self s') = Inr r"
proof -
  define t0 where "t0 = ts_clock s + env_lag env (ts_readings s)"
  obtain a b where st: "on_test_start hs t0 (ts_self s) = (a, b)" by fastforce
  define u where "u = t0 + env_lag env (Suc (ts_readings s))"
  define s1 where "s1 = s\<lparr>ts_self := b, ts_clock := u, ts_readings := Suc (Suc (ts_readings s)),
    start_time := u, request_times := [], total_messages_count := 0, previous_rps_report_time := u,
    current_time := None\<rparr>"
  obtain br s2 where loop: "test_loop hs send env duration rps k fuel s1 = (br, s2)" by fastforce
  define t1 where "t1 = ts_clock s2 + env_lag env (ts_readings s2)"
  obtain c d where stop: "on_stop_sending hs t1 (ts_self s2) = (c, d)" by fastforce
  define s3 where "s3 = s2\<lparr>ts_self := d, ts_clock := t1, ts_readings := Suc (ts_readings s2)\<rparr>"
  obtain co s4 where await: "await_completion hs env completion_time fuel s3 = (co, s4)" by fastforce
  have a: "a = Inr ()" using assms st
    by (cases a) (simp_all add: tester_test_def py_bind_def perf_counter_def on_self_def Let_def t0_def [symmetric])
  have "begin_test env (s\<lparr>ts_clock := t0, ts_readings := Suc (ts_readings s), ts_self := b\<rparr>) = (Inr (), s1)"
    by (simp add: begin_test_def py_bind_def perf_counter_def py_modify_def Let_def s1_def u_def)
  with assms st a have br: "br = Inr True"
    and rest: "py_bind average_rps (\<lambda>average.
         py_bind (py_bind (perf_counter env) (\<lambda>t. on_self (on_stop_sending hs t))) (\<lambda>_.
         py_bind (await_completion hs env completion_time fuel) (\<lambda>complete.
           if \<not> complete then py_return None else
             py_bind (py_gets ts_self) (\<lambda>self.
             py_bind (py_lift (get_result self)) (\<lambda>result.
               py_return (Some (result, average))))))) s2 = (Inr (Some (r, avg)), s')"
    using loop
    by (auto simp: tester_test_def py_bind_def [of "py_bind m f" g for m f g]
        py_bind_def [of "perf_counter env"] py_bind_def [of "begin_test env"]
        py_bind_def [of "test_loop hs send env duration rps k fuel"]
        perf_counter_def on_self_def Let_def t0_def [symmetric] py_return_def
        split: sum.splits if_splits)
  from rest have avg: "time_of s2 \<noteq> start_time s2" "avg = of_nat (total_messages_count s2) / (time_of s2 - start_time s2)"
    by (auto simp: average_rps_def py_bind_def py_gets_def py_lift_def py_return_def read_current_time_def
        time_of_def split: option.splits if_splits sum.splits prod.splits)
  have s3: "s2\<lparr>ts_clock := t1, ts_readings := Suc (ts_readings s2), ts_self := d\<rparr> = s3"
    by (simp add: s3_def)
  from rest avg(1) stop await have c: "c = Inr ()" and co: "co = Inr True" "s' = s4"
    and res: "get_result (ts_self s4) = Inr r"
    by (auto simp: average_rps_def py_bind_def py_gets_def py_lift_def py_return_def read_current_time_def
        time_of_def perf_counter_def on_self_def Let_def t1_def [symmetric] s3
        split: option.splits if_splits sum.splits prod.splits)
  have "only_env s2 s3" by (simp add: s3_def only_env_def)
  with st a loop br avg stop c await co res show ?thesis
    by (intro exI [of _ t0] exI [of _ s1] exI [of _ s2] exI [of _ t1] exI [of _ s3])
      (simp add: s1_def s3_def)
qed

section \<open>The contract between a test, its client and its subclass\<close>

text \<open>
  What makes \<open>test\<close> return: the client takes as many messages as its budget allows, the hooks take
  the messages the test makes, and no delivery, raising or not, breaks them.
\<close>

lemma throttle_returns: "rps \<noteq> 0 \<Longrightarrow> \<exists>s'. throttle hs env rps elapsed s = (Inr (), s')"
proof -
  assume rps: "rps \<noteq> 0"
  have "\<exists>s'. asyncio_sleep hs env d s = (Inr (), s')" for d
    using asyncio_sleep_effect [of hs env d s] by blast
  with rps show ?thesis
    by (simp add: throttle_def test_delay_def py_bind_def py_gets_def py_when_def py_return_def py_lift_def)
qed

lemma test_message_returns:
  assumes rps: "rps \<noteq> 0"
    and snt: "send c (message_data k (fst (gen_next (ts_generator s)))) (ts_client s) = (Inr (), cl)"
    and hk: "\<And>t. fst (on_send hs t c (message_data k (fst (gen_next (ts_generator s)))) (ts_self s)) = Inr ()"
  shows "\<exists>s'. test_message hs send env rps k c s = (Inr (), s')"
proof -
  obtain w g where gen: "gen_next (ts_generator s) = (w, g)" by fastforce
  define t where "t = ts_clock s + env_lag env (ts_readings s)"
  define now where "now = t + env_lag env (Suc (ts_readings s))"
  obtain a where a: "on_send hs t c (message_data k w) (ts_self s) = (Inr (), a)"
    using hk [of t] gen by (metis fst_conv prod.collapse)
  define s0 where "s0 = s\<lparr>ts_generator := g, ts_client := cl, ts_self := a, ts_clock := now,
    ts_readings := ts_readings s + 2\<rparr>"
  obtain s' where "throttle hs env rps (now - max (start_time s) (now - time_window_sec)) (noted now s0) = (Inr (), s')"
    using throttle_returns [OF rps] by blast
  then have "test_message hs send env rps k c s = (Inr (), s')"
    using snt a gen
    by (simp add: test_message_def next_message_def on_client_def on_self_def py_bind_def py_return_def
        perf_counter_def note_request_eq py_gets_def interval_start_def
        t_def [symmetric] now_def [symmetric] s0_def Let_def split: prod.splits sum.splits)
      (simp add: noted_def s0_def Let_def split: prod.splits sum.splits)
  then show ?thesis by blast
qed

lemma first_message_fails:
  assumes snt: "send h (message_data k (fst (gen_next (ts_generator s)))) (ts_client s) = (Inr (), c)"
    and hk: "\<And>u. fst (on_send hs u h (message_data k (fst (gen_next (ts_generator s)))) (ts_self s)) = Inr ()"
    and first: "total_messages_count s = 0" and lags: "lags_ok env" and late: "start_time s \<le> ts_clock s"
  shows "\<exists>s'. test_message hs send env 0 k h s = (Inl ZeroDivisionError, s') \<and> ts_client s' = c \<and>
    total_messages_count s' = 1"
proof -
  obtain w g where gen: "gen_next (ts_generator s) = (w, g)" by fastforce
  define t where "t = ts_clock s + env_lag env (ts_readings s)"
  define now where "now = t + env_lag env (Suc (ts_readings s))"
  obtain a where a: "on_send hs t h (message_data k w) (ts_self s) = (Inr (), a)"
    using hk [of t] gen by (metis fst_conv prod.collapse)
  define s0 where "s0 = s\<lparr>ts_generator := g, ts_client := c, ts_self := a, ts_clock := now,
    ts_readings := ts_readings s + 2\<rparr>"
  have "start_time s \<le> now" using late lags by (simp add: now_def t_def lags_ok_def add_increasing2)
  then have "request_times (noted now s0) \<noteq> []"
    by (simp add: noted_def s0_def Let_def time_window_sec_def not_less)
  then have "throttle hs env 0 (now - max (start_time s) (now - time_window_sec)) (noted now s0) =
      (Inl ZeroDivisionError, noted now s0)"
    by (simp add: throttle_def test_delay_def py_bind_def py_gets_def py_raise_def)
  then have "test_message hs send env 0 k h s = (Inl ZeroDivisionError, noted now s0)"
    using snt a gen
    by (simp add: test_message_def next_message_def on_client_def on_self_def py_bind_def py_return_def
        perf_counter_def note_request_eq py_gets_def interval_start_def
        t_def [symmetric] now_def [symmetric] s0_def Let_def split: prod.splits sum.splits)
      (simp add: noted_def s0_def Let_def split: prod.splits sum.splits)
  moreover have "ts_client (noted now s0) = c" "total_messages_count (noted now s0) = 1"
    using first by (simp_all add: noted_def s0_def Let_def)
  ultimately show ?thesis by blast
qed

locale test_subject =
  fixes hs :: "'t hooks"
    and send :: "int \<Rightarrow> byte list \<Rightarrow> ('c, unit) py"
    and get_result :: "'t \<Rightarrow> 'r res"
    and subject_chains :: "int set"
    and idle :: "'t \<Rightarrow> bool"
    and ready :: "'t \<Rightarrow> bool"
    and budget :: "nat \<Rightarrow> 'c \<Rightarrow> bool"
  assumes budget_less: "budget (n + m) c \<Longrightarrow> budget n c"
    and start_ok: "idle t \<Longrightarrow> fst (on_test_start hs u t) = Inr () \<and> ready (snd (on_test_start hs u t))"
    and send_ok: "budget (Suc n) c \<Longrightarrow> h \<in> subject_chains \<Longrightarrow>
      fst (send h (message_data k w) c) = Inr () \<and> budget n (snd (send h (message_data k w) c))"
    and hook_ok: "ready t \<Longrightarrow> h \<in> subject_chains \<Longrightarrow>
      fst (on_send hs u h (message_data k w) t) = Inr () \<and> ready (snd (on_send hs u h (message_data k w) t))"
    and delivery_keeps: "ready t \<Longrightarrow> ready (snd (on_delivery hs u h i d t))"
    and stop_ok: "ready t \<Longrightarrow> fst (on_stop_sending hs u t) = Inr () \<and> ready (snd (on_stop_sending hs u t))"
    and result_ok: "ready t \<Longrightarrow> \<exists>r. get_result t = Inr r"
    and ready_idle: "ready t \<Longrightarrow> idle t"
begin

lemma deliveries_keep: "deliveries_of env cs \<Longrightarrow> ready t \<Longrightarrow> ready (run_calls (hook_apply hs) t cs)"
  by (induction cs arbitrary: t) (auto simp: deliveries_of_def delivery_keeps)

lemma message_goes:
  assumes "rps \<noteq> 0" "ready (ts_self s)" "budget (Suc n) (ts_client s)" "h \<in> subject_chains"
  shows "\<exists>s'. test_message hs send env rps k h s = (Inr (), s') \<and> ready (ts_self s') \<and>
    budget n (ts_client s') \<and> ts_mchains s' = ts_mchains s"
proof -
  let ?d = "message_data k (fst (gen_next (ts_generator s)))"
  have snt: "send h ?d (ts_client s) = (Inr (), snd (send h ?d (ts_client s)))"
    using send_ok [OF assms(3,4)] by (metis prod.collapse)
  have "\<exists>s'. test_message hs send env rps k h s = (Inr (), s')"
    by (rule test_message_returns [where s = s and send = send and c = h and k = k, OF assms(1) snt])
      (simp add: hook_ok [OF assms(2,4)])
  then obtain s' where s': "test_message hs send env rps k h s = (Inr (), s')" by blast
  from test_message_effect [OF this] obtain t cs where
    "ts_self s' = run_calls (hook_apply hs) (ts_self s) (Send t h ?d # cs)" "deliveries_of env cs"
    "send h ?d (ts_client s) = (Inr (), ts_client s')" "ts_mchains s' = ts_mchains s" by blast
  with s' hook_ok [OF assms(2,4)] send_ok [OF assms(3,4)] deliveries_keep show ?thesis
    by (metis hook_apply.simps(2) run_calls_simps(2) snd_conv)
qed

lemma round_goes:
  assumes "rps \<noteq> 0"
  shows "ready (ts_self s) \<Longrightarrow> budget (n + length ms) (ts_client s) \<Longrightarrow> set ms \<subseteq> subject_chains \<Longrightarrow>
    \<exists>s'. py_for ms (test_message hs send env rps k) s = (Inr (), s') \<and> ready (ts_self s') \<and>
      budget n (ts_client s') \<and> ts_mchains s' = ts_mchains s"
proof (induction ms arbitrary: s)
  case (Cons m ms)
  then obtain s1 where 1: "test_message hs send env rps k m s = (Inr (), s1)" "ready (ts_self s1)"
    "budget (n + length ms) (ts_client s1)" "ts_mchains s1 = ts_mchains s"
    using message_goes [OF assms, of s "n + length ms" m env k] by auto
  with Cons.IH [of s1] Cons.prems(3) show ?case by (simp add: py_bind_def)
qed (simp add: py_defs)

text \<open>The loop cannot go on for more rounds than the rate allows messages.\<close>

lemma loop_goes:
  assumes rps: "0 < rps" and lags: "lags_ok env" and dur: "duration \<le> time_window_sec"
  shows "ready (ts_self s) \<Longrightarrow> budget (N + fuel * length (ts_mchains s)) (ts_client s) \<Longrightarrow>
    set (ts_mchains s) \<subseteq> subject_chains \<Longrightarrow> ts_mchains s \<noteq> [] \<Longrightarrow> on_pace rps s \<Longrightarrow>
    of_int rps * duration + 1 < of_nat (fuel + total_messages_count s) \<Longrightarrow> 0 < fuel \<Longrightarrow>
    \<exists>s'. test_loop hs send env duration rps k fuel s = (Inr True, s') \<and> ready (ts_self s') \<and> budget N (ts_client s')"
proof (induction fuel arbitrary: s)
  case (Suc fuel)
  have "budget ((N + fuel * length (ts_mchains s)) + length (ts_mchains s)) (ts_client s)"
    using Suc.prems(2) by (simp add: ac_simps)
  from round_goes [OF _ Suc.prems(1) this Suc.prems(3), of rps env k] rps obtain s1 where
    1: "py_for (ts_mchains s) (test_message hs send env rps k) s = (Inr (), s1)" "ready (ts_self s1)"
      "budget (N + fuel * length (ts_mchains s)) (ts_client s1)" "ts_mchains s1 = ts_mchains s" by auto
  note p = pace_round [OF rps lags Suc.prems(5) 1(1)]
  with Suc.prems(4) obtain t where t: "current_time s1 = Some t" by auto
  show ?case
  proof (cases "t > start_time s1 + duration")
    case True
    with 1 t budget_less [OF 1(3)] show ?thesis
      by (simp add: py_bind_def py_gets_def read_current_time_def py_return_def)
  next
    case False
    with dur t have "in_window s1" by (simp add: in_window_def)
    from pace_bound [OF rps _ this] p have
      "of_nat (total_messages_count s1) \<le> of_int rps * (time_of s1 - start_time s1) + 1" by blast
    also have "\<dots> \<le> of_int rps * duration + 1"
      using False t rps by (simp add: time_of_def)
    finally have few: "of_nat (total_messages_count s1) \<le> of_int rps * duration + 1" .
    have pos: "1 \<le> length (ts_mchains s)" using Suc.prems(4) by (cases "ts_mchains s") simp_all
    have more: "of_int rps * duration + 1 < of_nat (fuel + total_messages_count s1)"
    proof -
      have "Suc fuel + total_messages_count s \<le> fuel + total_messages_count s1" using p pos by simp
      then have "(of_nat (Suc fuel + total_messages_count s) :: time) \<le> of_nat (fuel + total_messages_count s1)"
        by (simp only: of_nat_le_iff)
      with Suc.prems(6) show ?thesis by (rule less_le_trans)
    qed
    with few have "0 < fuel" by (cases fuel) simp_all
    from Suc.IH [of s1] this more 1 p Suc.prems(3,4) obtain s' where
      "test_loop hs send env duration rps k fuel s1 = (Inr True, s')" "ready (ts_self s')" "budget N (ts_client s')"
      by auto
    with False 1 t show ?thesis
      by (simp add: py_bind_def py_gets_def read_current_time_def py_return_def)
  qed
qed simp

lemma await_done:
  "lags_ok env \<Longrightarrow> ts_last_delivery_time s + completion_time \<le> ts_clock s \<Longrightarrow>
   \<exists>s'. await_completion hs env completion_time (Suc fuel) s = (Inr True, s') \<and> ts_self s' = ts_self s"
proof -
  assume lags: "lags_ok env" and late: "ts_last_delivery_time s + completion_time \<le> ts_clock s"
  obtain now s1 where c: "perf_counter env s = (Inr now, s1)" "ts_self s1 = ts_self s"
    "ts_last_delivery_time s1 = ts_last_delivery_time s" "ts_clock s \<le> now"
    using perf_counter_effect [of env s] lags by blast
  then have "\<not> now < ts_last_delivery_time s1 + completion_time" using late by simp
  with c show ?thesis by (simp add: py_bind_def py_gets_def py_return_def)
qed

lemma await_goes:
  assumes lags: "lags_ok env" and quiet: "\<And>n. K \<le> n \<Longrightarrow> env_arrivals env n = []"
  shows "ready (ts_self s) \<Longrightarrow> K - ts_sleeps s + 2 \<le> fuel \<Longrightarrow>
    \<exists>s'. await_completion hs env completion_time fuel s = (Inr True, s') \<and> ready (ts_self s')"
proof (induction fuel arbitrary: s)
  case (Suc fuel)
  obtain now s1 where c: "perf_counter env s = (Inr now, s1)" "ts_clock s1 = now"
    "ts_self s1 = ts_self s" "ts_last_delivery_time s1 = ts_last_delivery_time s"
    "ts_sleeps s1 = ts_sleeps s" using perf_counter_effect [of env s] by blast
  show ?case
  proof (cases "now < ts_last_delivery_time s1 + completion_time")
    case False
    with c Suc.prems show ?thesis by (simp add: py_bind_def py_gets_def py_return_def)
  next
    case True
    let ?delay = "ts_last_delivery_time s1 + completion_time - now"
    from asyncio_sleep_effect [of hs env ?delay s1] obtain s2 cs where
      2: "asyncio_sleep hs env ?delay s1 = (Inr (), s2)" "ts_sleeps s2 = Suc (ts_sleeps s)"
        "ts_self s2 = run_calls (hook_apply hs) (ts_self s) cs" "deliveries_of env cs"
        "ts_clock s1 + ?delay \<le> ts_clock s2"
        "env_arrivals env (ts_sleeps s) = [] \<longrightarrow> ts_last_delivery_time s2 = ts_last_delivery_time s1"
      using c by auto
    have ready: "ready (ts_self s2)" using 2(3) deliveries_keep [OF 2(4) Suc.prems(1)] by simp
    have run: "await_completion hs env completion_time (Suc fuel) s =
        await_completion hs env completion_time fuel s2"
      using True c 2(1) by (simp add: py_bind_def py_gets_def)
    show ?thesis
    proof (cases "K \<le> ts_sleeps s")
      case True
      then have "ts_last_delivery_time s2 + completion_time \<le> ts_clock s2"
        using 2(5,6) quiet c by simp
      moreover obtain f where "fuel = Suc f" using Suc.prems(2) by (cases fuel) auto
      ultimately show ?thesis using await_done [OF lags, of s2 completion_time f] run ready by auto
    next
      case False
      with Suc.IH [OF ready] Suc.prems(2) 2(2) run show ?thesis by simp
    qed
  qed
qed simp

lemma test_goes_on:
  assumes rps: "0 < rps" and dur: "0 \<le> duration" "duration \<le> time_window_sec" and lags: "lags_ok env"
    and quiet: "\<And>n. K \<le> n \<Longrightarrow> env_arrivals env n = []"
    and fuel: "of_int rps * duration + 1 < (of_nat fuel :: time)" "K + 2 \<le> fuel"
    and subj: "idle (ts_self s)" "budget (N + fuel * length (ts_mchains s)) (ts_client s)"
      "set (ts_mchains s) \<subseteq> subject_chains" "ts_mchains s \<noteq> []"
  shows "\<exists>r avg s'. tester_test hs get_result send env fuel duration rps completion_time k s =
    (Inr (Some (r, avg)), s') \<and> ready (ts_self s') \<and> budget N (ts_client s')"
proof -
  obtain t0 s0 where c0: "perf_counter env s = (Inr t0, s0)" "only_env s s0" "ts_self s0 = ts_self s"
    using perf_counter_effect [of env s] by blast
  define b where "b = snd (on_test_start hs t0 (ts_self s))"
  have b: "on_test_start hs t0 (ts_self s) = (Inr (), b)" "ready b"
    using start_ok [OF subj(1), of t0] by (auto simp: b_def prod_eq_iff)
  obtain u s1 where c1: "perf_counter env (s0\<lparr>ts_self := b\<rparr>) = (Inr u, s1)"
    "only_env (s0\<lparr>ts_self := b\<rparr>) s1" "ts_clock s1 = u" "ts_self s1 = b"
    using perf_counter_effect [of env "s0\<lparr>ts_self := b\<rparr>"] by auto
  let ?s2 = "s1\<lparr>start_time := u, request_times := [], total_messages_count := 0,
    previous_rps_report_time := u, current_time := None\<rparr>"
  have ms: "ts_mchains ?s2 = ts_mchains s" "ts_client ?s2 = ts_client s"
    using only_env_fields [OF c1(2)] only_env_fields [OF c0(2)] by simp_all
  have pace: "on_pace rps ?s2" using c1(3) by (intro on_pace_start) simp_all
  have fuel_pos: "0 < fuel" using fuel(2) by simp
  obtain s3 where loop: "test_loop hs send env duration rps k fuel ?s2 = (Inr True, s3)" "ready (ts_self s3)"
    "budget N (ts_client s3)"
    using loop_goes [OF rps lags dur(2), of ?s2 N fuel k] b(2) c1(4) ms subj pace fuel(1) fuel_pos by auto
  have "time_of s3 \<noteq> start_time s3" "current_time s3 \<noteq> None"
    using pace_loop [OF rps lags dur(2) pace _ loop(1)] dur(1) by (simp_all add: time_of_def)
  then obtain avg where avg: "average_rps s3 = (Inr avg, s3)"
    by (auto simp: average_rps_def py_bind_def py_gets_def py_lift_def read_current_time_def time_of_def)
  obtain t1 s4 where c3: "perf_counter env s3 = (Inr t1, s4)" "ts_self s4 = ts_self s3" "only_env s3 s4"
    using perf_counter_effect [of env s3] by blast
  obtain d where d: "on_stop_sending hs t1 (ts_self s3) = (Inr (), d)" "ready d"
    using stop_ok [OF loop(2), of t1] by (metis prod.collapse)
  have "K - ts_sleeps (s4\<lparr>ts_self := d\<rparr>) + 2 \<le> fuel" using fuel(2) by simp
  from await_goes [OF lags quiet _ this] d(2) obtain s5 where
    await: "await_completion hs env completion_time fuel (s4\<lparr>ts_self := d\<rparr>) = (Inr True, s5)" "ready (ts_self s5)"
    by auto
  have "only_env (s4\<lparr>ts_self := d\<rparr>) s5" using await_effect [OF await(1)] by blast
  then have "budget N (ts_client s5)" using only_env_fields [OF c3(3)] loop(3) by (simp add: only_env_fields)
  moreover obtain r where "get_result (ts_self s5) = Inr r" using result_ok [OF await(2)] by blast
  ultimately show ?thesis using c0 b c1 loop avg c3 d await
    by (simp add: tester_test_def begin_test_def py_bind_def py_modify_def on_self_def py_gets_def py_lift_def
        py_return_def)
qed

lemma test_goes:
  assumes "0 < rps" "0 \<le> duration" "duration \<le> time_window_sec" "lags_ok env"
    and "\<And>n. K \<le> n \<Longrightarrow> env_arrivals env n = []"
    and "of_int rps * duration + 1 < (of_nat fuel :: time)" "K + 2 \<le> fuel"
    and "idle (ts_self s)" "budget (fuel * length (ts_mchains s)) (ts_client s)"
      "set (ts_mchains s) \<subseteq> subject_chains" "ts_mchains s \<noteq> []"
  shows "\<exists>r avg s'. tester_test hs get_result send env fuel duration rps completion_time k s =
    (Inr (Some (r, avg)), s') \<and> ready (ts_self s')"
  using test_goes_on [where N = 0, unfolded add_0, OF assms] by blast

end

section \<open>The base classes\<close>

text \<open>\<open>Client.send\<close> of client/client.py does nothing; \<open>Tester.get_result\<close> returns \<open>None\<close>.\<close>

definition client_send :: "int \<Rightarrow> byte list \<Rightarrow> ('c, unit) py" where
  "client_send m_chain_hash data = py_return ()"

definition base_get_result :: "'t \<Rightarrow> unit res" where
  "base_get_result t = Inr ()"

interpretation base: test_subject base_hooks client_send base_get_result UNIV
  "\<lambda>_. True" "\<lambda>_. True" "\<lambda>_ _. True"
  by unfold_locales (simp_all add: base_hooks_def client_send_def base_get_result_def py_return_def)

definition sample_tester :: "(unit, unit) test_run" where
  "sample_tester = \<lparr>ts_mchains = [5, 6], ts_client = (), ts_generator = string_generator,
     ts_last_delivery_time = 0, ts_listening = True, ts_self = (), ts_clock = 9, ts_readings = 0,
     ts_sleeps = 0, start_time = 0, request_times = [], total_messages_count = 0,
     previous_rps_report_time = 0, current_time = None\<rparr>"

definition sample_env :: test_env where
  "sample_env = \<lparr>env_lag = (\<lambda>n. if even n then 1 else 0),
     env_arrivals = (\<lambda>n. if n = 0 then [(5, 0, [120])] else [])\<rparr>"

lemma sample_returns:
  "\<exists>r avg s'. tester_test base_hooks base_get_result client_send sample_env 50 3 2 2 0 sample_tester =
     (Inr (Some (r, avg)), s')"
proof -
  have "\<exists>r avg s'. tester_test base_hooks base_get_result client_send sample_env 50 3 2 2 0 sample_tester =
     (Inr (Some (r, avg)), s') \<and> True"
    by (rule base.test_goes [where K = 1])
      (simp_all add: time_window_sec_def lags_ok_def sample_env_def sample_tester_def)
  then show ?thesis by blast
qed

lemma sample_lags: "lags_ok sample_env"
  by (simp add: lags_ok_def sample_env_def)

lemma tester_test_calls:
  assumes "tester_test hs get_result send env fuel duration rps completion_time k s =
    (Inr (Some (result, avg)), s')"
  shows "\<exists>t0 cs t1 ds r. 0 < r \<and>
    ts_self s' = run_calls (hook_apply hs) (ts_self s) (TestStart t0 # cs @ StopSending t1 # ds) \<and>
    in_loop env cs \<and> deliveries_of env ds \<and>
    sends cs = words_to k (ts_generator s) (concat (replicate r (ts_mchains s))) \<and>
    all_return (\<lambda>q. send (fst q) (snd q)) (ts_client s) (sends cs) \<and>
    ts_client s' = run_calls (\<lambda>q. send (fst q) (snd q)) (ts_client s) (sends cs) \<and>
    get_result (ts_self s') = Inr result \<and> total_messages_count s' = length (sends cs) \<and>
    hears hs env s (TestStart t0 # cs @ StopSending t1 # ds) s'"
proof -
  from tester_test_parts [OF assms] obtain t0 s1 s2 t1 s3 where
    1: "ts_self s1 = snd (on_test_start hs t0 (ts_self s))" "ts_client s1 = ts_client s"
      "ts_generator s1 = ts_generator s" "ts_mchains s1 = ts_mchains s" "total_messages_count s1 = 0"
      "ts_listening s1 = ts_listening s" "ts_sleeps s1 = ts_sleeps s"
    and loop: "test_loop hs send env duration rps k fuel s1 = (Inr True, s2)"
    and 3: "only_env s2 s3" "ts_self s3 = snd (on_stop_sending hs t1 (ts_self s2))"
      "ts_listening s3 = ts_listening s2" "ts_sleeps s3 = ts_sleeps s2"
    and await: "await_completion hs env completion_time fuel s3 = (Inr True, s')"
    and res: "get_result (ts_self s') = Inr result" by blast
  have zero: "sent_so_far hs send env k s1 (concat (replicate 0 (ts_mchains s1))) s1"
    by (simp add: sent_start)
  from sent_loop [OF zero loop] obtain r where
    r: "0 < r" "sent_so_far hs send env k s1 (concat (replicate r (ts_mchains s))) s2"
    unfolding 1(4) by blast
  then obtain cs where cs: "ts_self s2 = run_calls (hook_apply hs) (ts_self s1) cs" "in_loop env cs"
    "sends cs = words_to k (ts_generator s) (concat (replicate r (ts_mchains s)))" "hears hs env s1 cs s2"
    using 1(3) by (auto simp: sent_so_far_def)
  from await_effect [OF await] obtain ds where ds: "only_env s3 s'"
    "ts_self s' = run_calls (hook_apply hs) (ts_self s3) ds" "deliveries_of env ds" "hears hs env s3 ds s'" by blast
  have hear: "hears hs env s ([TestStart t0] @ cs @ [StopSending t1] @ ds) s'"
    by (rule hears_trans [OF hears_nothing _ hears_trans [OF cs(4,1) hears_trans [OF hears_nothing _ ds(4)]]])
      (simp_all add: 1 3)
  have len: "length (sends cs) = total_messages_count s2"
    using r(2) 1(5) by (simp add: cs(3) sent_so_far_def words_to_def)
  show ?thesis
    using r cs(1-3) ds(1-3) 1 3 res len hear only_env_fields [OF ds(1)] only_env_fields [OF 3(1)]
    by (intro exI [of _ t0] exI [of _ cs] exI [of _ t1] exI [of _ ds] exI [of _ r])
      (simp add: run_calls_append sent_so_far_def)
qed

text \<open>A test that reads the clock faster than its rate lets it send has slept.\<close>

lemma first_message_sleeps:
  assumes run: "test_message hs send env rps k c s = (Inr x, s')"
    and start: "request_times s = []" "start_time s = ts_clock s"
    and fast: "\<And>n. 0 \<le> env_lag env n" "\<And>n. env_lag env n + env_lag env (Suc n) < time_window_sec"
      "\<And>n. of_int rps * (env_lag env n + env_lag env (Suc n)) < 1"
  shows "ts_sleeps s < ts_sleeps s'"
proof -
  let ?lags = "env_lag env (ts_readings s) + env_lag env (Suc (ts_readings s))"
  from test_message_effect [OF run] obtain now where
    now: "now = ts_clock s + env_lag env (ts_readings s) + env_lag env (Suc (ts_readings s))"
    and eff: "request_times s' = dropWhile (\<lambda>u. u < max (start_time s) (now - time_window_sec)) (request_times s @ [now])"
      "of_int rps * (now - max (start_time s) (now - time_window_sec)) < of_nat (length (request_times s')) \<longrightarrow>
       ts_sleeps s < ts_sleeps s'" by blast
  have lags: "0 \<le> ?lags" "?lags < time_window_sec" "of_int rps * ?lags < 1" using fast by simp_all
  have "now = start_time s + ?lags" using now start(2) by simp
  with lags(2) have window: "max (start_time s) (now - time_window_sec) = start_time s" by simp
  have "request_times s' = [now]"
    using eff(1) start(1) window lags(1) \<open>now = start_time s + ?lags\<close> by simp
  with eff(2) window lags(3) \<open>now = start_time s + ?lags\<close> show ?thesis by simp
qed

lemma tester_test_sleeps:
  assumes run: "tester_test hs get_result send env fuel duration rps completion_time k s =
      (Inr (Some (result, avg)), s')" and ms: "ts_mchains s \<noteq> []"
    and fast: "\<And>n. 0 \<le> env_lag env n" "\<And>n. env_lag env n + env_lag env (Suc n) < time_window_sec"
      "\<And>n. of_int rps * (env_lag env n + env_lag env (Suc n)) < 1"
  shows "ts_sleeps s < ts_sleeps s'"
proof -
  from tester_test_parts [OF run] obtain s1 s2 s3 where
    1: "ts_mchains s1 = ts_mchains s" "start_time s1 = ts_clock s1" "request_times s1 = []" "ts_sleeps s1 = ts_sleeps s"
    and loop: "test_loop hs send env duration rps k fuel s1 = (Inr True, s2)"
    and 3: "ts_sleeps s3 = ts_sleeps s2"
    and await: "await_completion hs env completion_time fuel s3 = (Inr True, s')" by blast
  obtain f where f: "fuel = Suc f" using loop by (cases fuel) (auto simp: py_return_def)
  obtain h hs' where h: "ts_mchains s1 = h # hs'" using 1(1) ms by (metis neq_Nil_conv)
  from loop obtain sa sb where first: "test_message hs send env rps k h s1 = (Inr (), sa)"
    and rest: "py_for hs' (test_message hs send env rps k) sa = (Inr (), sb)"
    and more: "s2 = sb \<or> test_loop hs send env duration rps k f sb = (Inr True, s2)"
    by (auto simp: f h py_bind_def py_gets_def py_return_def read_current_time_def
        split: prod.splits sum.splits option.splits if_splits)
  have mono: "ts_sleeps u \<le> ts_sleeps v" if "sent_so_far hs send env k u dests v" for dests u v
    using that by (auto simp: sent_so_far_def hears_def)
  have "ts_sleeps sa \<le> ts_sleeps sb" using mono sent_round [OF sent_start rest] by blast
  moreover have "ts_sleeps sb \<le> ts_sleeps s2"
    using more sent_loop [where r = 0 and s = sb and ?s0.0 = sb, simplified, OF sent_start] mono by blast
  moreover have "ts_sleeps s3 \<le> ts_sleeps s'" using await_effect [OF await] by (auto simp: hears_def)
  ultimately show ?thesis using first_message_sleeps [OF first 1(3,2) fast] 1(4) 3 by simp
qed

lemma tester_test_rate:
  assumes run: "tester_test hs get_result send env fuel duration rps completion_time k s =
    (Inr (Some (result, avg)), s')"
    and "0 < rps" and "lags_ok env" and "0 < duration" and "duration \<le> time_window_sec"
  shows "0 \<le> avg \<and> avg \<le> of_int rps + of_nat (length (ts_mchains s)) / duration"
proof -
  from tester_test_parts [OF run] obtain s1 s2 where
    1: "ts_mchains s1 = ts_mchains s" "start_time s1 = ts_clock s1" "request_times s1 = []"
      "total_messages_count s1 = 0" "current_time s1 = None"
    and loop: "test_loop hs send env duration rps k fuel s1 = (Inr True, s2)"
    and avg: "avg = of_nat (total_messages_count s2) / (time_of s2 - start_time s2)" by blast
  have "on_pace rps s1" using 1 by (intro on_pace_start) simp_all
  from pace_loop [OF assms(2,3,5) this _ loop] 1 assms(4)
  have late: "duration < time_of s2 - start_time s2"
    and total: "of_nat (total_messages_count s2) \<le>
      of_int rps * (time_of s2 - start_time s2) + (of_nat (length (ts_mchains s)) :: time)"
    by (simp_all add: time_of_def)
  define T where "T = time_of s2 - start_time s2"
  have T: "0 < T" "duration < T" using late assms(4) by (simp_all add: T_def)
  have "avg \<le> (of_int rps * T + of_nat (length (ts_mchains s))) / T"
    using total T(1) by (simp add: avg T_def [symmetric] divide_right_mono)
  also have "\<dots> = of_int rps + of_nat (length (ts_mchains s)) / T"
    using T(1) by (simp add: add_divide_distrib)
  also have "\<dots> \<le> of_int rps + of_nat (length (ts_mchains s)) / duration"
    using T assms(4) by (simp add: divide_left_mono)
  finally show ?thesis using T(1) by (simp add: avg T_def [symmetric])
qed

lemma tester_test_frame:
  assumes "tester_test hs get_result send env fuel duration rps completion_time k s =
    (Inr (Some (result, avg)), s')"
  shows "ts_mchains s' = ts_mchains s \<and> (\<exists>n. ts_generator s' = after gen_next n (ts_generator s))"
proof -
  from tester_test_parts [OF assms] obtain s1 s2 s3 where
    1: "ts_generator s1 = ts_generator s" "ts_mchains s1 = ts_mchains s"
    and loop: "test_loop hs send env duration rps k fuel s1 = (Inr True, s2)"
    and 3: "only_env s2 s3"
    and await: "await_completion hs env completion_time fuel s3 = (Inr True, s')" by blast
  have zero: "sent_so_far hs send env k s1 (concat (replicate 0 (ts_mchains s1))) s1"
    by (simp add: sent_start)
  from sent_loop [OF zero loop] obtain r where
    "sent_so_far hs send env k s1 (concat (replicate r (ts_mchains s1))) s2" by blast
  then have "ts_mchains s2 = ts_mchains s" "\<exists>n. ts_generator s2 = after gen_next n (ts_generator s)"
    using 1 by (auto simp: sent_so_far_def)
  moreover have "only_env s3 s'" using await_effect [OF await] by blast
  ultimately show ?thesis using only_env_fields [OF 3] only_env_fields [of s3 s'] by simp
qed

section \<open>Properties\<close>

text \<open>
  C15. What a finished test did.  The subclass saw \<open>on_test_start\<close>, then sends mixed with deliveries
  from the listener, then \<open>on_stop_sending\<close>, then deliveries only.  The sends went round-robin over the
  chains for a whole number of rounds, each with the next word of the generator; the client returned
  from exactly the same sends in the same order; and the result is \<open>get_result\<close> of what the
  subclass has become.
\<close>

theorem test_calls:
  assumes "tester_test hs get_result send env fuel duration rps completion_time k s =
    (Inr (Some (result, avg)), s')"
  shows "\<exists>t0 cs t1 ds r. 0 < r \<and>
    ts_self s' = run_calls (hook_apply hs) (ts_self s) (TestStart t0 # cs @ StopSending t1 # ds) \<and>
    in_loop env cs \<and> deliveries_of env ds \<and>
    sends cs = words_to k (ts_generator s) (concat (replicate r (ts_mchains s))) \<and>
    all_return (\<lambda>q. send (fst q) (snd q)) (ts_client s) (sends cs) \<and>
    ts_client s' = run_calls (\<lambda>q. send (fst q) (snd q)) (ts_client s) (sends cs) \<and>
    get_result (ts_self s') = Inr result \<and> total_messages_count s' = length (sends cs)"
  using tester_test_calls [OF assms] by blast

theorem test_calls_witness:
  "\<exists>result avg s' t0 cs t1 ds r. tester_test base_hooks base_get_result client_send sample_env 50 3 2 2 0
      sample_tester = (Inr (Some (result, avg)), s') \<and> 0 < r \<and>
    ts_self s' = run_calls (hook_apply base_hooks) () (TestStart t0 # cs @ StopSending t1 # ds) \<and>
    sends cs = words_to 0 string_generator (concat (replicate r [5, 6]))"
proof -
  from sample_returns obtain result avg s' where
    run: "tester_test base_hooks base_get_result client_send sample_env 50 3 2 2 0 sample_tester =
      (Inr (Some (result, avg)), s')" by blast
  from test_calls [OF this] run show ?thesis by (auto simp: sample_tester_def)
qed

text \<open>
  C16. The load is the one asked for: for a duration within the time window, whatever delays the
  client, the hooks, the event loop and the clock introduce, the average rate that \<open>test\<close> reports
  exceeds \<open>rps\<close> by at most one round of messages per duration.
\<close>

theorem test_rate:
  assumes run: "tester_test hs get_result send env fuel duration rps completion_time k s =
    (Inr (Some (result, avg)), s')"
    and "0 < rps" and "lags_ok env" and "0 < duration" and "duration \<le> time_window_sec"
  shows "0 \<le> avg \<and> avg \<le> of_int rps + of_nat (length (ts_mchains s)) / duration"
  using assms by (rule tester_test_rate)

theorem test_rate_witness:
  "\<exists>result avg s'. tester_test base_hooks base_get_result client_send sample_env 50 3 2 2 0 sample_tester =
     (Inr (Some (result, avg)), s') \<and> avg \<le> 2 + 2 / 3"
proof -
  from sample_returns obtain result avg s' where
    run: "tester_test base_hooks base_get_result client_send sample_env 50 3 2 2 0 sample_tester =
      (Inr (Some (result, avg)), s')" by blast
  from test_rate [OF run _ sample_lags] run show ?thesis
    by (auto simp: sample_tester_def time_window_sec_def)
qed

text \<open>
  A finished test has been quiet: when \<open>test\<close> returns, no delivery has been made for
  \<open>completion_time\<close>; the clock is at least that far past the last one.
\<close>

theorem test_ends_quiet:
  assumes run: "tester_test hs get_result send env fuel duration rps completion_time k s =
    (Inr (Some (result, avg)), s')"
  shows "ts_last_delivery_time s' + completion_time \<le> ts_clock s'"
proof -
  from tester_test_parts [OF run] obtain s3 where
    "await_completion hs env completion_time fuel s3 = (Inr True, s')" by blast
  from await_effect [OF this] show ?thesis by blast
qed

theorem test_ends_quiet_witness:
  "\<exists>result avg s'. tester_test base_hooks base_get_result client_send sample_env 50 3 2 2 0 sample_tester =
     (Inr (Some (result, avg)), s') \<and> ts_last_delivery_time s' + 2 \<le> ts_clock s'"
proof -
  from sample_returns obtain result avg s' where
    run: "tester_test base_hooks base_get_result client_send sample_env 50 3 2 2 0 sample_tester =
      (Inr (Some (result, avg)), s')" by blast
  from test_ends_quiet [OF run] run show ?thesis by blast
qed

text \<open>
  C17. The inputs on which \<open>test\<close> fails.  Without chains it raises \<open>UnboundLocalError\<close> after the first
  empty round, having sent nothing; with \<open>rps\<close> zero it raises \<open>ZeroDivisionError\<close> right after its first
  message, which has been sent and counted.
\<close>

theorem test_bad_inputs:
  assumes "\<And>u. fst (on_test_start hs u (ts_self s)) = Inr ()" and "0 < fuel" and lags: "lags_ok env"
  shows "(ts_mchains s = [] \<longrightarrow> (\<exists>s'. tester_test hs get_result send env fuel duration rps completion_time k s =
      (Inl UnboundLocalError, s') \<and> ts_client s' = ts_client s \<and> total_messages_count s' = 0)) \<and>
    (\<forall>h ms c. ts_mchains s = h # ms \<longrightarrow> rps = 0 \<longrightarrow>
      send h (message_data k (fst (gen_next (ts_generator s)))) (ts_client s) = (Inr (), c) \<longrightarrow>
      (\<forall>u t. fst (on_send hs u h (message_data k (fst (gen_next (ts_generator s)))) t) = Inr ()) \<longrightarrow>
      (\<exists>s'. tester_test hs get_result send env fuel duration rps completion_time k s =
        (Inl ZeroDivisionError, s') \<and> ts_client s' = c \<and> total_messages_count s' = 1))"
proof -
  obtain f where f: "fuel = Suc f" using assms(2) by (cases fuel) auto
  obtain t0 s0 where c0: "perf_counter env s = (Inr t0, s0)" "only_env s s0" "ts_self s0 = ts_self s"
    using perf_counter_effect [of env s] by blast
  define b where "b = snd (on_test_start hs t0 (ts_self s))"
  have b: "on_test_start hs t0 (ts_self s) = (Inr (), b)"
    using assms(1) [of t0] by (simp add: b_def prod_eq_iff)
  obtain u s1 where c1: "perf_counter env (s0\<lparr>ts_self := b\<rparr>) = (Inr u, s1)"
    "only_env (s0\<lparr>ts_self := b\<rparr>) s1" "ts_clock s1 = u"
    using perf_counter_effect [of env "s0\<lparr>ts_self := b\<rparr>"] by blast
  define s2 where "s2 = s1\<lparr>start_time := u, request_times := [], total_messages_count := 0,
    previous_rps_report_time := u, current_time := None\<rparr>"
  have s2: "ts_mchains s2 = ts_mchains s" "ts_client s2 = ts_client s" "ts_generator s2 = ts_generator s"
    "total_messages_count s2 = 0" "current_time s2 = None" "start_time s2 \<le> ts_clock s2"
    using c1(3) only_env_fields [OF c1(2)] only_env_fields [OF c0(2)] by (simp_all add: s2_def)
  have start: "tester_test hs get_result send env fuel duration rps completion_time k s =
      (case test_loop hs send env duration rps k fuel s2 of (Inl e, s') \<Rightarrow> (Inl e, s')
       | (Inr broke, s') \<Rightarrow> (if \<not> broke then py_return None else
         py_bind average_rps (\<lambda>average.
         py_bind (py_bind (perf_counter env) (\<lambda>t. on_self (on_stop_sending hs t))) (\<lambda>_.
         py_bind (await_completion hs env completion_time fuel) (\<lambda>complete.
           if \<not> complete then py_return None else
             py_bind (py_gets ts_self) (\<lambda>self.
             py_bind (py_lift (get_result self)) (\<lambda>result.
               py_return (Some (result, average)))))))) s')"
    using c0 b c1 by (simp add: tester_test_def begin_test_def py_bind_def [of "py_bind m f" g for m f g]
        py_bind_def [of "perf_counter env"] py_bind_def [of "test_loop hs send env duration rps k fuel"]
        py_modify_def on_self_def s2_def)
  show ?thesis
  proof (intro conjI impI allI)
    assume "ts_mchains s = []"
    then have "test_loop hs send env duration rps k fuel s2 = (Inl UnboundLocalError, s2)"
      by (simp add: f s2 py_bind_def py_gets_def py_return_def read_current_time_def)
    then show "\<exists>s'. tester_test hs get_result send env fuel duration rps completion_time k s =
      (Inl UnboundLocalError, s') \<and> ts_client s' = ts_client s \<and> total_messages_count s' = 0"
      using s2 by (simp add: start)
  next
    fix h ms c
    assume ms: "ts_mchains s = h # ms" and rps: "rps = 0"
      and snt: "send h (message_data k (fst (gen_next (ts_generator s)))) (ts_client s) = (Inr (), c)"
      and hk: "\<forall>u t. fst (on_send hs u h (message_data k (fst (gen_next (ts_generator s)))) t) = Inr ()"
    have "\<exists>s'. test_message hs send env 0 k h s2 = (Inl ZeroDivisionError, s') \<and> ts_client s' = c \<and>
        total_messages_count s' = 1"
      by (rule first_message_fails) (use snt hk s2 lags in simp_all)
    then obtain s' where "test_message hs send env 0 k h s2 = (Inl ZeroDivisionError, s')"
      "ts_client s' = c" "total_messages_count s' = 1" by blast
    moreover from this have "test_loop hs send env duration rps k fuel s2 = (Inl ZeroDivisionError, s')"
      by (simp add: f rps s2 ms py_bind_def py_gets_def)
    ultimately show "\<exists>s'. tester_test hs get_result send env fuel duration rps completion_time k s =
        (Inl ZeroDivisionError, s') \<and> ts_client s' = c \<and> total_messages_count s' = 1"
      by (simp add: start)
  qed
qed

theorem test_bad_inputs_witness:
  "(\<exists>s'. tester_test base_hooks base_get_result client_send sample_env 50 3 2 2 0
      (sample_tester\<lparr>ts_mchains := []\<rparr>) = (Inl UnboundLocalError, s')) \<and>
   (\<exists>s'. tester_test base_hooks base_get_result client_send sample_env 50 3 0 2 0 sample_tester =
      (Inl ZeroDivisionError, s') \<and> total_messages_count s' = 1)"
  using test_bad_inputs [where hs = base_hooks and s = "sample_tester\<lparr>ts_mchains := []\<rparr>" and fuel = 50
      and get_result = base_get_result and send = client_send and env = sample_env and duration = 3
      and rps = 2 and completion_time = 2 and k = 0]
    test_bad_inputs [where hs = base_hooks and s = sample_tester and fuel = 50
      and get_result = base_get_result and send = client_send and env = sample_env and duration = 3
      and rps = 0 and completion_time = 2 and k = 0]
    sample_lags
  by (auto simp: base_hooks_def client_send_def py_return_def sample_tester_def)

end
