(* ===== verification/TestRun.thy ===== *)
theory TestRun
  imports Tester Consistency
begin

text \<open>
  The tester with its real parts: \<open>ConsistencyTester\<close> and \<open>QueueSizeTester\<close> as subclasses, \<open>UdpClient\<close>
  as the client.  A whole consistency test returns, reports the fate of exactly the messages it sent,
  and has put each of them on the wire to every node.
\<close>

section \<open>The subclasses as hooks\<close>

definition ct_hooks :: "consistency_tester hooks" where
  "ct_hooks = \<lparr>on_test_start = (\<lambda>_. ct_on_test_start), on_send = (\<lambda>_. ct_on_send),
     on_delivery = (\<lambda>_. ct_on_delivery), on_stop_sending = (\<lambda>_. py_return ())\<rparr>"

definition qt_hooks :: "queue_tester hooks" where
  "qt_hooks = \<lparr>on_test_start = qt_on_test_start, on_send = qt_on_send,
     on_delivery = qt_on_delivery, on_stop_sending = qt_on_stop_sending\<rparr>"

text \<open>The client's budget: how many more messages it can number in 64 bits.\<close>

definition udp_budget :: "nat \<Rightarrow> udp_client \<Rightarrow> bool" where
  "udp_budget n c \<longleftrightarrow> in_u64 (uc_client_id c) \<and> 0 \<le> uc_nonce c \<and> uc_nonce c + int n \<le> 2 ^ 64"

definition wire_chains :: "int list \<Rightarrow> int set" where
  "wire_chains mchains = {c \<in> set mchains. in_u64 c}"

lemma udp_budget_send:
  assumes "udp_budget (Suc n) c" and "in_u64 h" and "\<And>b a. sendto b a = None"
  shows "fst (udp_send sendto h d c) = Inr () \<and> udp_budget n (snd (udp_send sendto h d c))"
proof -
  have "encodable (udp_message c h d)"
    using assms(1,2) by (simp add: encodable_def udp_message_def mk_message_def udp_budget_def in_u64_def)
  moreover have "takeWhile (\<lambda>a. sendto b a = None) ns = ns" for b ns
    using assms(3) by simp
  ultimately show ?thesis
    using assms(1) by (simp add: udp_send_eq encode_eq Let_def udp_budget_def)
qed

lemma message_data_decodable: "decodable (message_data k w)"
  by (simp add: decodable_def decode_message_data)

lemma ct_delivery_keeps: "ct_valid mchains n s \<Longrightarrow> ct_valid mchains n (snd (ct_on_delivery h i d s))"
  using ct_on_delivery_law [of mchains n s h d i] ct_on_delivery_fails [of mchains n s h d i]
  by (cases "h \<in> set mchains \<and> decodable d") auto

definition ct_idle :: "int list \<Rightarrow> nat \<Rightarrow> consistency_tester \<Rightarrow> bool" where
  "ct_idle mchains n s \<longleftrightarrow> ct_mchains s = mchains \<and> ct_node_count s = n"

definition no_send_errors :: sendto where
  "no_send_errors b a = None"

lemma ct_result_returns: "ct_valid mchains n s \<Longrightarrow> \<exists>r. ct_get_result s = Inr r"
proof -
  assume v: "ct_valid mchains n s"
  have "\<exists>r. ct_chain_result s c = Inr r" if c: "c \<in> set mchains" for c
  proof -
    obtain chain k g where "map_of (ct_messages s) c = Some chain" "wf_dict chain"
      "map_of (ct_total_messages_count s) c = Some k" "map_of (ct_good s) c = Some g"
      by (rule ct_valid_lookup [OF v c])
    then show ?thesis by (simp add: ct_chain_result_def dict_index_def Let_def)
  qed
  then obtain f where "\<And>c. c \<in> set mchains \<Longrightarrow> ct_chain_result s c = Inr (f c)" by metis
  then have "map_res (ct_chain_result s) (ct_mchains s) = Inr (map f mchains)"
    using v by (intro map_res_all_Inr [THEN trans]) (auto simp: ct_valid_def)
  then show ?thesis by (simp add: ct_get_result_def)
qed

interpretation cts: test_subject ct_hooks "udp_send no_send_errors" ct_get_result "wire_chains mchains"
  "ct_idle mchains n" "ct_valid mchains n" udp_budget
proof
  show "udp_budget (m + m') c \<Longrightarrow> udp_budget m c" for m m' c
    by (simp add: udp_budget_def)
  show "ct_idle mchains n t \<Longrightarrow> fst (on_test_start ct_hooks u t) = Inr () \<and>
      ct_valid mchains n (snd (on_test_start ct_hooks u t))" for u t
    by (auto simp: ct_hooks_def ct_on_test_start_def ct_idle_def ct_valid_def py_defs map_of_dict_const
        dom_def split: if_splits)
  show "udp_budget (Suc m) c \<Longrightarrow> h \<in> wire_chains mchains \<Longrightarrow>
      fst (udp_send no_send_errors h (message_data k w) c) = Inr () \<and>
      udp_budget m (snd (udp_send no_send_errors h (message_data k w) c))" for m c h k w
    by (rule udp_budget_send) (simp_all add: wire_chains_def no_send_errors_def)
  show "ct_valid mchains n t \<Longrightarrow> h \<in> wire_chains mchains \<Longrightarrow>
      fst (on_send ct_hooks u h (message_data k w) t) = Inr () \<and>
      ct_valid mchains n (snd (on_send ct_hooks u h (message_data k w) t))" for t h u k w
    using ct_on_send_law [of mchains n t h "message_data k w"]
    by (auto simp: ct_hooks_def wire_chains_def message_data_decodable)
  show "ct_valid mchains n t \<Longrightarrow> ct_valid mchains n (snd (on_delivery ct_hooks u h i d t))" for t u h i d
    by (simp add: ct_hooks_def ct_delivery_keeps)
  show "ct_valid mchains n t \<Longrightarrow> fst (on_stop_sending ct_hooks u t) = Inr () \<and>
      ct_valid mchains n (snd (on_stop_sending ct_hooks u t))" for t u
    by (simp add: ct_hooks_def py_return_def)
  show "ct_valid mchains n t \<Longrightarrow> \<exists>r. ct_get_result t = Inr r" for t
    by (rule ct_result_returns)
  show "ct_valid mchains n t \<Longrightarrow> ct_idle mchains n t" for t
    by (simp add: ct_valid_def ct_idle_def)
qed

text \<open>The same with the base class \<open>Client\<close>, which never runs out of nonces.\<close>

interpretation ctb: test_subject ct_hooks client_send ct_get_result "set mchains"
  "ct_idle mchains n" "ct_valid mchains n" "\<lambda>_ _. True"
proof
  show "ct_valid mchains n t \<Longrightarrow> h \<in> set mchains \<Longrightarrow>
      fst (on_send ct_hooks u h (message_data k w) t) = Inr () \<and>
      ct_valid mchains n (snd (on_send ct_hooks u h (message_data k w) t))" for t h u k w
    using ct_on_send_law [of mchains n t h "message_data k w"]
    by (auto simp: ct_hooks_def message_data_decodable)
qed (use cts.start_ok cts.delivery_keeps cts.stop_ok cts.ready_idle ct_result_returns in
    \<open>simp_all add: client_send_def py_return_def\<close>)

section \<open>The calls of a test as the tracker's events\<close>

primrec tracker_of :: "hook_call \<Rightarrow> tracker_event option" where
  "tracker_of (TestStart t) = None"
| "tracker_of (Send t c d) = Some (Sent c d)"
| "tracker_of (Delivery t c i d) = Some (Delivered c i d)"
| "tracker_of (StopSending t) = None"

lemma ct_calls_events:
  assumes "in_loop env cs"
  shows "run_calls (hook_apply ct_hooks) s cs = run_calls ct_event s (history tracker_of cs)"
    and "all_return (hook_apply ct_hooks) s cs \<longleftrightarrow> all_return ct_event s (history tracker_of cs)"
proof -
  have "run_calls (hook_apply ct_hooks) s cs = run_calls ct_event s (history tracker_of cs) \<and>
    (all_return (hook_apply ct_hooks) s cs \<longleftrightarrow> all_return ct_event s (history tracker_of cs))"
    using assms
  proof (induction cs arbitrary: s)
    case (Cons x cs)
    then show ?case by (cases x) (auto simp: ct_hooks_def in_loop_def)
  qed simp
  then show "run_calls (hook_apply ct_hooks) s cs = run_calls ct_event s (history tracker_of cs)"
    and "all_return (hook_apply ct_hooks) s cs \<longleftrightarrow> all_return ct_event s (history tracker_of cs)"
    by blast+
qed

lemma sent_texts_sends:
  "sent_texts (history tracker_of cs) = map (\<lambda>(c, d). (c, text_of d)) (sends cs)"
proof (induction cs)
  case (Cons x cs)
  have "sent_texts (es @ fs) = sent_texts es @ sent_texts fs" for es fs by (simp add: sent_texts_def)
  with Cons show ?case by (cases x) (simp_all add: sent_texts_def)
qed simp

lemma text_of_message_data [simp]: "text_of (message_data k w) = str_codes (message_text k w)"
  by (simp add: text_of_def decode_message_data)

lemma distinct_words_to:
  assumes "gen_at j g"
  shows "distinct (map (\<lambda>(c, d). (c, text_of d)) (words_to k g dests))"
proof -
  have "distinct (draws gen_next (length dests) g)" by (rule words.distinct_draws [OF assms])
  moreover have "map snd (map (\<lambda>(c, d). (c, text_of d)) (words_to k g dests))
      = map (\<lambda>w. str_codes (message_text k w)) (draws gen_next (length dests) g)"
    by (rule nth_equalityI) (simp_all add: words_to_def case_prod_beta)
  ultimately have "distinct (map snd (map (\<lambda>(c, d). (c, text_of d)) (words_to k g dests)))"
    by (simp add: distinct_map inj_on_def message_text_inject)
  moreover have "distinct (map snd xs) \<Longrightarrow> distinct xs" for xs :: "(int \<times> codepoints) list"
    by (simp add: distinct_map)
  ultimately show ?thesis by blast
qed

definition arrivals_ok :: "int list \<Rightarrow> nat \<Rightarrow> test_env \<Rightarrow> bool" where
  "arrivals_ok mchains n env \<longleftrightarrow>
     (\<forall>c i d. arrives env (c, i, d) \<longrightarrow> event_ok (set mchains) n (Delivered c i d))"

lemma loop_events_ok:
  assumes "in_loop env cs" "arrivals_ok mchains n env" "set (sends cs) \<subseteq> set (words_to k g dests)"
    "set dests \<subseteq> set mchains" "x \<in> set (history tracker_of cs)"
  shows "event_ok (set mchains) n x"
proof -
  from assms(5) obtain y where y: "y \<in> set cs" "tracker_of y = Some x"
    by (auto simp: history_def split: option.splits)
  show ?thesis
  proof (cases y)
    case (Send t c d)
    with y have "(c, d) \<in> set (sends cs)" by (force simp: sends_def)
    with assms(3) have "(c, d) \<in> set (words_to k g dests)" by blast
    then have "c \<in> set dests" and "d \<in> set (map (message_data k) (draws gen_next (length dests) g))"
      by (auto simp only: words_to_def dest: set_zip_leftD set_zip_rightD)
    with assms(4) Send y show ?thesis by (auto simp: message_data_decodable)
  next
    case (Delivery t c i d)
    with y assms(1,2) show ?thesis by (auto simp: in_loop_def arrivals_ok_def)
  qed (use y in simp_all)
qed

lemma ct_start_stop:
  "run_calls (hook_apply ct_hooks) s (TestStart t0 # cs @ StopSending t1 # ds) =
     run_calls (hook_apply ct_hooks) (snd (ct_on_test_start s)) (cs @ ds)"
  "all_return (hook_apply ct_hooks) s (TestStart t0 # cs @ StopSending t1 # ds) \<longleftrightarrow>
     all_return (hook_apply ct_hooks) (snd (ct_on_test_start s)) (cs @ ds)"
  "history tracker_of (TestStart t0 # cs @ StopSending t1 # ds) = history tracker_of (cs @ ds)"
  "sends (TestStart t0 # cs @ StopSending t1 # ds) = sends (cs @ ds)"
  by (simp_all add: ct_hooks_def ct_on_test_start_def py_defs run_calls_append all_return_append)

lemma deliveries_events_ok:
  assumes "deliveries_of env ds" "arrivals_ok mchains n env" "x \<in> set (history tracker_of ds)"
  shows "event_ok (set mchains) n x"
proof -
  from assms(3) obtain y where y: "y \<in> set ds" "tracker_of y = Some x"
    by (auto simp: history_def split: option.splits)
  with assms(1) obtain t c i d where "y = Delivery t c i d" "arrives env (c, i, d)"
    unfolding deliveries_of_def by blast
  with y assms(2) show ?thesis by (auto simp: arrivals_ok_def)
qed

lemma delivered_arrives:
  assumes "in_loop env cs" and "Delivered c i d \<in> set (history tracker_of cs)"
  shows "arrives env (c, i, d)"
proof -
  from assms(2) obtain y where "y \<in> set cs" "tracker_of y = Some (Delivered c i d)"
    by (auto simp: history_def split: option.splits)
  with assms(1) show ?thesis by (cases y) (auto simp: in_loop_def)
qed

text \<open>A round-robin over distinct chains gives each of them one message per round.\<close>

lemma round_robin_count:
  assumes "distinct mchains" "c \<in> set mchains"
  shows "length (filter (\<lambda>(b, m). b = c)
    (map (\<lambda>(c, d). (c, text_of d)) (words_to k g (concat (replicate r mchains))))) = r"
proof -
  have zip: "length (filter (\<lambda>(b, m). b = c) (map (\<lambda>(c, d). (c, text_of d)) (zip bs ds))) = count_list bs c"
    if "length bs = length ds" for bs ds
    using that by (induction bs ds rule: list_induct2) auto
  have "count_list (concat (replicate r mchains)) c = r * count_list mchains c"
    by (induction r) simp_all
  with zip show ?thesis using distinct_count_list [OF assms(1), of c] assms(2)
    by (simp add: words_to_def)
qed

text \<open>
  The hook calls \<open>cs\<close> of a finished test of \<open>r\<close> rounds: the subclass has become what they make of it,
  the client was asked for exactly the sends among them, and every one has been counted.
\<close>

definition test_record ::
  "'t hooks \<Rightarrow> (int \<Rightarrow> byte list \<Rightarrow> ('c, unit) py) \<Rightarrow> int \<Rightarrow> ('t, 'c) test_run \<Rightarrow> nat \<Rightarrow> hook_call list
     \<Rightarrow> ('t, 'c) test_run \<Rightarrow> bool"
where
  "test_record hs send k s r cs s' \<longleftrightarrow>
     ts_self s' = run_calls (hook_apply hs) (ts_self s) cs \<and>
     sends cs = words_to k (ts_generator s) (concat (replicate r (ts_mchains s))) \<and>
     all_return (\<lambda>q. send (fst q) (snd q)) (ts_client s) (sends cs) \<and>
     ts_client s' = run_calls (\<lambda>q. send (fst q) (snd q)) (ts_client s) (sends cs) \<and>
     total_messages_count s' = r * length (ts_mchains s)"

lemma length_words_to [simp]: "length (words_to k g dests) = length dests"
  by (simp add: words_to_def)

lemma tester_test_record:
  assumes "tester_test hs get_result send env fuel duration rps completion_time k s =
      (Inr (Some (result, avg)), s')"
  obtains t0 cs t1 ds r where "0 < r"
    "test_record hs send k s r (TestStart t0 # cs @ StopSending t1 # ds) s'"
    "in_loop env cs" "deliveries_of env ds" "sends cs = words_to k (ts_generator s) (concat (replicate r (ts_mchains s)))"
    "get_result (ts_self s') = Inr result" "hears hs env s (TestStart t0 # cs @ StopSending t1 # ds) s'"
proof -
  from tester_test_calls [OF assms] obtain t0 cs t1 ds r where r: "0 < r"
    "ts_self s' = run_calls (hook_apply hs) (ts_self s) (TestStart t0 # cs @ StopSending t1 # ds)"
    "in_loop env cs" "deliveries_of env ds" "sends cs = words_to k (ts_generator s) (concat (replicate r (ts_mchains s)))"
    "all_return (\<lambda>q. send (fst q) (snd q)) (ts_client s) (sends cs)"
    "ts_client s' = run_calls (\<lambda>q. send (fst q) (snd q)) (ts_client s) (sends cs)"
    "get_result (ts_self s') = Inr result" "total_messages_count s' = length (sends cs)"
    "hears hs env s (TestStart t0 # cs @ StopSending t1 # ds) s'" by blast
  have "length (sends cs) = r * length (ts_mchains s)"
    by (simp add: r(5) length_concat sum_list_replicate)
  moreover have "sends (TestStart t0 # cs @ StopSending t1 # ds) = sends cs"
    using deliveries_no_sends [OF r(4)] by simp
  ultimately have "test_record hs send k s r (TestStart t0 # cs @ StopSending t1 # ds) s'"
    using r by (simp only: test_record_def)
  with r that show thesis by blast
qed

lemma consistency_run_events:
  assumes run: "tester_test ct_hooks ct_get_result send env fuel duration rps completion_time k s =
      (Inr (Some (result, avg)), s')"
    and idle: "ct_idle mchains (Suc n) (ts_self s)" and ms: "ts_mchains s = mchains" "distinct mchains"
    and gen: "gen_at j (ts_generator s)" and ok: "arrivals_ok mchains (Suc n) env"
  obtains cs r where "0 < r" "test_record ct_hooks send k s r cs s'"
    "ct.tracks n mchains (ts_self s') (history tracker_of cs)" "ct_get_result (ts_self s') = Inr result"
    "\<And>e. e \<in> set (history tracker_of cs) \<Longrightarrow> event_ok (set mchains) (Suc n) e"
    "sent_texts (history tracker_of cs) = map (\<lambda>(c, d). (c, text_of d))
      (words_to k (ts_generator s) (concat (replicate r mchains)))"
    "\<And>c i d. Delivered c i d \<in> set (history tracker_of cs) \<Longrightarrow> arrives env (c, i, d)"
    "ts_listening s \<Longrightarrow> ts_listening s' \<and> heard cs = arrivals_between env (ts_sleeps s) (ts_sleeps s')"
proof -
  from tester_test_record [OF run] obtain t0 cs t1 ds r where r: "0 < r"
    and rec: "test_record ct_hooks send k s r (TestStart t0 # cs @ StopSending t1 # ds) s'"
    and cs: "in_loop env cs" "sends cs = words_to k (ts_generator s) (concat (replicate r mchains))"
    and ds: "deliveries_of env ds" and res: "ct_get_result (ts_self s') = Inr result"
    and hear: "hears ct_hooks env s (TestStart t0 # cs @ StopSending t1 # ds) s'"
    unfolding ms by metis
  let ?all = "TestStart t0 # cs @ StopSending t1 # ds"
  let ?es = "history tracker_of (cs @ ds)" and ?b = "snd (ct_on_test_start (ts_self s))"
  have loop: "in_loop env (cs @ ds)" using cs(1) deliveries_in_loop [OF ds] by simp
  have self: "ts_self s' = run_calls ct_event ?b ?es"
    using rec ct_calls_events(1) [OF loop] by (simp only: test_record_def ct_start_stop)
  have texts: "sent_texts ?es = map (\<lambda>(c, d). (c, text_of d))
      (words_to k (ts_generator s) (concat (replicate r mchains)))"
    using deliveries_no_sends [OF ds] by (simp only: sent_texts_sends sends_simps cs(2) append_Nil2)
  have sub: "set (concat (replicate r mchains)) \<subseteq> set mchains" by auto
  have good: "event_ok (set mchains) (Suc n) e" if "e \<in> set ?es" for e
    using that loop_events_ok [OF cs(1) ok _ sub, of k "ts_generator s" e] cs(2)
      deliveries_events_ok [OF ds ok, of e] by auto
  have start: "ct.tracks n mchains ?b []"
    using idle by (intro ct_tracks_restart) (simp_all add: ct_idle_def)
  have "distinct (sent_texts ?es)" unfolding texts by (rule distinct_words_to [OF gen])
  with ct.tracks_run [OF start, of ?es] good have run': "all_return ct_event ?b ?es \<and> ct.tracks n mchains (ts_self s') ?es"
    unfolding self by simp
  then have "all_return (hook_apply ct_hooks) (ts_self s) ?all"
    using ct_calls_events(2) [OF loop] by (simp only: ct_start_stop)
  with hear have heard: "ts_listening s \<Longrightarrow>
      ts_listening s' \<and> heard ?all = arrivals_between env (ts_sleeps s) (ts_sleeps s')"
    by (simp only: hears_def simp_thms)
  have src: "arrives env (c, i, d)" if "Delivered c i d \<in> set ?es" for c i d
    using that delivered_arrives [OF loop] by blast
  show thesis
    by (rule that [OF r rec]) (use run' res good texts src heard in \<open>simp_all only: ct_start_stop\<close>)
qed

section \<open>Properties\<close>

text \<open>A single-chain test with one node that delivers the first message.\<close>

definition sample_ct_tester :: "(consistency_tester, udp_client) test_run" where
  "sample_ct_tester = \<lparr>ts_mchains = [5], ts_client = mk_udp_client 7 [(''a'', 1)],
     ts_generator = string_generator, ts_last_delivery_time = 0, ts_listening = True,
     ts_self = ct_init [5] 1, ts_clock = 9, ts_readings = 0, ts_sleeps = 0, start_time = 0,
     request_times = [], total_messages_count = 0, previous_rps_report_time = 0, current_time = None\<rparr>"

definition sample_ct_env :: test_env where
  "sample_ct_env = \<lparr>env_lag = (\<lambda>_. 1 / 10),
     env_arrivals = (\<lambda>n. if n = 0 then [(5, 0, message_data 0 ''a'')] else [])\<rparr>"

lemma sample_ct_returns:
  "\<exists>r avg s'. tester_test ct_hooks ct_get_result (udp_send no_send_errors) sample_ct_env 9 3 2 2 0 sample_ct_tester =
     (Inr (Some (r, avg)), s')"
proof -
  have "\<exists>r avg s'. tester_test ct_hooks ct_get_result (udp_send no_send_errors) sample_ct_env 9 3 2 2 0
      sample_ct_tester = (Inr (Some (r, avg)), s') \<and> ct_valid [5] 1 (ts_self s')"
    by (rule cts.test_goes [where K = 1])
      (simp_all add: time_window_sec_def lags_ok_def sample_ct_env_def sample_ct_tester_def ct_idle_def
        ct_init_def udp_budget_def mk_udp_client_def in_u64_def wire_chains_def)
  then show ?thesis by blast
qed

text \<open>
  C18. A consistency test over UDP always returns.  With a positive rate, a duration within the time
  window, deliveries that eventually stop and a network that takes every datagram, no delay of the
  clock or the event loop and no delivery, well-formed or not, keeps \<open>test\<close> from returning a result;
  more rounds than the rate allows messages are never needed.
\<close>

theorem consistency_test_returns:
  assumes "0 < rps" and "0 \<le> duration" and "duration \<le> time_window_sec" and "lags_ok env"
    and "\<And>i. K \<le> i \<Longrightarrow> env_arrivals env i = []"
    and "of_int rps * duration + 1 < (of_nat fuel :: time)" and "K + 2 \<le> fuel"
    and "ts_mchains s \<noteq> []" and "\<And>c. c \<in> set (ts_mchains s) \<Longrightarrow> in_u64 c"
    and "ct_mchains (ts_self s) = ts_mchains s"
    and "udp_budget (fuel * length (ts_mchains s)) (ts_client s)"
  shows "\<exists>result avg s'. tester_test ct_hooks ct_get_result (udp_send no_send_errors) env fuel duration rps
    completion_time k s = (Inr (Some (result, avg)), s')"
proof -
  have "set (ts_mchains s) \<subseteq> wire_chains (ts_mchains s)" using assms(9) by (auto simp: wire_chains_def)
  moreover have "ct_idle (ts_mchains s) (ct_node_count (ts_self s)) (ts_self s)"
    using assms(10) by (simp add: ct_idle_def)
  ultimately show ?thesis
    using cts.test_goes [OF assms(1-4) assms(5) assms(6,7) _ assms(11) _ assms(8)] by blast
qed

theorem consistency_test_returns_witness:
  "\<exists>result avg s'. tester_test ct_hooks ct_get_result (udp_send no_send_errors) sample_ct_env 9 3 2 2 0
     sample_ct_tester = (Inr (Some (result, avg)), s')"
  by (rule consistency_test_returns [where K = 1])
    (simp_all add: time_window_sec_def lags_ok_def sample_ct_env_def sample_ct_tester_def
      ct_init_def udp_budget_def mk_udp_client_def in_u64_def)

text \<open>
  C19. What a consistency test reports.  The hook calls behind the report are those of this test: the
  sends among them are exactly what the client was asked to send, in the same order, one new text per
  chain and round, and \<open>total_messages_count\<close> is their number; the deliveries among them are exactly
  what the listener delivered during the sleeps of the test, in that order, none lost and none added.
  For each chain the report lists how many of the texts sent every node delivered, how many only some
  nodes delivered and how many none did, and the three add up to the number of rounds, which is positive.
\<close>

theorem consistency_test_report:
  assumes "tester_test ct_hooks ct_get_result send env fuel duration rps completion_time k s =
      (Inr (Some (result, avg)), s')"
    and "ct_idle mchains n (ts_self s)" and "ts_mchains s = mchains" and "distinct mchains" and "0 < n"
    and "gen_at j (ts_generator s)" and "arrivals_ok mchains n env" and "ts_listening s"
  shows "\<exists>cs r. 0 < r \<and> ts_self s' = run_calls (hook_apply ct_hooks) (ts_self s) cs \<and>
    sends cs = words_to k (ts_generator s) (concat (replicate r mchains)) \<and>
    all_return (\<lambda>q. send (fst q) (snd q)) (ts_client s) (sends cs) \<and>
    ts_client s' = run_calls (\<lambda>q. send (fst q) (snd q)) (ts_client s) (sends cs) \<and>
    total_messages_count s' = r * length mchains \<and>
    heard cs = concat (map (env_arrivals env) [ts_sleeps s..<ts_sleeps s']) \<and>
    result = map (\<lambda>c. (c, int (card {m. (c, m) \<in> fully_delivered n (history tracker_of cs)}),
      int (card {m. (c, m) \<in> partly_delivered n (history tracker_of cs)}),
      int (card {m. (c, m) \<in> not_delivered (history tracker_of cs)}))) mchains \<and>
    (\<forall>(c, good, partial, lost) \<in> set result. good + partial + lost = int r)"
proof -
  obtain n' where n: "n = Suc n'" using assms(5) by (cases n) auto
  obtain cs r where r: "0 < r" and rec: "test_record ct_hooks send k s r cs s'"
    and tr: "ct.tracks n' mchains (ts_self s') (history tracker_of cs)"
    and res: "ct_get_result (ts_self s') = Inr result"
    and ok: "\<And>e. e \<in> set (history tracker_of cs) \<Longrightarrow> event_ok (set mchains) (Suc n') e"
    and texts: "sent_texts (history tracker_of cs) = map (\<lambda>(c, d). (c, text_of d))
      (words_to k (ts_generator s) (concat (replicate r mchains)))"
    and heard: "heard cs = arrivals_between env (ts_sleeps s) (ts_sleeps s')"
    by (rule consistency_run_events [OF assms(1) assms(2) [unfolded n] assms(3,4,6) assms(7) [unfolded n]])
      (use assms(8) in blast)
  let ?es = "history tracker_of cs"
  have dist: "distinct (sent_texts ?es)" unfolding texts by (rule distinct_words_to [OF assms(6)])
  have report: "result = map (\<lambda>c. (c, int (card {m. (c, m) \<in> fully_delivered n ?es}),
      int (card {m. (c, m) \<in> partly_delivered n ?es}), int (card {m. (c, m) \<in> not_delivered ?es}))) mchains"
    using ct_report_tracks [OF tr assms(4) ok dist] res by (simp add: n)
  have "card {m. (c, m) \<in> set (sent_texts ?es)} = r" if "c \<in> set mchains" for c
    using length_chain_sent [OF dist, of c] round_robin_count [OF assms(4) that, of k "ts_generator s" r]
    by (simp only: texts)
  then have "\<forall>(c, good, partial, lost) \<in> set result. good + partial + lost = int r"
    using chain_classes_card [OF assms(5), of _ ?es] by (auto simp: report simp flip: of_nat_add)
  with r rec heard report show ?thesis
    unfolding test_record_def arrivals_between_def assms(3) by blast
qed

theorem consistency_test_report_witness:
  "\<exists>result avg s' r cs. tester_test ct_hooks ct_get_result (udp_send no_send_errors) sample_ct_env 9 3 2 2 0
     sample_ct_tester = (Inr (Some (result, avg)), s') \<and> 0 < r \<and> total_messages_count s' = r \<and>
     heard cs = concat (map (env_arrivals sample_ct_env) [0..<ts_sleeps s']) \<and>
     (\<forall>(c, good, partial, lost) \<in> set result. good + partial + lost = int r)"
proof -
  from sample_ct_returns obtain result avg s' where
    run: "tester_test ct_hooks ct_get_result (udp_send no_send_errors) sample_ct_env 9 3 2 2 0
      sample_ct_tester = (Inr (Some (result, avg)), s')" by blast
  have "arrivals_ok [5] 1 sample_ct_env"
    by (auto simp: arrivals_ok_def arrives_def sample_ct_env_def message_data_decodable split: if_splits)
  moreover have "gen_at 1 (ts_generator sample_ct_tester)" using gen_at_start by (simp add: sample_ct_tester_def)
  moreover have "ct_idle [5] 1 (ts_self sample_ct_tester)" "ts_mchains sample_ct_tester = [5]"
    "ts_listening sample_ct_tester" "ts_sleeps sample_ct_tester = 0"
    by (simp_all add: sample_ct_tester_def ct_idle_def ct_init_def)
  ultimately show ?thesis
    using consistency_test_report [OF run, of "[5]" 1 1] run by auto
qed

text \<open>
  C22. Every message of a finished test is on the wire.  A node the client lists once has been sent as
  many datagrams as \<open>total_messages_count\<close> says, one for every send the subclass was told of and in
  that order; the server reads each as a SEND of the chain and the text of that send.  The test sent a
  whole number of rounds over its chains, each message with the next word of the generator.
\<close>

theorem test_reaches_peer:
  assumes "tester_test hs get_result (udp_send sendto) env fuel duration rps completion_time k s =
      (Inr (Some (result, avg)), s')"
    and "ts_client s = mk_udp_client nonce nodes" and "count_list nodes a = 1"
  shows "\<exists>cs r. 0 < r \<and> ts_self s' = run_calls (hook_apply hs) (ts_self s) cs \<and>
    sends cs = words_to k (ts_generator s) (concat (replicate r (ts_mchains s))) \<and>
    list_all2 (\<lambda>buf q. udp_carries buf (fst q) (snd q))
      [buf. (buf, b) \<leftarrow> uc_socket (ts_client s'), b = a] (sends cs) \<and>
    total_messages_count s' = r * length (ts_mchains s) \<and>
    length [buf. (buf, b) \<leftarrow> uc_socket (ts_client s'), b = a] = total_messages_count s'"
proof -
  obtain cs r where r: "0 < r" and rec: "test_record hs (udp_send sendto) k s r cs s'"
    by (rule tester_test_record [OF assms(1)])
  then have ret: "all_return (\<lambda>q. udp_send sendto (fst q) (snd q)) (mk_udp_client nonce nodes) (sends cs)"
    and client: "ts_client s' = run_calls (\<lambda>q. udp_send sendto (fst q) (snd q)) (mk_udp_client nonce nodes) (sends cs)"
    unfolding test_record_def assms(2) by blast+
  have wire: "list_all2 (\<lambda>buf q. udp_carries buf (fst q) (snd q))
      [buf. (buf, b) \<leftarrow> uc_socket (ts_client s'), b = a] (sends cs)"
    using udp.sends_reach_peer [OF ret, of a] assms(3) client by (auto simp: mk_udp_client_def)
  have "length (sends cs) = total_messages_count s'"
    using rec by (simp add: test_record_def length_concat sum_list_replicate)
  with list_all2_lengthD [OF wire] have "length [buf. (buf, b) \<leftarrow> uc_socket (ts_client s'), b = a] =
      total_messages_count s'" by simp
  with r rec wire show ?thesis unfolding test_record_def by blast
qed

theorem test_reaches_peer_witness:
  "\<exists>result avg s' r. tester_test ct_hooks ct_get_result (udp_send no_send_errors) sample_ct_env 9 3 2 2 0
     sample_ct_tester = (Inr (Some (result, avg)), s') \<and> 0 < r \<and> total_messages_count s' = r \<and>
     length [buf. (buf, b) \<leftarrow> uc_socket (ts_client s'), b = (''a'', 1)] = r"
proof -
  from sample_ct_returns obtain result avg s' where
    run: "tester_test ct_hooks ct_get_result (udp_send no_send_errors) sample_ct_env 9 3 2 2 0
      sample_ct_tester = (Inr (Some (result, avg)), s')" by blast
  have client: "ts_client sample_ct_tester = mk_udp_client 7 [(''a'', 1)]"
    and ms: "length (ts_mchains sample_ct_tester) = 1" by (simp_all add: sample_ct_tester_def)
  have one: "count_list [(''a'', 1 :: int)] (''a'', 1) = 1" by simp
  from test_reaches_peer [OF run client one] run show ?thesis unfolding ms by auto
qed

end
