(* ===== verification/ListenerLog.thy ===== *)
theory ListenerLog
  imports RedisListener Tracker
begin

text \<open>
  The log of a listener: the deliveries its loop makes, whatever the handlers are.  The real listener's
  application is in the state its handlers reach by working off that log up to the first exception, and
  the log is in lockstep with the replies of all sources.
\<close>

section \<open>The listener's log\<close>

text \<open>
  A listener whose only handler writes each delivery down.  Whatever handlers the real one has, it has
  made them the deliveries of this log, in order, up to the first one that raised.
\<close>

primrec listener_state :: "'s listener \<Rightarrow> 's listening" where
  "listener_state (Running s) = s"
| "listener_state (Stopped e s) = s"

definition with_log :: "'s listening \<Rightarrow> delivery list \<Rightarrow> delivery list listening" where
  "with_log l ds = \<lparr>ls_tasks = ls_tasks l, ls_pending = ls_pending l, ls_inbox = ls_inbox l, ls_app = ds\<rparr>"

definition listener_log :: "'s listening \<Rightarrow> move list \<Rightarrow> delivery list" where
  "listener_log l mvs = ls_app (listener_state (listener_run [note_delivery] (Running (with_log l [])) mvs))"

definition same_loop :: "'s listening \<Rightarrow> 't listening \<Rightarrow> bool" where
  "same_loop l s \<longleftrightarrow> ls_tasks l = ls_tasks s \<and> ls_pending l = ls_pending s \<and> ls_inbox l = ls_inbox s"

definition told_by :: "'s handler list \<Rightarrow> 's \<Rightarrow> delivery list \<Rightarrow> unit res \<times> 's" where
  "told_by hs a ds = py_for ds (deliver hs) a"

lemma py_for_append: "py_for (xs @ ys) f = py_bind (py_for xs f) (\<lambda>_. py_for ys f)"
  by (induction xs) (simp_all add: py_bind_assoc)

lemma told_by_append: "told_by hs a ds = (Inr (), b) \<Longrightarrow> told_by hs a (ds @ es) = told_by hs b es"
  by (simp add: told_by_def py_for_append py_bind_def)

lemma told_by_stuck: "told_by hs a ds = (Inl e, b) \<Longrightarrow> told_by hs a (ds @ es) = (Inl e, b)"
  by (simp add: told_by_def py_for_append py_bind_def)

lemma deliver_note: "deliver [note_delivery] d l = (Inr (), l @ [d])"
  by (simp add: deliver_def note_delivery_def py_defs)

lemma handle_task_eq:
  "handle_task hs (i, m) s = (case delivery_of i m of
     Inl e \<Rightarrow> (Inl e, s)
   | Inr d \<Rightarrow> (case deliver hs d (ls_app s) of
       (Inl e, a) \<Rightarrow> (Inl e, s\<lparr>ls_app := a\<rparr>)
     | (Inr _, a) \<Rightarrow> (Inr (), s\<lparr>ls_app := a, ls_pending := ls_pending s @ [i]\<rparr>)))"
  by (cases "key_mchain (fst m)"; cases "deliver hs (projr (key_mchain (fst m)), i, snd m) (ls_app s)")
    (auto simp: handle_task_def delivery_of_def on_app_handlers py_defs split: sum.splits)

lemma log_grows:
  "\<exists>ds. ls_app (snd (py_for ts (handle_task [note_delivery]) l)) = ls_app l @ ds"
proof (induction ts arbitrary: l)
  case (Cons t ts)
  obtain i m where t: "t = (i, m)" by (cases t)
  show ?case
  proof (cases "delivery_of i m")
    case (Inr d)
    with Cons [of "l\<lparr>ls_app := ls_app l @ [d], ls_pending := ls_pending l @ [i]\<rparr>"] show ?thesis
      by (auto simp: t py_bind_def handle_task_eq deliver_note)
  qed (simp add: t py_bind_def handle_task_eq)
qed (simp add: py_defs)

text \<open>The two machines after the same tasks: the real one's state is what its handlers make of the log.\<close>

definition follows ::
  "'s handler list \<Rightarrow> 's \<Rightarrow> unit res \<times> delivery list listening \<Rightarrow> unit res \<times> 's listening \<Rightarrow> bool"
where
  "follows hs a x y \<longleftrightarrow>
     snd (told_by hs a (ls_app (snd x))) = ls_app (snd y) \<and>
     (case fst y of
        Inr _ \<Rightarrow> fst x = Inr () \<and> same_loop (snd x) (snd y) \<and> fst (told_by hs a (ls_app (snd x))) = Inr ()
      | Inl e \<Rightarrow> fst (told_by hs a (ls_app (snd x))) \<noteq> Inr () \<or> (\<exists>e'. fst x = Inl e'))"

lemma follows_stuck:
  assumes "told_by hs a ds = (Inl e, b)" and "ls_app (snd x) = ds @ es" and "ls_app s = b"
  shows "follows hs a x (Inl e', s)"
  using told_by_stuck [OF assms(1), of es] assms(2,3) by (simp add: follows_def)

lemma tasks_follow:
  "follows hs a (Inr (), l) (Inr (), s) \<Longrightarrow>
     follows hs a (py_for ts (handle_task [note_delivery]) l) (py_for ts (handle_task hs) s)"
proof (induction ts arbitrary: l s)
  case (Cons t ts)
  obtain i m where t: "t = (i, m)" by (cases t)
  have told: "told_by hs a (ls_app l) = (Inr (), ls_app s)" and same: "same_loop l s"
    using Cons.prems by (simp_all add: follows_def prod_eq_iff)
  show ?case
  proof (cases "delivery_of i m")
    case (Inl e)
    then show ?thesis using told by (simp add: t py_bind_def handle_task_eq follows_def)
  next
    case (Inr d)
    let ?l = "l\<lparr>ls_app := ls_app l @ [d], ls_pending := ls_pending l @ [i]\<rparr>"
    have l: "py_for (t # ts) (handle_task [note_delivery]) l = py_for ts (handle_task [note_delivery]) ?l"
      by (simp add: t py_bind_def handle_task_eq Inr deliver_note)
    obtain r b where rb: "deliver hs d (ls_app s) = (r, b)" by fastforce
    have told_d: "told_by hs a (ls_app l @ [d]) = (r, b)"
      unfolding told_by_append [OF told] using rb by (cases r) (simp_all add: told_by_def py_defs)
    show ?thesis
    proof (cases r)
      case (Inl e)
      from log_grows [of ts ?l] obtain ds where
        "ls_app (snd (py_for (t # ts) (handle_task [note_delivery]) l)) = (ls_app l @ [d]) @ ds"
        unfolding l by auto
      with follows_stuck [OF told_d [unfolded Inl]] rb Inl \<open>delivery_of i m = Inr d\<close> show ?thesis
        by (simp add: t py_bind_def handle_task_eq)
    next
      case (Inr u)
      have "follows hs a (Inr (), ?l) (Inr (), s\<lparr>ls_app := b, ls_pending := ls_pending s @ [i]\<rparr>)"
        using told_d same Inr by (simp add: follows_def same_loop_def)
      from Cons.IH [OF this] show ?thesis
        using rb Inr \<open>delivery_of i m = Inr d\<close> unfolding l
        by (simp add: t py_bind_def handle_task_eq)
    qed
  qed
qed (simp add: py_return_def)

lemma round_follows:
  assumes "follows hs a (Inr (), l) (Inr (), s)"
  shows "follows hs a (listen_round [note_delivery] order l) (listen_round hs order s)"
proof (cases "ls_tasks s = []")
  case True
  with assms show ?thesis
    by (simp add: follows_def same_loop_def listen_round_def asyncio_wait_def py_bind_def)
next
  case False
  let ?w = "\<lambda>s. s\<lparr>ls_inbox := (\<lambda>i. if i \<in> set (ls_tasks s) then tl (ls_inbox s i) else ls_inbox s i),
    ls_pending := []\<rparr>"
  have same: "ls_tasks l = ls_tasks s" "ls_inbox l = ls_inbox s"
    using assms by (simp_all add: follows_def same_loop_def)
  let ?ts = "map (\<lambda>i. (i, hd (ls_inbox s i))) order"
  have split: "listen_round hs order s =
      py_bind (py_for ?ts (handle_task hs)) (\<lambda>_. py_modify (\<lambda>s. s\<lparr>ls_tasks := ls_pending s\<rparr>)) (?w s)"
    "listen_round [note_delivery] order l = py_bind (py_for ?ts (handle_task [note_delivery]))
      (\<lambda>_. py_modify (\<lambda>s. s\<lparr>ls_tasks := ls_pending s\<rparr>)) (?w l)"
    using False same by (simp_all add: listen_round_def asyncio_wait_def py_bind_def)
  have "follows hs a (Inr (), ?w l) (Inr (), ?w s)"
    using assms by (auto simp: follows_def same_loop_def)
  from tasks_follow [OF this, of ?ts] show ?thesis
    unfolding split py_bind_def
    by (auto simp: follows_def same_loop_def py_modify_def split: prod.splits sum.splits)
qed

definition result_of :: "'s listener \<Rightarrow> unit res \<times> 's listening" where
  "result_of L = (case L of Running s \<Rightarrow> (Inr (), s) | Stopped e s \<Rightarrow> (Inl e, s))"

lemma listener_move_result:
  "result_of (listener_move hs s (Round order)) =
     (if wait_returns order s then listen_round hs order s else (Inr (), s))"
  by (auto simp: result_of_def split: prod.splits sum.splits)

lemma result_of_cases: "result_of L = (Inr u, s) \<longleftrightarrow> L = Running s" "result_of L = (Inl e, s) \<longleftrightarrow> L = Stopped e s"
  by (cases L; auto simp: result_of_def)+

lemma step_grows:
  "\<exists>ds. ls_app (snd (result_of (listener_step [note_delivery] L mv))) = ls_app (snd (result_of L)) @ ds"
proof (cases L)
  case (Running l)
  show ?thesis
  proof (cases mv)
    case (Round order)
    let ?l = "l\<lparr>ls_inbox := (\<lambda>i. if i \<in> set (ls_tasks l) then tl (ls_inbox l i) else ls_inbox l i),
      ls_pending := []\<rparr>"
    from log_grows [of "map (\<lambda>i. (i, hd (ls_inbox l i))) order" ?l] show ?thesis
      using listener_move_result [of "[note_delivery]" l order]
      by (auto simp: Running Round result_of_def listen_round_def asyncio_wait_def py_defs
          split: prod.splits sum.splits)
  qed (simp add: Running result_of_def)
qed (simp add: result_of_def)

lemma step_follows:
  assumes "follows hs a (result_of L) (result_of R)"
  shows "follows hs a (result_of (listener_step [note_delivery] L mv)) (result_of (listener_step hs R mv))"
proof (cases R)
  case (Running s)
  then obtain l where L: "L = Running l" and f: "follows hs a (Inr (), l) (Inr (), s)"
    using assms by (cases L) (auto simp: follows_def result_of_def)
  then have same: "ls_tasks l = ls_tasks s" "ls_inbox l = ls_inbox s" by (simp_all add: follows_def same_loop_def)
  show ?thesis
  proof (cases mv)
    case (Arrive i m)
    with f show ?thesis by (simp add: L Running result_of_def follows_def same_loop_def)
  next
    case (Round order)
    have "wait_returns order l = wait_returns order s" by (simp add: wait_returns_def same)
    with f round_follows [OF f, of order] show ?thesis
      by (simp only: L Running Round listener_step.simps listener_move_result split: if_split) simp
  qed
next
  case (Stopped e s)
  show ?thesis
  proof (cases L)
    case (Running l)
    then obtain e1 where told: "told_by hs a (ls_app l) = (Inl e1, ls_app s)"
      using assms Stopped by (cases "told_by hs a (ls_app l)"; cases "fst (told_by hs a (ls_app l))")
        (auto simp: follows_def result_of_def)
    from step_grows [of L mv] obtain ds where
      "ls_app (snd (result_of (listener_step [note_delivery] L mv))) = ls_app l @ ds"
      by (auto simp: Running result_of_def)
    from follows_stuck [OF told this refl] show ?thesis by (simp add: Stopped result_of_def)
  qed (use assms Stopped in \<open>simp add: result_of_def\<close>)
qed

lemma listener_follows_log:
  "follows hs (ls_app l) (result_of (listener_run [note_delivery] (Running (with_log l [])) mvs))
     (result_of (listener_run hs (Running l) mvs))"
proof (induction mvs rule: rev_induct)
  case Nil
  show ?case
    by (simp add: result_of_def follows_def same_loop_def with_log_def told_by_def py_return_def)
next
  case (snoc mv mvs)
  from step_follows [OF this] show ?case by simp
qed

lemma listener_state_result: "listener_state L = snd (result_of L)"
  by (cases L) (simp_all add: result_of_def)

lemma listener_tells_log:
  "ls_app (listener_state (listener_run hs (Running l) mvs)) = snd (told_by hs (ls_app l) (listener_log l mvs))"
  using listener_follows_log [of hs l mvs]
  by (simp add: follows_def listener_log_def listener_state_result)

lemma listener_run_append: "listener_run hs L (xs @ ys) = listener_run hs (listener_run hs L xs) ys"
  by (simp add: listener_run_def)

lemma told_note: "told_by [note_delivery] a ds = (Inr (), a @ ds)"
  by (induction ds arbitrary: a) (simp_all add: told_by_def py_return_def py_bind_def deliver_note)

lemma run_calls_note: "run_calls (deliver [note_delivery]) a ds = a @ ds"
  by (induction ds arbitrary: a) (simp_all add: deliver_note)

lemma log_extends:
  assumes "listener_run [note_delivery] (Running (with_log l [])) xs = Running k"
  shows "listener_log l (xs @ ys) = ls_app k @ listener_log k ys"
  using listener_tells_log [of "[note_delivery]" k ys]
  by (simp add: listener_log_def [of l] listener_run_append assms told_note)

lemma stopped_stays: "listener_run hs (Stopped e k) ys = Stopped e k"
  by (induction ys) (simp_all add: listener_run_def)

lemma log_prefix: "\<exists>ds. listener_log l (xs @ ys) = listener_log l xs @ ds"
proof (cases "listener_run [note_delivery] (Running (with_log l [])) xs")
  case (Running k)
  with log_extends [OF Running, of ys] show ?thesis by (simp add: listener_log_def)
qed (simp add: listener_log_def listener_run_append stopped_stays)

section \<open>The log in lockstep\<close>

text \<open>A good reply names one of the test's chains and carries text.\<close>

definition reply_ok :: "int list \<Rightarrow> popped \<Rightarrow> bool" where
  "reply_ok mchains m \<longleftrightarrow> (\<exists>c \<in> set mchains. key_mchain (fst m) = Inr c) \<and> decodable (snd m)"

lemma arrived_append: "arrived i (xs @ ys) = arrived i xs @ arrived i ys"
  by (simp add: arrived_def)

lemma lockstep_log:
  assumes "wf_dict (rl_connections c)" and "rl_connections c \<noteq> []"
    and "\<And>i m. i \<in> set (dict_keys (rl_connections c)) \<Longrightarrow> m \<in> set (arrived i mvs) \<Longrightarrow> reply_ok mchains m"
  shows "\<exists>s. listener_run [note_delivery] (Running (with_log (start_listening c a) [])) mvs = Running s \<and>
    in_lockstep [note_delivery] (dict_keys (rl_connections c)) [] mvs s
      (turns (dict_keys (rl_connections c)) mvs) (ls_app s)"
  using assms(3)
proof (induction mvs rule: rev_induct)
  case Nil
  show ?case using assms(1)
    by (auto simp: in_lockstep_def with_log_def start_listening_def wf_dict_def dict_keys_def turns_snoc)
next
  case (snoc mv mvs)
  have "reply_ok mchains m" if "i \<in> set (dict_keys (rl_connections c))" "m \<in> set (arrived i mvs)" for i m
    using snoc.prems [OF that(1), of m] that(2) by (simp add: arrived_append)
  with snoc.IH obtain s where
    run: "listener_run [note_delivery] (Running (with_log (start_listening c a) [])) mvs = Running s"
    and inv: "in_lockstep [note_delivery] (dict_keys (rl_connections c)) [] mvs s
      (turns (dict_keys (rl_connections c)) mvs) (ls_app s)" by blast
  have "\<exists>s'. listener_move [note_delivery] s mv = Running s'"
  proof (cases mv)
    case (Round order)
    show ?thesis
    proof (cases "wait_returns order s")
      case True
      have "ls_tasks s \<noteq> []" using inv assms(2) by (auto simp: in_lockstep_def dict_keys_def)
      moreover have "\<exists>b. key_mchain (fst (hd (ls_inbox s i))) = Inr b" if i: "i \<in> set (ls_tasks s)" for i
      proof -
        have "hd (ls_inbox s i) \<in> set (arrived i mvs)" "i \<in> set (dict_keys (rl_connections c))"
          using inv i True by (auto simp: in_lockstep_def wait_returns_def hd_drop_conv_nth)
        with snoc.prems [of i "hd (ls_inbox s i)"] show ?thesis by (auto simp: reply_ok_def arrived_append)
      qed
      ultimately obtain s' where "listen_round [note_delivery] order s = (Inr (), s')"
        using round_progress [OF True, of "[note_delivery]"] by (auto simp: deliver_note)
      then show ?thesis using True Round by simp
    qed (simp add: Round)
  qed simp
  then obtain s' where s': "listener_move [note_delivery] s mv = Running s'" ..
  from lockstep_move [OF inv s'] obtain ds where
    "in_lockstep [note_delivery] (dict_keys (rl_connections c)) [] (mvs @ [mv]) s'
      (turns (dict_keys (rl_connections c)) (mvs @ [mv])) ds" by blast
  moreover from this have "ls_app s' = ds"
    by (simp add: in_lockstep_def run_calls_note)
  ultimately show ?case using run s' by auto
qed

text \<open>Every source has delivered one of its replies per round, and no round ran without the slowest.\<close>

lemma lockstep_deliveries:
  assumes inv: "in_lockstep [note_delivery] sources [] mvs s k ds" and d: "(c, i, x) \<in> set ds"
    and ok: "\<And>m. m \<in> set (arrived i mvs) \<Longrightarrow> reply_ok mchains m"
  shows "i \<in> set sources \<and> c \<in> set mchains \<and> decodable x"
proof -
  have i: "i \<in> set sources" using inv d by (auto simp: in_lockstep_def)
  then have seen: "map_res (delivery_of i) (take k (arrived i mvs)) = Inr (from_source i ds)"
    using inv by (simp add: in_lockstep_def)
  have each: "map_res f ms = Inr ys \<Longrightarrow> y \<in> set ys \<Longrightarrow> \<exists>m \<in> set ms. f m = Inr y"
    for f :: "popped \<Rightarrow> delivery res" and ms ys y
    by (induction ms arbitrary: ys) (auto simp: bind_res_eq_Inr)
  have "(c, i, x) \<in> set (from_source i ds)" using d by (simp add: from_source_def)
  from each [OF seen this] obtain m where
    "m \<in> set (arrived i mvs)" "delivery_of i m = Inr (c, i, x)" by (auto dest: in_set_takeD)
  with ok [of m] i show ?thesis by (auto simp: reply_ok_def delivery_of_def bind_res_eq_Inr)
qed

lemma lockstep_slowest:
  assumes "in_lockstep hs sources a mvs s k ds" and "i \<in> set sources" and "j \<in> set sources"
  shows "length (from_source i ds) \<le> length (arrived j mvs)"
proof -
  from assms have i: "map_res (delivery_of i) (take k (arrived i mvs)) = Inr (from_source i ds)"
    and "k \<le> length (arrived j mvs)" by (simp_all add: in_lockstep_def)
  moreover have "length (from_source i ds) \<le> k" using map_res_length [OF i] by simp
  ultimately show ?thesis by simp
qed

end
