(* ===== verification/System.thy ===== *)
theory System
  imports TestRun ListenerLog
begin

text \<open>
  A tester and its listener together: the constructors, which register \<open>_on_delivery\<close> and start the
  listening task, and the environment of a test in which the deliveries made during a sleep are those
  of the listener's rounds.  What the listener does to the tester is what the tester's model of a sleep
  does; a finished test has been told exactly the first answers of its nodes, as many of each; and its
  report is bounded by what its slowest node has answered.
\<close>

section \<open>Constructors\<close>

text \<open>\<open>listen\<close> prepares the connections and schedules \<open>_listen\<close>, which starts on their keys.\<close>

definition listen ::
  "redis_faults \<Rightarrow> int list \<Rightarrow> redis_address list \<Rightarrow> 's \<Rightarrow> ('s listener_class, 's listening) py"
where
  "listen rf mchains addresses a =
     py_bind (prepare_connections rf mchains addresses) (\<lambda>_. py_gets (\<lambda>c. start_listening c a))"

definition delivery_handler :: "'t hooks \<Rightarrow> test_env \<Rightarrow> ('t, 'c) test_run handler" where
  "delivery_handler hs env mchain i d = tester_on_delivery hs env (mchain, i, d)"

text \<open>\<open>Tester.__init__\<close> on the new object \<open>s\<close>, which has the class attributes already.\<close>

definition tester_init ::
  "redis_faults \<Rightarrow> 't hooks \<Rightarrow> test_env \<Rightarrow> int list \<Rightarrow> 'c \<Rightarrow> redis_address list \<Rightarrow> ('t, 'c) test_run
     \<Rightarrow> (('t, 'c) test_run listener_class, ('t, 'c) test_run listening) py"
where
  "tester_init rf hs env mchains client addresses s =
     py_bind (register_handler (delivery_handler hs env)) (\<lambda>_.
       listen rf mchains addresses (s\<lparr>ts_mchains := mchains, ts_client := client\<rparr>))"

definition set_self :: "'t \<Rightarrow> ('t, 'c) test_run listening \<Rightarrow> ('t, 'c) test_run listening" where
  "set_self t l = l\<lparr>ls_app := (ls_app l)\<lparr>ts_self := t\<rparr>\<rparr>"

definition consistency_tester_init ::
  "redis_faults \<Rightarrow> test_env \<Rightarrow> int list \<Rightarrow> 'c \<Rightarrow> redis_address list \<Rightarrow> (consistency_tester, 'c) test_run
     \<Rightarrow> ((consistency_tester, 'c) test_run listener_class, (consistency_tester, 'c) test_run listening) py"
where
  "consistency_tester_init rf env mchains client addresses s =
     py_bind (tester_init rf ct_hooks env mchains client addresses s) (\<lambda>l.
       py_return (set_self (ct_init mchains (length addresses)) l))"

definition queue_tester_init ::
  "redis_faults \<Rightarrow> test_env \<Rightarrow> int list \<Rightarrow> 'c \<Rightarrow> redis_address list \<Rightarrow> (queue_tester, 'c) test_run
     \<Rightarrow> ((queue_tester, 'c) test_run listener_class, (queue_tester, 'c) test_run listening) py"
where
  "queue_tester_init rf env mchains client addresses s =
     py_bind (tester_init rf qt_hooks env mchains client addresses s) (\<lambda>l.
       py_return (set_self (qt_init mchains (length addresses)) l))"

lemma keys_enumerate: "dict_keys (dict_update [] (enumerate k xs)) = [k..<k + length xs]"
proof (induction xs rule: rev_induct)
  case (snoc x xs)
  have "dict_keys (dict_set d n v) = dict_keys d @ [n]" if "n \<notin> set (dict_keys d)" for d :: "(nat, 'a) dict" and n v
    using that by (induction d) (auto simp: dict_keys_def)
  with snoc show ?case by (simp add: enumerate_append_eq dict_update_def)
qed (simp add: dict_update_def dict_keys_def)

lemma tester_init_returns:
  assumes "no_faults rf" and "rl_connections c = []"
  shows "\<exists>c'. tester_init rf hs env mchains client addresses s c = (Inr (start_listening c'
      (s\<lparr>ts_mchains := mchains, ts_client := client\<rparr>)), c') \<and>
    wf_dict (rl_connections c') \<and> dict_keys (rl_connections c') = [0..<length addresses] \<and>
    rl_handlers c' = rl_handlers c @ [delivery_handler hs env]"
  using assms wf_dict_update [of "[]" "enumerate 0 addresses"] keys_enumerate [of 0 addresses]
  by (simp add: tester_init_def listen_def register_handler_def py_defs prepare_connections_eq Let_def wf_dict_def)

section \<open>A sleep of the test\<close>

text \<open>
  The handler's exceptions end the listening task.  The tester's model of a sleep makes the deliveries of
  the log one by one and marks the end of the task in \<open>ts_listening\<close>; the listener does the same.
\<close>

lemma not_listening: "\<not> ts_listening s \<Longrightarrow> py_for ds (listener_delivers hs env) s = (Inr (), s)"
  by (induction ds) (simp_all add: py_defs listener_delivers_def)

lemma handler_keeps_listening:
  "tester_on_delivery hs env d s = (r, b) \<Longrightarrow> ts_listening b = ts_listening s \<and> ts_sleeps b = ts_sleeps s"
  by (auto simp: tester_on_delivery_def py_defs perf_counter_def on_self_def Let_def split: prod.splits sum.splits)

lemma told_tester:
  "ts_listening s \<Longrightarrow> told_by [delivery_handler hs env] s ds = (r, b) \<Longrightarrow>
     py_for ds (listener_delivers hs env) s = (Inr (), b\<lparr>ts_listening := r = Inr ()\<rparr>) \<and>
     ts_listening b \<and> ts_sleeps b = ts_sleeps s"
proof (induction ds arbitrary: s)
  case Nil
  then show ?case by (auto simp: told_by_def py_return_def)
next
  case (Cons d ds)
  obtain x s1 where d: "tester_on_delivery hs env d s = (x, s1)" by fastforce
  from handler_keeps_listening [OF d] Cons.prems(1) have
    s1: "ts_listening s1" "ts_sleeps s1 = ts_sleeps s" by simp_all
  have head: "deliver [delivery_handler hs env] d s = (x, s1)"
    using d by (cases x) (simp_all add: deliver_def delivery_handler_def py_defs)
  have step: "listener_delivers hs env d s = (Inr (), s1\<lparr>ts_listening := x = Inr ()\<rparr>)"
    using Cons.prems(1) d s1 by (cases x) (simp_all add: py_defs listener_delivers_def)
  show ?case
  proof (cases x)
    case (Inl e)
    then have "r = Inl e" "b = s1" using Cons.prems(2) head by (simp_all add: told_by_def py_bind_def)
    then show ?thesis using step s1 Inl by (simp add: py_bind_def not_listening)
  next
    case (Inr u)
    then have "told_by [delivery_handler hs env] s1 ds = (r, b)"
      using Cons.prems(2) head by (simp add: told_by_def py_bind_def)
    moreover have "listener_delivers hs env d s = (Inr (), s1)"
      using step Inr s1(1) by (cases s1) simp
    ultimately show ?thesis using Cons.IH [OF s1(1)] s1 by (simp add: py_bind_def)
  qed
qed

lemma listener_makes_deliveries:
  assumes "ts_listening (ls_app l)"
  shows "\<exists>b. py_for (listener_log l mvs) (listener_delivers hs env) (ls_app l) =
      (Inr (), (ls_app (listener_state (listener_run [delivery_handler hs env] (Running l) mvs)))\<lparr>ts_listening := b\<rparr>) \<and>
    (\<forall>l'. listener_run [delivery_handler hs env] (Running l) mvs = Running l' \<longrightarrow> b)"
proof -
  let ?R = "listener_run [delivery_handler hs env] (Running l) mvs"
  obtain r b where rb: "told_by [delivery_handler hs env] (ls_app l) (listener_log l mvs) = (r, b)" by fastforce
  have "r = Inr ()" if "?R = Running l'" for l'
    using that listener_follows_log [of "[delivery_handler hs env]" l mvs] rb
    by (simp add: follows_def listener_log_def listener_state_result result_of_cases result_of_def)
  moreover have "ls_app (listener_state ?R) = b" using listener_tells_log rb by (metis snd_conv)
  ultimately show ?thesis using told_tester [OF assms rb] by blast
qed

text \<open>
  Running the listener itself, with the tester's \<open>_on_delivery\<close> as its handler, through any arrivals and
  rounds leaves the tester as the model of \<open>asyncio.sleep\<close> does when it is given the listener's log, apart
  from the mark that the listening task has ended; while the task runs, it is unmarked.
\<close>

lemma sleep_runs_listener:
  assumes "ts_listening (ls_app l)" and "env_arrivals env (ts_sleeps (ls_app l)) = listener_log l mvs"
    and "L = listener_run [delivery_handler hs env]
      (Running (l\<lparr>ls_app := (ls_app l)\<lparr>ts_sleeps := ts_sleeps (ls_app l) + 1\<rparr>\<rparr>)) mvs"
  shows "\<exists>b. asyncio_sleep hs env delay (ls_app l) =
      (Inr (), (ls_app (listener_state L))\<lparr>ts_listening := b,
        ts_clock := max (ts_clock (ls_app (listener_state L))) (ts_clock (ls_app l) + delay)\<rparr>) \<and>
    (\<forall>l'. L = Running l' \<longrightarrow> b)"
proof -
  let ?l = "l\<lparr>ls_app := (ls_app l)\<lparr>ts_sleeps := ts_sleeps (ls_app l) + 1\<rparr>\<rparr>"
  have log: "listener_log ?l mvs = listener_log l mvs" by (simp add: listener_log_def with_log_def)
  have "ts_listening (ls_app ?l)" using assms(1) by simp
  from listener_makes_deliveries [OF this, of mvs hs env, folded assms(3)] obtain b where
    "py_for (listener_log l mvs) (listener_delivers hs env) (ls_app ?l) =
      (Inr (), (ls_app (listener_state L))\<lparr>ts_listening := b\<rparr>)" "\<forall>l'. L = Running l' \<longrightarrow> b"
    unfolding log by blast
  with assms(2) show ?thesis by (auto simp: asyncio_sleep_def py_defs)
qed

section \<open>A test fed by its listener\<close>

text \<open>
  \<open>sched n\<close> are the moves of Redis and the loop while the test sleeps for the \<open>n\<close>-th time.  The deliveries
  of that sleep are what the log has gained.
\<close>

definition moves_until :: "(nat \<Rightarrow> move list) \<Rightarrow> nat \<Rightarrow> move list" where
  "moves_until sched n = concat (map sched [0..<n])"

definition fed_env :: "(nat \<Rightarrow> time) \<Rightarrow> 's listening \<Rightarrow> (nat \<Rightarrow> move list) \<Rightarrow> test_env" where
  "fed_env lag l sched = \<lparr>env_lag = lag, env_arrivals = (\<lambda>n.
     drop (length (listener_log l (moves_until sched n))) (listener_log l (moves_until sched (Suc n))))\<rparr>"

lemma moves_until_0 [simp]: "moves_until sched 0 = []"
  by (simp add: moves_until_def)

lemma moves_until_Suc: "moves_until sched (Suc n) = moves_until sched n @ sched n"
  by (simp add: moves_until_def)

lemma fed_env_sleep:
  assumes "listener_run [note_delivery] (Running (with_log l [])) (moves_until sched n) = Running k"
  shows "env_arrivals (fed_env lag l sched) n = listener_log k (sched n)"
proof -
  have "listener_log l (moves_until sched n) = ls_app k" using assms by (simp add: listener_log_def)
  then show ?thesis by (simp add: fed_env_def moves_until_Suc log_extends [OF assms])
qed

lemma fed_env_arrives:
  "arrives (fed_env lag l sched) d \<longleftrightarrow> (\<exists>n. d \<in> set (listener_log l (moves_until sched n)))"
proof
  assume "arrives (fed_env lag l sched) d"
  then show "\<exists>n. d \<in> set (listener_log l (moves_until sched n))"
    by (auto simp: arrives_def fed_env_def dest: in_set_dropD)
next
  assume "\<exists>n. d \<in> set (listener_log l (moves_until sched n))"
  then obtain n where "d \<in> set (listener_log l (moves_until sched n))" ..
  then show "arrives (fed_env lag l sched) d"
  proof (induction n)
    case 0
    then show ?case by (simp add: moves_until_def listener_log_def with_log_def)
  next
    case (Suc n)
    show ?case
    proof (cases "d \<in> set (listener_log l (moves_until sched n))")
      case False
      from log_prefix [of l "moves_until sched n" "sched n"] obtain ds where
        "listener_log l (moves_until sched (Suc n)) = listener_log l (moves_until sched n) @ ds"
        unfolding moves_until_Suc by blast
      with Suc.prems False show ?thesis by (auto simp: arrives_def fed_env_def intro!: exI [of _ n])
    qed (rule Suc.IH)
  qed
qed

section \<open>What the slowest node allows\<close>

text \<open>\<open>replies_ok\<close>: every reply names one of the test's chains and carries text.\<close>

definition replies_ok :: "int list \<Rightarrow> nat list \<Rightarrow> (nat \<Rightarrow> move list) \<Rightarrow> bool" where
  "replies_ok mchains sources sched \<longleftrightarrow>
     (\<forall>n. \<forall>i \<in> set sources. \<forall>m \<in> set (arrived i (moves_until sched n)). reply_ok mchains m)"

lemma log_mono:
  assumes "n \<le> n'"
  shows "set (listener_log l (moves_until sched n)) \<subseteq> set (listener_log l (moves_until sched n'))"
  using assms
proof (induction rule: dec_induct)
  case (step m)
  from log_prefix [of l "moves_until sched m" "sched m"] obtain ds where
    "listener_log l (moves_until sched (Suc m)) = listener_log l (moves_until sched m) @ ds"
    unfolding moves_until_Suc by blast
  with step.IH show ?case by auto
qed simp

lemma fed_lockstep:
  assumes "wf_dict (rl_connections c)" and "rl_connections c \<noteq> []"
    and "replies_ok mchains (dict_keys (rl_connections c)) sched"
  shows "\<exists>s. in_lockstep [note_delivery] (dict_keys (rl_connections c)) [] (moves_until sched n) s
    (turns (dict_keys (rl_connections c)) (moves_until sched n))
    (listener_log (start_listening c a) (moves_until sched n))"
proof -
  have "reply_ok mchains m"
    if "i \<in> set (dict_keys (rl_connections c))" "m \<in> set (arrived i (moves_until sched n))" for i m
    using assms(3) that by (simp add: replies_ok_def)
  then obtain s where
    "listener_run [note_delivery] (Running (with_log (start_listening c a) [])) (moves_until sched n) = Running s"
    "in_lockstep [note_delivery] (dict_keys (rl_connections c)) [] (moves_until sched n) s
      (turns (dict_keys (rl_connections c)) (moves_until sched n)) (ls_app s)"
    using lockstep_log [OF assms(1,2), of "moves_until sched n" mchains a] by blast
  then show ?thesis by (auto simp: listener_log_def)
qed

lemma fed_arrivals_ok:
  assumes "wf_dict (rl_connections c)" and "rl_connections c \<noteq> []"
    and "replies_ok mchains (dict_keys (rl_connections c)) sched"
    and "dict_keys (rl_connections c) = [0..<n]"
  shows "arrivals_ok mchains n (fed_env lag (start_listening c a) sched)"
  unfolding arrivals_ok_def fed_env_arrives
proof (intro allI impI, elim exE)
  fix ch i x N
  assume d: "(ch, i, x) \<in> set (listener_log (start_listening c a) (moves_until sched N))"
  from fed_lockstep [OF assms(1-3), of N a] obtain s k where
    inv: "in_lockstep [note_delivery] (dict_keys (rl_connections c)) [] (moves_until sched N) s k
      (listener_log (start_listening c a) (moves_until sched N))" by blast
  with d have i: "i \<in> set (dict_keys (rl_connections c))" by (auto simp: in_lockstep_def)
  have "reply_ok mchains m" if "m \<in> set (arrived i (moves_until sched N))" for m
    using assms(3) that i by (simp add: replies_ok_def)
  from lockstep_deliveries [OF inv d this] show "event_ok (set mchains) n (Delivered ch i x)"
    by (simp add: assms(4))
qed

lemma fed_arrivals_card:
  assumes "wf_dict (rl_connections c)" and "rl_connections c \<noteq> []"
    and "replies_ok mchains (dict_keys (rl_connections c)) sched"
    and "j \<in> set (dict_keys (rl_connections c))" and "\<And>N. length (arrived j (moves_until sched N)) \<le> b"
    and "i \<in> set (dict_keys (rl_connections c))"
  shows "finite {(ch, x). arrives (fed_env lag (start_listening c a) sched) (ch, i, x)} \<and>
    card {(ch, x). arrives (fed_env lag (start_listening c a) sched) (ch, i, x)} \<le> b"
proof (rule finite_if_finite_subsets_card_bdd)
  fix G assume sub: "G \<subseteq> {(ch, x). arrives (fed_env lag (start_listening c a) sched) (ch, i, x)}" and fin: "finite G"
  let ?log = "\<lambda>N. listener_log (start_listening c a) (moves_until sched N)"
  have "\<exists>N. \<forall>(ch, x) \<in> G. (ch, i, x) \<in> set (?log N)" using fin sub
  proof induction
    case (insert p G)
    then obtain N where N: "\<forall>(ch, x) \<in> G. (ch, i, x) \<in> set (?log N)" by auto
    obtain ch x where p: "p = (ch, x)" by (cases p)
    with insert.prems obtain N' where "(ch, i, x) \<in> set (?log N')" by (auto simp: fed_env_arrives)
    moreover have "set (?log N) \<subseteq> set (?log (max N N'))" "set (?log N') \<subseteq> set (?log (max N N'))"
      by (simp_all add: log_mono)
    ultimately have "\<forall>(ch, x) \<in> insert p G. (ch, i, x) \<in> set (?log (max N N'))"
      using N unfolding p by fast
    then show ?case ..
  qed simp
  then obtain N where N: "\<forall>(ch, x) \<in> G. (ch, i, x) \<in> set (?log N)" ..
  let ?ds = "from_source i (?log N)"
  from fed_lockstep [OF assms(1-3), of N a] obtain s k where
    inv: "in_lockstep [note_delivery] (dict_keys (rl_connections c)) [] (moves_until sched N) s k (?log N)"
    by blast
  have "G \<subseteq> (\<lambda>(ch, i, x). (ch, x)) ` set ?ds"
    using N by (force simp: from_source_def image_iff)
  then have "card G \<le> card ((\<lambda>(ch, i, x). (ch, x)) ` set ?ds)" by (intro card_mono) auto
  also have "\<dots> \<le> card (set ?ds)" by (rule card_image_le) simp
  also have "\<dots> \<le> length ?ds" by (rule card_length)
  also have "\<dots> \<le> b" using lockstep_slowest [OF inv assms(6,4)] assms(5) le_trans by blast
  finally show "card G \<le> b" .
qed

lemma chain_sum_card:
  assumes "finite X"
  shows "distinct cs \<Longrightarrow> (\<Sum>c\<leftarrow>cs. card {m. (c, m) \<in> X}) \<le> card {p \<in> X. fst p \<in> set cs}"
proof (induction cs)
  case (Cons c cs)
  have "{m. (c, m) \<in> X} = snd ` {p \<in> X. fst p = c}" by force
  moreover have "card (snd ` {p \<in> X. fst p = c}) \<le> card {p \<in> X. fst p = c}"
    by (rule card_image_le) (use assms in simp)
  moreover have "card ({p \<in> X. fst p = c} \<union> {p \<in> X. fst p \<in> set cs}) =
      card {p \<in> X. fst p = c} + card {p \<in> X. fst p \<in> set cs}"
    by (rule card_Un_disjoint) (use assms Cons.prems in auto)
  moreover have "{p \<in> X. fst p = c} \<union> {p \<in> X. fst p \<in> set cs} = {p \<in> X. fst p \<in> set (c # cs)}" by auto
  ultimately show ?case using Cons by simp
qed simp

lemma int_sum_list_map: "(\<Sum>x\<leftarrow>xs. int (f x)) = int (\<Sum>x\<leftarrow>xs. f x)"
  by (induction xs) simp_all

lemma chain_sum_le: "finite X \<Longrightarrow> distinct cs \<Longrightarrow> card X \<le> b \<Longrightarrow> (\<Sum>c\<leftarrow>cs. card {m. (c, m) \<in> X}) \<le> b"
  using chain_sum_card [of X cs] card_mono [of X "{p \<in> X. fst p \<in> set cs}"] by fastforce

text \<open>A message counts as delivered only through deliveries that the listener has made.\<close>

definition heard_from :: "nat \<Rightarrow> tracker_event list \<Rightarrow> (int \<times> codepoints) set" where
  "heard_from i es = {(c, m). \<exists>S. recipients es c m = Some S \<and> i \<in> S}"

lemma heard_from_card:
  assumes "finite {(ch, x). arrives env (ch, i, x)}" "card {(ch, x). arrives env (ch, i, x)} \<le> b"
    and "\<And>c d. Delivered c i d \<in> set es \<Longrightarrow> arrives env (c, i, d)"
  shows "finite (heard_from i es) \<and> card (heard_from i es) \<le> b"
proof -
  let ?A = "{(ch, x). arrives env (ch, i, x)}"
  have "heard_from i es \<subseteq> (\<lambda>(ch, x). (ch, text_of x)) ` ?A"
    unfolding heard_from_def using recipients_source [of es] assms(3) by (fastforce simp: image_iff)
  with assms(1) have "finite (heard_from i es)" "card (heard_from i es) \<le> card ((\<lambda>(ch, x). (ch, text_of x)) ` ?A)"
    by (simp_all add: finite_subset card_mono)
  then show ?thesis using card_image_le [OF assms(1)] assms(2) le_trans by blast
qed

lemma delivered_cards:
  assumes "\<And>e. e \<in> set es \<Longrightarrow> event_ok C n e" and j: "j < n"
    and heard: "\<And>i. i < n \<Longrightarrow> finite (heard_from i es) \<and> card (heard_from i es) \<le> b"
  shows "card (fully_delivered n es) \<le> b" and "card (fully_delivered n es \<union> partly_delivered n es) \<le> n * b"
proof -
  have "fully_delivered n es \<subseteq> heard_from j es" using j by (auto simp: fully_delivered_def heard_from_def)
  then show "card (fully_delivered n es) \<le> b" using heard [OF j] card_mono le_trans by blast
  have "fully_delivered n es \<union> partly_delivered n es \<subseteq> (\<Union>i \<in> {..<n}. heard_from i es)"
    using recipients_bound [OF assms(1)] j by (fastforce simp: fully_delivered_def partly_delivered_def heard_from_def)
  then have "card (fully_delivered n es \<union> partly_delivered n es) \<le> card (\<Union>i \<in> {..<n}. heard_from i es)"
    using heard by (intro card_mono) auto
  also have "\<dots> \<le> (\<Sum>i \<in> {..<n}. card (heard_from i es))" by (rule card_UN_le) simp
  also have "\<dots> \<le> (\<Sum>i \<in> {..<n}. b)" using heard by (intro sum_mono) simp
  finally show "card (fully_delivered n es \<union> partly_delivered n es) \<le> n * b" by simp
qed

lemma consistency_init_returns:
  assumes "consistency_tester_init rf env mchains client addresses s cls = (Inr l, cls')"
    and "no_faults rf" and "rl_connections cls = []"
  shows "l = start_listening cls' (ls_app l) \<and> wf_dict (rl_connections cls') \<and>
    dict_keys (rl_connections cls') = [0..<length addresses] \<and>
    ls_app l = s\<lparr>ts_mchains := mchains, ts_client := client, ts_self := ct_init mchains (length addresses)\<rparr>"
proof -
  from tester_init_returns [OF assms(2,3), of ct_hooks env mchains client addresses s] assms(1)
  show ?thesis
    by (auto simp: consistency_tester_init_def py_bind_def py_return_def set_self_def start_listening_def)
qed

lemma fed_report:
  assumes conn: "wf_dict (rl_connections c)" "dict_keys (rl_connections c) = [0..<n]" "0 < n"
    and ok: "replies_ok mchains (dict_keys (rl_connections c)) sched"
    and j: "j < n" and few: "\<And>N. length (arrived j (moves_until sched N)) \<le> b"
    and l: "l = start_listening c a"
    and run: "tester_test ct_hooks ct_get_result send (fed_env lag l sched) fuel duration rps
      completion_time k s = (Inr (Some (result, avg)), s')"
    and idle: "ct_idle mchains n (ts_self s)" "ts_mchains s = mchains" "distinct mchains" "gen_at g (ts_generator s)"
  shows "\<exists>es. result = map (\<lambda>c. (c, int (card {m. (c, m) \<in> fully_delivered n es}),
      int (card {m. (c, m) \<in> partly_delivered n es}), int (card {m. (c, m) \<in> not_delivered es}))) mchains \<and>
    card (fully_delivered n es) \<le> b \<and> card (fully_delivered n es \<union> partly_delivered n es) \<le> n * b"
proof -
  let ?env = "fed_env lag (start_listening c a) sched"
  have ne: "rl_connections c \<noteq> []" using conn(3) arg_cong [OF conn(2), of length] by (auto simp: dict_keys_def)
  have keys: "i \<in> set (dict_keys (rl_connections c)) \<longleftrightarrow> i < n" for i by (simp add: conn(2))
  obtain n' where n: "n = Suc n'" using conn(3) by (cases n) auto
  note arr = fed_arrivals_ok [OF conn(1) ne ok conn(2), of lag a]
  obtain cs r where tr: "ct.tracks n' mchains (ts_self s') (history tracker_of cs)"
    and res: "ct_get_result (ts_self s') = Inr result"
    and evs: "\<And>e. e \<in> set (history tracker_of cs) \<Longrightarrow> event_ok (set mchains) n e"
    and texts: "sent_texts (history tracker_of cs) =
      map (\<lambda>(c, d). (c, text_of d)) (words_to k (ts_generator s) (concat (replicate r mchains)))"
    and src: "\<And>c i d. Delivered c i d \<in> set (history tracker_of cs) \<Longrightarrow> arrives ?env (c, i, d)"
    by (rule consistency_run_events [OF run [unfolded l] idle(1) [unfolded n] idle(2,3,4) arr [unfolded n]])
      (use n in blast)
  let ?es = "history tracker_of cs"
  have "distinct (sent_texts ?es)" unfolding texts by (rule distinct_words_to [OF idle(4)])
  from ct_report_tracks [OF tr idle(3) _ this] evs res
  have "result = map (\<lambda>c. (c, int (card {m. (c, m) \<in> fully_delivered n ?es}),
      int (card {m. (c, m) \<in> partly_delivered n ?es}), int (card {m. (c, m) \<in> not_delivered ?es}))) mchains"
    by (simp add: n)
  moreover have heard: "finite (heard_from i ?es) \<and> card (heard_from i ?es) \<le> b" if "i < n" for i
  proof -
    have "j \<in> set (dict_keys (rl_connections c))" "i \<in> set (dict_keys (rl_connections c))"
      using j that by (simp_all add: keys)
    from fed_arrivals_card [OF conn(1) ne ok this(1) few this(2), of lag a] heard_from_card [OF _ _ src]
    show ?thesis by blast
  qed
  ultimately show ?thesis using delivered_cards [OF evs j heard] by blast
qed

text \<open>In all its sleeps a test has heard what the listener's log holds.\<close>

lemma fed_env_log: "arrivals_between (fed_env lag l sched) 0 n = listener_log l (moves_until sched n)"
proof (induction n)
  case 0
  show ?case by (simp add: listener_log_def with_log_def)
next
  case (Suc n)
  from log_prefix [of l "moves_until sched n" "sched n"] obtain ds where
    "listener_log l (moves_until sched (Suc n)) = listener_log l (moves_until sched n) @ ds"
    unfolding moves_until_Suc by blast
  with Suc show ?case by (simp add: arrivals_between_def fed_env_def)
qed

section \<open>Properties\<close>

text \<open>
  C12. What a test is told by its nodes.  In a finished consistency test fed by its own listener, from
  both constructors on, the \<open>on_delivery\<close> calls behind the result are, node by node, exactly the first
  \<open>k\<close> answers this node has given, each with the chain its key names, in order, none lost and none
  repeated.  \<open>k\<close> is the same for all nodes: it is the number of turns of the event loop, up to the last
  sleep of the test, at which every single node had an answer that was still to be handled.  Answers a
  node has given beyond the \<open>k\<close>-th are never reported.
\<close>

theorem tester_told_in_lockstep:
  assumes "consistency_tester_init rf env mchains client addresses s0 cls = (Inr l, cls')"
    and "no_faults rf" and "rl_connections cls = []" and "addresses \<noteq> []" and "distinct mchains"
    and "gen_at g (ts_generator s0)" and "ts_listening s0" and "ts_sleeps s0 = 0"
    and "tester_test ct_hooks ct_get_result send (fed_env lag l sched) fuel duration rps completion_time k0
      (ls_app l) = (Inr (Some (result, avg)), s')"
    and "replies_ok mchains [0..<length addresses] sched"
  defines "moves \<equiv> moves_until sched (ts_sleeps s')"
  defines "k \<equiv> turns [0..<length addresses] moves"
  shows "\<exists>calls. ts_self s' = run_calls (hook_apply ct_hooks) (ct_init mchains (length addresses)) calls \<and>
    ct_get_result (ts_self s') = Inr result \<and>
    (\<forall>d \<in> set (heard calls). fst (snd d) < length addresses) \<and>
    (\<forall>i < length addresses. k \<le> length (arrived i moves) \<and>
       map_res (delivery_of i) (take k (arrived i moves)) = Inr (from_source i (heard calls)))"
proof -
  let ?n = "length addresses"
  from consistency_init_returns [OF assms(1-3)] have l: "l = start_listening cls' (ls_app l)"
    and conn: "wf_dict (rl_connections cls')" "dict_keys (rl_connections cls') = [0..<?n]"
    and app: "ls_app l = s0\<lparr>ts_mchains := mchains, ts_client := client, ts_self := ct_init mchains ?n\<rparr>"
    by blast+
  obtain n where n: "?n = Suc n" using assms(4) by (cases addresses) auto
  have ne: "rl_connections cls' \<noteq> []" using arg_cong [OF conn(2), of length] assms(4) by (auto simp: dict_keys_def)
  have ok: "replies_ok mchains (dict_keys (rl_connections cls')) sched" using assms(10) by (simp add: conn(2))
  have start: "ct_idle mchains (Suc n) (ts_self (ls_app l))" "ts_mchains (ls_app l) = mchains"
    "gen_at g (ts_generator (ls_app l))" "ts_listening (ls_app l)" "ts_sleeps (ls_app l) = 0"
    using assms(6-8) by (simp_all add: app ct_idle_def ct_init_def n)
  have arr: "arrivals_ok mchains (Suc n) (fed_env lag l sched)"
    using fed_arrivals_ok [OF conn(1) ne ok conn(2), of lag "ls_app l"] by (simp add: n flip: l)
  obtain calls r where rec: "test_record ct_hooks send k0 (ls_app l) r calls s'"
    and res: "ct_get_result (ts_self s') = Inr result"
    and told: "heard calls = arrivals_between (fed_env lag l sched) 0 (ts_sleeps s')"
    by (rule consistency_run_events [OF assms(9) start(1,2) assms(5) start(3) arr]) (use start(4,5) in simp)
  from fed_lockstep [OF conn(1) ne ok, of "ts_sleeps s'" "ls_app l"] obtain st where
    "in_lockstep [note_delivery] [0..<?n] [] moves st k (heard calls)"
    unfolding conn(2) told fed_env_log moves_def k_def by (metis l)
  then have lock: "(\<forall>d \<in> set (heard calls). fst (snd d) < ?n) \<and> (\<forall>i < ?n. k \<le> length (arrived i moves) \<and>
       map_res (delivery_of i) (take k (arrived i moves)) = Inr (from_source i (heard calls)))"
    by (simp add: in_lockstep_def)
  have "ts_self s' = run_calls (hook_apply ct_hooks) (ct_init mchains ?n) calls"
    using rec by (simp add: test_record_def app)
  with res lock show ?thesis by blast
qed

text \<open>Two nodes and one chain; node 0 answers twice, node 1 once, and the loop gets to run.\<close>

definition quiet_redis :: redis_faults where
  "quiet_redis = \<lparr>on_create = (\<lambda>_. None), on_delete = (\<lambda>_ _. None)\<rparr>"

definition sample_class :: "(consistency_tester, udp_client) test_run listener_class" where
  "sample_class = \<lparr>rl_connections = [], rl_handlers = [], rl_deleted = []\<rparr>"

definition sample_sched :: "nat \<Rightarrow> move list" where
  "sample_sched n = (if n = 0 then [Arrive 0 (py_encode ''5'', message_data 0 ''a''), Round [0, 1],
       Arrive 0 (py_encode ''5'', message_data 0 ''b''), Arrive 1 (py_encode ''5'', message_data 0 ''a''),
       Round [1, 0], Round [1, 0]] else [])"

definition sample_redis :: "redis_address list" where
  "sample_redis = [(''a'', 2), (''b'', 2)]"

definition sample_start :: "(consistency_tester, udp_client) test_run listening" where
  "sample_start = projr (fst (consistency_tester_init quiet_redis sample_ct_env [5]
     (mk_udp_client 7 [(''a'', 1)]) sample_redis sample_ct_tester sample_class))"

lemma sample_start_eq:
  "\<exists>cls. consistency_tester_init quiet_redis sample_ct_env [5] (mk_udp_client 7 [(''a'', 1)]) sample_redis
     sample_ct_tester sample_class = (Inr sample_start, cls)"
proof -
  have "no_faults quiet_redis" "rl_connections sample_class = []"
    by (simp_all add: no_faults_def quiet_redis_def sample_class_def)
  from tester_init_returns [OF this, of ct_hooks sample_ct_env "[5]" "mk_udp_client 7 [(''a'', 1)]" sample_redis
      sample_ct_tester] show ?thesis
    by (auto simp: sample_start_def consistency_tester_init_def py_bind_def py_return_def)
qed

lemma sample_start_fields:
  "ls_tasks sample_start = [0, 1]" "ls_pending sample_start = []" "ls_inbox sample_start = (\<lambda>_. [])"
  "ls_app sample_start = sample_ct_tester\<lparr>ts_self := ct_init [5] 2\<rparr>"
proof -
  obtain cls where run: "consistency_tester_init quiet_redis sample_ct_env [5] (mk_udp_client 7 [(''a'', 1)])
      sample_redis sample_ct_tester sample_class = (Inr sample_start, cls)" using sample_start_eq by blast
  have ok: "no_faults quiet_redis" "rl_connections sample_class = []"
    by (simp_all add: no_faults_def quiet_redis_def sample_class_def)
  note init = consistency_init_returns [OF run ok]
  have l: "sample_start = start_listening cls (ls_app sample_start)" using init by blast
  have k: "dict_keys (rl_connections cls) = [0, 1]" using init by (simp add: sample_redis_def)
  have app: "ls_app sample_start = sample_ct_tester\<lparr>ts_self := ct_init [5] 2\<rparr>"
    using init [THEN conjunct2, THEN conjunct2, THEN conjunct2]
    by (simp add: sample_redis_def sample_ct_tester_def numeral_2_eq_2)
  show "ls_tasks sample_start = [0, 1]" "ls_pending sample_start = []" "ls_inbox sample_start = (\<lambda>_. [])"
    by (subst l, simp add: start_listening_def k)+
  show "ls_app sample_start = sample_ct_tester\<lparr>ts_self := ct_init [5] 2\<rparr>" by (rule app)
qed

lemma sample_log:
  "listener_log sample_start (sample_sched 0) = [(5, 1, message_data 0 ''a''), (5, 0, message_data 0 ''a'')]"
  by (simp add: sample_sched_def listener_log_def with_log_def sample_start_fields listener_run_def
      wait_returns_def listen_round_def asyncio_wait_def handle_task_eq delivery_of_def key_5 deliver_note
      py_defs insert_commute fun_upd_twist)

definition sample_fed :: test_env where
  "sample_fed = fed_env (\<lambda>_. 1 / 10) sample_start sample_sched"

lemma sample_moves_until: "0 < n \<Longrightarrow> moves_until sample_sched n = sample_sched 0"
proof (induction n)
  case (Suc n)
  then show ?case
    by (cases n) (simp_all add: moves_until_Suc, simp_all add: moves_until_def sample_sched_def)
qed simp

lemma sample_fed_later: "1 \<le> n \<Longrightarrow> env_arrivals sample_fed n = []"
  by (simp add: sample_fed_def fed_env_def sample_moves_until)

lemma sample_fed_returns:
  "\<exists>r avg s'. tester_test ct_hooks ct_get_result (udp_send no_send_errors) sample_fed 9 3 2 2 0
     (ls_app sample_start) = (Inr (Some (r, avg)), s')"
proof -
  have "\<exists>r avg s'. tester_test ct_hooks ct_get_result (udp_send no_send_errors) sample_fed 9 3 2 2 0
      (ls_app sample_start) = (Inr (Some (r, avg)), s') \<and> ct_valid [5] 2 (ts_self s')"
    by (rule cts.test_goes [where K = 1, OF _ _ _ _ sample_fed_later])
      (simp_all add: time_window_sec_def lags_ok_def sample_fed_def fed_env_def sample_start_fields
        sample_ct_tester_def ct_idle_def ct_init_def udp_budget_def mk_udp_client_def in_u64_def wire_chains_def)
  then show ?thesis by blast
qed

lemma sample_replies_ok: "replies_ok [5] [0..<length sample_redis] sample_sched"
proof -
  have all: "reply_ok [5] m" if "m \<in> set (arrived i (sample_sched 0))" for i m
    using that by (auto simp: sample_sched_def arrived_def reply_ok_def key_5 message_data_decodable split: if_splits)
  have "reply_ok [5] m" if "m \<in> set (arrived i (moves_until sample_sched n))" for i n m
    using that all [of m i] by (cases "n = 0") (simp_all add: sample_moves_until)
  then show ?thesis by (simp add: replies_ok_def)
qed

theorem tester_told_in_lockstep_witness:
  "\<exists>result avg s' calls. tester_test ct_hooks ct_get_result (udp_send no_send_errors) sample_fed 9 3 2 2 0
     (ls_app sample_start) = (Inr (Some (result, avg)), s') \<and> 0 < ts_sleeps s' \<and>
   ts_self s' = run_calls (hook_apply ct_hooks) (ct_init [5] 2) calls \<and>
   from_source 0 (heard calls) = [(5, 0, message_data 0 ''a'')] \<and>
   from_source 1 (heard calls) = [(5, 1, message_data 0 ''a'')]"
proof -
  obtain result avg s' where run: "tester_test ct_hooks ct_get_result (udp_send no_send_errors) sample_fed 9 3 2 2 0
     (ls_app sample_start) = (Inr (Some (result, avg)), s')" using sample_fed_returns by blast
  have slept: "0 < ts_sleeps s'"
    using tester_test_sleeps [OF run]
    by (simp add: sample_start_fields sample_ct_tester_def sample_fed_def fed_env_def time_window_sec_def)
  obtain cls where init: "consistency_tester_init quiet_redis sample_ct_env [5] (mk_udp_client 7 [(''a'', 1)])
      sample_redis sample_ct_tester sample_class = (Inr sample_start, cls)" using sample_start_eq by blast
  have ok: "no_faults quiet_redis" "rl_connections sample_class = []" "sample_redis \<noteq> []" "distinct [5]"
    "ts_listening sample_ct_tester" "ts_sleeps sample_ct_tester = 0" "length sample_redis = 2"
    by (simp_all add: no_faults_def quiet_redis_def sample_class_def sample_redis_def sample_ct_tester_def)
  have gen: "gen_at 1 (ts_generator sample_ct_tester)" using gen_at_start by (simp add: sample_ct_tester_def)
  have turns: "turns [0..<2] (moves_until sample_sched (ts_sleeps s')) = 1"
    using slept by (simp add: sample_moves_until sample_sched_def turns_def arrived_def upt_rec insert_commute)
  have first: "take 1 (arrived 0 (moves_until sample_sched (ts_sleeps s'))) = [(py_encode ''5'', message_data 0 ''a'')]"
    "take 1 (arrived 1 (moves_until sample_sched (ts_sleeps s'))) = [(py_encode ''5'', message_data 0 ''a'')]"
    using slept by (simp_all add: sample_moves_until sample_sched_def arrived_def)
  from tester_told_in_lockstep [OF init ok(1-4) gen ok(5,6) run [unfolded sample_fed_def] sample_replies_ok]
  obtain calls where calls: "ts_self s' = run_calls (hook_apply ct_hooks) (ct_init [5] 2) calls"
    "\<And>i. i < 2 \<Longrightarrow> map_res (delivery_of i) (take 1 (arrived i (moves_until sample_sched (ts_sleeps s'))))
       = Inr (from_source i (heard calls))"
    unfolding ok(7) turns by blast
  from calls(2) [of 0] calls(2) [of 1] have
    "from_source 0 (heard calls) = [(5, 0, message_data 0 ''a'')]"
    "from_source 1 (heard calls) = [(5, 1, message_data 0 ''a'')]"
    by (simp_all only: first) (simp_all add: delivery_of_def key_5)
  with run slept calls(1) show ?thesis by blast
qed

text \<open>
  C13. The slowest node bounds the report.  In a finished consistency test whose deliveries come from its
  own listener, a node that has answered \<open>b\<close> times in all lets at most \<open>b\<close> messages count as delivered
  by every node, on all chains together, and at most \<open>n * b\<close> as delivered by any: a node that never
  answers makes the whole test lost, whatever the other nodes delivered.
\<close>

theorem slowest_node_bounds_report:
  assumes "consistency_tester_init rf env mchains client addresses s0 cls = (Inr l, cls')"
    and "no_faults rf" and "rl_connections cls = []" and "distinct mchains" and "gen_at g (ts_generator s0)"
    and "tester_test ct_hooks ct_get_result send (fed_env lag l sched) fuel duration rps completion_time k
      (ls_app l) = (Inr (Some (result, avg)), s')"
    and "replies_ok mchains [0..<length addresses] sched"
    and "j < length addresses" and "\<And>N. length (arrived j (moves_until sched N)) \<le> b"
  shows "(\<Sum>(c, good, partial, lost)\<leftarrow>result. good) \<le> int b \<and>
    (\<Sum>(c, good, partial, lost)\<leftarrow>result. good + partial) \<le> int (length addresses * b)"
proof -
  let ?n = "length addresses"
  from consistency_init_returns [OF assms(1-3)] have l: "l = start_listening cls' (ls_app l)"
    and conn: "wf_dict (rl_connections cls')" "dict_keys (rl_connections cls') = [0..<?n]"
    and app: "ls_app l = s0\<lparr>ts_mchains := mchains, ts_client := client, ts_self := ct_init mchains ?n\<rparr>"
    by blast+
  have "ct_idle mchains ?n (ts_self (ls_app l))" "ts_mchains (ls_app l) = mchains"
    "gen_at g (ts_generator (ls_app l))"
    using assms(5) by (simp_all add: app ct_idle_def ct_init_def)
  moreover have "0 < ?n" using assms(8) by linarith
  moreover have "replies_ok mchains (dict_keys (rl_connections cls')) sched" using assms(7) by (simp add: conn(2))
  ultimately obtain es where res: "result = map (\<lambda>c. (c, int (card {m. (c, m) \<in> fully_delivered ?n es}),
      int (card {m. (c, m) \<in> partly_delivered ?n es}), int (card {m. (c, m) \<in> not_delivered es}))) mchains"
    and full: "card (fully_delivered ?n es) \<le> b"
    and some: "card (fully_delivered ?n es \<union> partly_delivered ?n es) \<le> ?n * b"
    using fed_report [OF conn _ _ assms(8,9) l assms(6) _ _ assms(4)] by blast
  let ?F = "fully_delivered ?n es" and ?P = "partly_delivered ?n es"
  have "card {m. (c, m) \<in> ?F} + card {m. (c, m) \<in> ?P} = card {m. (c, m) \<in> ?F \<union> ?P}" for c
  proof -
    have fin: "finite {m. (c, m) \<in> X}" if "finite X" for X :: "(int \<times> codepoints) set"
      using finite_vimageI [OF that, of "Pair c"] by (simp add: vimage_def inj_on_def)
    have "{m. (c, m) \<in> ?F \<union> ?P} = {m. (c, m) \<in> ?F} \<union> {m. (c, m) \<in> ?P}"
      "{m. (c, m) \<in> ?F} \<inter> {m. (c, m) \<in> ?P} = {}"
      by (auto simp: fully_delivered_def partly_delivered_def)
    then show ?thesis using fin [OF recipients_sets_finite(1)] fin [OF recipients_sets_finite(2)]
      by (simp add: card_Un_disjoint)
  qed
  then have "(\<Sum>(c, good, partial, lost)\<leftarrow>result. good + partial) =
      int (\<Sum>c\<leftarrow>mchains. card {m. (c, m) \<in> ?F \<union> ?P})"
    by (simp add: res comp_def int_sum_list_map flip: of_nat_add)
  moreover have "(\<Sum>(c, good, partial, lost)\<leftarrow>result. good) = int (\<Sum>c\<leftarrow>mchains. card {m. (c, m) \<in> ?F})"
    by (simp add: res comp_def int_sum_list_map)
  moreover have "(\<Sum>c\<leftarrow>mchains. card {m. (c, m) \<in> ?F}) \<le> b"
    by (rule chain_sum_le [OF _ assms(4) full]) (simp add: recipients_sets_finite)
  moreover have "(\<Sum>c\<leftarrow>mchains. card {m. (c, m) \<in> ?F \<union> ?P}) \<le> ?n * b"
    by (rule chain_sum_le [OF _ assms(4) some]) (simp add: recipients_sets_finite)
  ultimately show ?thesis by (simp only: of_nat_le_iff)
qed

theorem slowest_node_bounds_report_witness:
  "\<exists>result avg s'. tester_test ct_hooks ct_get_result (udp_send no_send_errors) sample_fed 9 3 2 2 0
     (ls_app sample_start) = (Inr (Some (result, avg)), s') \<and>
   (\<Sum>(c, good, partial, lost)\<leftarrow>result. good) \<le> 1 \<and> (\<Sum>(c, good, partial, lost)\<leftarrow>result. good + partial) \<le> 2"
proof -
  obtain result avg s' where run: "tester_test ct_hooks ct_get_result (udp_send no_send_errors) sample_fed 9 3 2 2 0
     (ls_app sample_start) = (Inr (Some (result, avg)), s')" using sample_fed_returns by blast
  obtain cls where init: "consistency_tester_init quiet_redis sample_ct_env [5] (mk_udp_client 7 [(''a'', 1)])
      sample_redis sample_ct_tester sample_class = (Inr sample_start, cls)" using sample_start_eq by blast
  have ok: "no_faults quiet_redis" "rl_connections sample_class = []" "distinct [5]"
    by (simp_all add: no_faults_def quiet_redis_def sample_class_def)
  have gen: "gen_at 1 (ts_generator sample_ct_tester)" using gen_at_start by (simp add: sample_ct_tester_def)
  have one: "1 < length sample_redis" by (simp add: sample_redis_def)
  have few: "length (arrived 1 (moves_until sample_sched N)) \<le> 1" for N
    by (cases "N = 0") (simp_all add: sample_moves_until, simp add: sample_sched_def arrived_def)
  from slowest_node_bounds_report [OF init ok gen run [unfolded sample_fed_def] sample_replies_ok one few] run
  show ?thesis by (simp add: sample_redis_def)
qed

end
