(* ===== verification/Sweep.thy ===== *)
theory Sweep
  imports TestRun
begin

text \<open>
  The two experiments of client/test.py: the sweep over request rates, the shares it plots for the
  consistency test and the curves and axis limits of the queue test.  Drawing is left out; the data
  handed to the plots is the result.  \<open>None\<close> means that a test of the sweep has not returned.
\<close>

section \<open>Rates\<close>

text \<open>\<open>range(start, stop, step)\<close> for a positive step.\<close>

definition py_range :: "int \<Rightarrow> int \<Rightarrow> int \<Rightarrow> int list" where
  "py_range start stop step =
     map (\<lambda>i. start + int i * step) [0..<nat ((stop - start + step - 1) div step)]"

definition consistency_rates :: "(int \<times> int) list" where
  "consistency_rates =
     (let min_rps = 1000; max_rps = 10000; test_number = 10;
          rates = py_range min_rps max_rps ((max_rps - min_rps) div (test_number - 1))
      in zip (map int [0..<length rates]) rates)"

definition queue_rates :: "(int \<times> int) list" where
  "queue_rates =
     (let min_rps = 3000; max_rps = 8000; test_number = 5;
          rates = py_range min_rps (max_rps + 1) ((max_rps - min_rps) div (test_number - 1))
      in zip (map int [0..<length rates]) rates)"

section \<open>The consistency experiment\<close>

record share_point =
  sp_rps :: time
  sp_good :: time
  sp_partial :: time
  sp_lost :: time

definition share :: "int \<Rightarrow> int \<Rightarrow> time res" where
  "share part whole = (if whole = 0 then Inl ZeroDivisionError else Inr (of_int part / of_int whole))"

definition share_point_of :: "time \<Rightarrow> int \<times> int \<times> int \<Rightarrow> share_point res" where
  "share_point_of rps c =
     (case c of (good, partial, lost) \<Rightarrow>
        let whole = good + partial + lost in
        bind_res (share good whole) (\<lambda>g.
        bind_res (share partial whole) (\<lambda>p.
        bind_res (share lost whole) (\<lambda>l.
          Inr \<lparr>sp_rps = rps, sp_good = g, sp_partial = p, sp_lost = l\<rparr>))))"

primrec consistency_test ::
  "(int \<Rightarrow> byte list \<Rightarrow> ('c, unit) py) \<Rightarrow> test_env \<Rightarrow> nat \<Rightarrow> int \<Rightarrow> share_point list \<Rightarrow> (int \<times> int) list
     \<Rightarrow> ((consistency_tester, 'c) test_run, share_point list option) py"
where
  "consistency_test send env fuel mchain acc [] = py_return (Some acc)"
| "consistency_test send env fuel mchain acc (ir # irs) =
     py_bind (tester_test ct_hooks ct_get_result send env fuel 3 (snd ir) 2 (fst ir)) (\<lambda>out.
       case out of
         None \<Rightarrow> py_return None
       | Some (counters, rps) \<Rightarrow>
           py_bind (py_lift (bind_res (dict_index counters mchain) (share_point_of rps))) (\<lambda>pt.
             consistency_test send env fuel mchain (acc @ [pt]) irs))"

text \<open>The upper limit of the axis of partially delivered messages; \<open>max([])\<close> raises \<open>ValueError\<close>.\<close>

definition partial_limit :: "share_point list \<Rightarrow> time res" where
  "partial_limit pts =
     (case map sp_partial pts of
        [] \<Rightarrow> Inl ValueError
      | p # ps \<Rightarrow>
          let max_partial = foldl max p ps
          in Inr (if max_partial > 0 then max_partial * (11 / 10) else 11 / 10))"

section \<open>The queue experiment\<close>

record queue_plots =
  qp_curves :: "(time list \<times> int list \<times> time) list"
  qp_max_time :: time
  qp_max_queue :: int

text \<open>\<open>x[-1]\<close> raises \<open>IndexError\<close> and \<open>max(y)\<close> \<open>ValueError\<close> on an empty list.\<close>

definition queue_point :: "queue_plots \<Rightarrow> time list \<Rightarrow> int list \<Rightarrow> time \<Rightarrow> queue_plots res" where
  "queue_point q x y rps =
     (if x = [] then Inl IndexError
      else if y = [] then Inl ValueError
      else Inr \<lparr>qp_curves = qp_curves q @ [(x, y, rps)],
             qp_max_time = max (qp_max_time q) (last x),
             qp_max_queue = max (qp_max_queue q) (foldl max (hd y) (tl y))\<rparr>)"

primrec queue_test ::
  "(int \<Rightarrow> byte list \<Rightarrow> ('c, unit) py) \<Rightarrow> test_env \<Rightarrow> nat \<Rightarrow> queue_plots \<Rightarrow> (int \<times> int) list
     \<Rightarrow> ((queue_tester, 'c) test_run, queue_plots option) py"
where
  "queue_test send env fuel acc [] = py_return (Some acc)"
| "queue_test send env fuel acc (ir # irs) =
     py_bind (tester_test qt_hooks qt_get_result send env fuel 3 (snd ir) 2 (fst ir)) (\<lambda>out.
       case out of
         None \<Rightarrow> py_return None
       | Some ((x, y, stop), rps) \<Rightarrow>
           py_bind (py_lift (queue_point acc x y rps)) (\<lambda>acc'.
             queue_test send env fuel acc' irs))"

section \<open>Lemmas\<close>

lemma consistency_rates_are:
  "consistency_rates = [(0, 1000), (1, 2000), (2, 3000), (3, 4000), (4, 5000), (5, 6000), (6, 7000),
     (7, 8000), (8, 9000)]"
  by code_simp

lemma queue_rates_are:
  "queue_rates = [(0, 3000), (1, 4250), (2, 5500), (3, 6750), (4, 8000)]"
  by code_simp

definition good_point :: "int \<Rightarrow> share_point \<Rightarrow> bool" where
  "good_point target p \<longleftrightarrow> 0 \<le> sp_good p \<and> 0 \<le> sp_partial p \<and> 0 \<le> sp_lost p \<and>
     sp_good p + sp_partial p + sp_lost p = 1 \<and> 0 \<le> sp_rps p \<and> sp_rps p \<le> of_int target + 1 / 3"

lemma share_point_good:
  assumes "0 \<le> good" "0 \<le> partial" "0 \<le> lost" "0 < good + partial + lost"
    and "0 \<le> rps" "rps \<le> of_int target + 1 / 3"
  shows "\<exists>p. share_point_of rps (good, partial, lost) = Inr p \<and> good_point target p"
proof -
  let ?t = "of_int (good + partial + lost) :: time"
  have t: "0 < ?t" using assms(4) by (simp only: of_int_0_less_iff)
  then have "of_int good / ?t + of_int partial / ?t + of_int lost / ?t = 1"
    by (simp add: add_divide_distrib [symmetric])
  with t assms show ?thesis
    by (simp add: share_point_of_def share_def good_point_def Let_def)
qed

definition sweep_ready :: "int \<Rightarrow> nat \<Rightarrow> (consistency_tester, 'c) test_run \<Rightarrow> bool" where
  "sweep_ready mchain n s \<longleftrightarrow> ts_mchains s = [mchain] \<and> ct_idle [mchain] n (ts_self s) \<and>
     (\<exists>j. gen_at j (ts_generator s))"

lemma sweep_one:
  assumes run: "tester_test ct_hooks ct_get_result send env fuel 3 rps 2 k s = (Inr (Some (counters, avg)), s')"
    and ready: "sweep_ready mchain n s" and n: "0 < n" and rps: "0 < rps" and lags: "lags_ok env"
    and ok: "arrivals_ok [mchain] n env"
  shows "sweep_ready mchain n s' \<and>
    (\<exists>p. bind_res (dict_index counters mchain) (share_point_of avg) = Inr p \<and> good_point rps p)"
proof -
  obtain n' where n': "n = Suc n'" using n by (cases n) auto
  from ready obtain j where r: "ts_mchains s = [mchain]" "ct_idle [mchain] n (ts_self s)"
    "gen_at j (ts_generator s)" by (auto simp: sweep_ready_def)
  have dm: "distinct [mchain]" by simp
  obtain cs q where q: "0 < q" and tr: "ct.tracks n' [mchain] (ts_self s') (history tracker_of cs)"
    and res: "ct_get_result (ts_self s') = Inr counters"
    and evs: "\<And>e. e \<in> set (history tracker_of cs) \<Longrightarrow> event_ok (set [mchain]) (Suc n') e"
    and texts: "sent_texts (history tracker_of cs) =
      map (\<lambda>(c, d). (c, text_of d)) (words_to k (ts_generator s) (concat (replicate q [mchain])))"
    by (rule consistency_run_events [OF run r(2) [unfolded n'] r(1) dm r(3) ok [unfolded n']]) blast
  define es where "es = history tracker_of cs"
  note tr = tr [folded es_def] and evs = evs [folded es_def] and texts = texts [folded es_def]
  have dist: "distinct (sent_texts es)" unfolding texts by (rule distinct_words_to [OF r(3)])
  let ?f = "card {m. (mchain, m) \<in> fully_delivered n es}" and ?p = "card {m. (mchain, m) \<in> partly_delivered n es}"
    and ?l = "card {m. (mchain, m) \<in> not_delivered es}"
  have counters: "counters = [(mchain, int ?f, int ?p, int ?l)]"
    using ct_report_tracks [OF tr dm _ dist] evs res by (simp add: n')
  have "card {m. (mchain, m) \<in> set (sent_texts es)} = q"
    using length_chain_sent [OF dist, of mchain] round_robin_count [OF dm, of mchain k "ts_generator s" q]
    by (simp only: texts) simp
  then have "0 < int ?f + int ?p + int ?l"
    using chain_classes_card [OF n, of mchain es] q by simp
  moreover have "0 \<le> avg \<and> avg \<le> of_int rps + 1 / 3"
    using tester_test_rate [OF run rps lags] r(1) by (simp add: time_window_sec_def)
  ultimately have point: "\<exists>p. bind_res (dict_index counters mchain) (share_point_of avg) = Inr p \<and> good_point rps p"
    using share_point_good [of "int ?f" "int ?p" "int ?l" avg rps] by (simp add: counters dict_index_def)
  have "ct_idle [mchain] n (ts_self s')" using tr by (simp add: ct.tracks_def ct_valid_def ct_idle_def n')
  moreover have "\<exists>j. gen_at j (ts_generator s')"
    using tester_test_frame [OF run] words.drawn_after [OF r(3)] by metis
  moreover have "ts_mchains s' = [mchain]" using tester_test_frame [OF run] r(1) by simp
  ultimately show ?thesis using point by (simp add: sweep_ready_def)
qed

lemma sweep_points:
  assumes n: "0 < n" and lags: "lags_ok env" and ok: "arrivals_ok [mchain] n env"
  shows "sweep_ready mchain n s \<Longrightarrow> \<forall>ir \<in> set irs. 0 < snd ir \<Longrightarrow>
    case consistency_test send env fuel mchain acc irs s of
      (Inr (Some pts), s') \<Rightarrow> \<exists>new. pts = acc @ new \<and> list_all2 (\<lambda>ir p. good_point (snd ir) p) irs new
    | _ \<Rightarrow> True"
proof (induction irs arbitrary: s acc)
  case (Cons ir irs)
  show ?case
  proof (cases "tester_test ct_hooks ct_get_result send env fuel 3 (snd ir) 2 (fst ir) s")
    case (Pair out s1)
    show ?thesis
    proof (cases "\<exists>counters avg. out = Inr (Some (counters, avg))")
      case True
      then obtain counters avg where out: "out = Inr (Some (counters, avg))" by blast
      with Pair Cons.prems sweep_one [of send env fuel "snd ir" "fst ir" s counters avg s1 mchain n] n lags ok
      obtain p where p: "bind_res (dict_index counters mchain) (share_point_of avg) = Inr p"
        "good_point (snd ir) p" "sweep_ready mchain n s1" by auto
      have "consistency_test send env fuel mchain acc (ir # irs) s =
          consistency_test send env fuel mchain (acc @ [p]) irs s1"
        using Pair out p(1) by (simp add: py_bind_def py_lift_def)
      with Cons.IH [OF p(3), of "acc @ [p]"] Cons.prems(2) p(2) show ?thesis
        by (auto split: sum.splits option.splits prod.splits)
    next
      case False
      with Pair show ?thesis
        by (auto simp: py_bind_def py_return_def split: sum.splits option.splits prod.splits)
    qed
  qed
qed (simp add: py_return_def)

text \<open>Over UDP the sweep itself returns, as each of its tests does, while the nonces last.\<close>

lemma sweep_returns:
  assumes n: "0 < n" and lags: "lags_ok env" and ok: "arrivals_ok [mchain] n env" and u64: "in_u64 mchain"
    and quiet: "\<And>i. K \<le> i \<Longrightarrow> env_arrivals env i = []" and fuel: "K + 2 \<le> fuel"
  shows "sweep_ready mchain n s \<Longrightarrow> udp_budget (length irs * fuel) (ts_client s) \<Longrightarrow>
    \<forall>ir \<in> set irs. 0 < snd ir \<and> of_int (snd ir) * 3 + 1 < (of_nat fuel :: time) \<Longrightarrow>
    \<exists>pts s'. consistency_test (udp_send no_send_errors) env fuel mchain acc irs s = (Inr (Some pts), s')"
proof (induction irs arbitrary: s acc)
  case (Cons ir irs)
  have ready: "ts_mchains s = [mchain]" "ct_idle [mchain] n (ts_self s)"
    using Cons.prems(1) by (simp_all add: sweep_ready_def)
  have "\<exists>r avg s'. tester_test ct_hooks ct_get_result (udp_send no_send_errors) env fuel 3 (snd ir) 2 (fst ir) s =
      (Inr (Some (r, avg)), s') \<and> ct_valid [mchain] n (ts_self s') \<and> udp_budget (length irs * fuel) (ts_client s')"
    by (rule cts.test_goes_on [where K = K])
      (use Cons.prems(2,3) lags quiet fuel ready u64 in \<open>simp_all add: time_window_sec_def wire_chains_def add.commute\<close>)
  then obtain counters avg s1 where
    run: "tester_test ct_hooks ct_get_result (udp_send no_send_errors) env fuel 3 (snd ir) 2 (fst ir) s =
      (Inr (Some (counters, avg)), s1)" and budget: "udp_budget (length irs * fuel) (ts_client s1)" by blast
  from sweep_one [OF run Cons.prems(1) n _ lags ok] Cons.prems(3) obtain p where
    "bind_res (dict_index counters mchain) (share_point_of avg) = Inr p" "sweep_ready mchain n s1" by auto
  with Cons.IH [of s1 "acc @ [p]"] Cons.prems(3) run budget show ?case
    by (simp add: py_bind_def py_lift_def)
qed (simp add: py_return_def)

text \<open>What the consistency experiment plots, and the limit of its second axis.\<close>

lemma sweep_shares:
  assumes run: "consistency_test send env fuel mchain [] consistency_rates s = (Inr (Some pts), s')"
    and "sweep_ready mchain n s" and "0 < n" and "lags_ok env" and "arrivals_ok [mchain] n env"
  shows "list_all2 (\<lambda>ir p. good_point (snd ir) p) consistency_rates pts \<and>
    (\<exists>limit. partial_limit pts = Inr limit \<and> 0 < limit)"
proof -
  have pos: "\<forall>ir \<in> set consistency_rates. 0 < snd ir" by (simp add: consistency_rates_are)
  from sweep_points [OF assms(3-5) assms(2) pos, where send = send and fuel = fuel and acc = "[]"] run
  have all: "list_all2 (\<lambda>ir p. good_point (snd ir) p) consistency_rates pts" by simp
  then have "length pts = 9" by (simp add: list_all2_lengthD [symmetric] consistency_rates_are)
  then obtain p ps where "pts = p # ps" by (cases pts) auto
  then have "\<exists>limit. partial_limit pts = Inr limit \<and> 0 < limit"
    by (simp add: partial_limit_def Let_def)
  with all show ?thesis by blast
qed

end
