(* ===== verification/QueueRun.thy ===== *)
theory QueueRun
  imports Sweep
begin

text \<open>
  A whole queue-size test and the sweep of the queue experiment: the test returns, and its report counts
  the messages the test has sent and not every node has delivered.
\<close>

section \<open>The queue tester as the subclass of a test\<close>

definition qt_idle :: "int list \<Rightarrow> nat \<Rightarrow> queue_tester \<Rightarrow> bool" where
  "qt_idle mchains n s \<longleftrightarrow> qt_mchains s = mchains \<and> qt_node_count s = n"

lemma qt_tracks_restart: "qt_idle mchains (Suc n) s \<Longrightarrow> qt.tracks n mchains (snd (qt_on_test_start now s)) []"
  unfolding qt.tracks_def
  by (auto simp: qt_idle_def qt_on_test_start_def py_defs qt_valid_def qt_number_def qt_waiting_def
      fun_eq_iff map_of_dict_const qt.book_of_def fully_delivered_def split: if_splits)

lemma qt_started:
  "qt_idle mchains n s \<Longrightarrow> fst (qt_on_test_start now s) = Inr () \<and> qt_valid mchains n (snd (qt_on_test_start now s))"
  by (auto simp: qt_idle_def qt_on_test_start_def py_defs qt_valid_def map_of_dict_const dom_def split: if_splits)

lemma qt_delivery_keeps: "qt_valid mchains n s \<Longrightarrow> qt_valid mchains n (snd (qt_on_delivery now h i d s))"
proof -
  assume v: "qt_valid mchains n s"
  consider "decodable d" "h \<in> set mchains" | "decodable d" "h \<notin> set mchains" | "\<not> decodable d" by blast
  then show ?thesis
  proof cases
    case 1
    with qt_on_delivery_law [OF v, of h d now i] show ?thesis by auto
  next
    case 2
    obtain ms where ms: "qt_messages s = Some ms" "dom (map_of ms) = set mchains" using v by (auto simp: qt_valid_def)
    then have "map_of ms h = None" using 2(2) by auto
    then have "snd (qt_on_delivery now h i d s) = s"
      using ms(1) 2(1) by (simp add: qt_on_delivery_def py_decode_text qt_chain_def py_defs dict_index_def)
    with v show ?thesis by simp
  next
    case 3
    then have "py_decode d = Inl UnicodeDecodeError"
      by (auto simp: decodable_def py_decode_def split: sum.splits option.splits)
    with v show ?thesis by (simp add: qt_on_delivery_def py_defs)
  qed
qed

interpretation qts: test_subject qt_hooks "udp_send no_send_errors" qt_get_result "wire_chains mchains"
  "qt_idle mchains n" "qt_valid mchains n" udp_budget
proof
  show "udp_budget (m + m') c \<Longrightarrow> udp_budget m c" for m m' c
    by (simp add: udp_budget_def)
  show "qt_idle mchains n t \<Longrightarrow> fst (on_test_start qt_hooks u t) = Inr () \<and>
      qt_valid mchains n (snd (on_test_start qt_hooks u t))" for u t
    by (simp add: qt_hooks_def qt_started)
  show "udp_budget (Suc m) c \<Longrightarrow> h \<in> wire_chains mchains \<Longrightarrow>
      fst (udp_send no_send_errors h (message_data k w) c) = Inr () \<and>
      udp_budget m (snd (udp_send no_send_errors h (message_data k w) c))" for m c h k w
    by (rule cts.send_ok)
  show "qt_valid mchains n t \<Longrightarrow> h \<in> wire_chains mchains \<Longrightarrow>
      fst (on_send qt_hooks u h (message_data k w) t) = Inr () \<and>
      qt_valid mchains n (snd (on_send qt_hooks u h (message_data k w) t))" for t h u k w
    using qt_on_send_law [of mchains n t h "message_data k w" u]
    by (auto simp: qt_hooks_def wire_chains_def message_data_decodable)
  show "qt_valid mchains n t \<Longrightarrow> qt_valid mchains n (snd (on_delivery qt_hooks u h i d t))" for t u h i d
    by (simp add: qt_hooks_def qt_delivery_keeps)
  show "qt_valid mchains n t \<Longrightarrow> fst (on_stop_sending qt_hooks u t) = Inr () \<and>
      qt_valid mchains n (snd (on_stop_sending qt_hooks u t))" for t u
    using qt_stop_law [of mchains n t u] by (auto simp: qt_hooks_def)
  show "qt_valid mchains n t \<Longrightarrow> \<exists>r. qt_get_result t = Inr r" for t
    by (auto simp: qt_valid_def qt_get_result_def split: prod.splits)
  show "qt_valid mchains n t \<Longrightarrow> qt_idle mchains n t" for t
    by (simp add: qt_valid_def qt_idle_def)
qed

section \<open>The report of a test\<close>

primrec qt_calls_of :: "hook_call \<Rightarrow> qt_call list" where
  "qt_calls_of (TestStart t) = []"
| "qt_calls_of (Send t c d) = [Hook t (Sent c d)]"
| "qt_calls_of (Delivery t c i d) = [Hook t (Delivered c i d)]"
| "qt_calls_of (StopSending t) = [Stop t]"

lemma qt_calls_run:
  "\<forall>x \<in> set cs. \<forall>t. x \<noteq> TestStart t \<Longrightarrow>
     run_calls (hook_apply qt_hooks) s cs = run_calls qt_hook s (concat (map qt_calls_of cs))"
proof (induction cs arbitrary: s)
  case (Cons x cs)
  then show ?case by (cases x) (auto simp: qt_hooks_def run_calls_append)
qed simp

lemma qt_calls_history: "history qt_event (concat (map qt_calls_of cs)) = history tracker_of cs"
proof (induction cs)
  case (Cons x cs)
  then show ?case by (cases x) simp_all
qed simp

lemma in_process_sent: "in_process n es \<le> length (sent_texts es)"
  unfolding in_process_def by (meson List.finite_set card_length card_mono Diff_subset le_trans)

lemma history_take: "length (sent_texts (history f (take k es))) \<le> length (sent_texts (history f es))"
proof -
  have "length (sent_texts (history f p)) \<le> length (sent_texts (history f (p @ q)))" for p q
    by (simp add: sent_texts_def)
  from this [of "take k es" "drop k es"] show ?thesis by simp
qed

lemma change_sizes_bound:
  "q \<in> set (change_sizes n es) \<Longrightarrow> 0 \<le> q \<and> q \<le> int (length (sent_texts (history qt_event es)))"
  using order.trans [OF in_process_sent history_take]
  by (auto simp: change_sizes_def process_after_def)

lemma queue_run_report:
  assumes run: "tester_test qt_hooks qt_get_result send env fuel duration rps completion_time k s =
      (Inr (Some ((moments, sizes, stop), avg)), s')"
    and idle: "qt_idle mchains (Suc n) (ts_self s)" and ms: "ts_mchains s = mchains" "distinct mchains"
    and gen: "gen_at j (ts_generator s)" and ok: "arrivals_ok mchains (Suc n) env"
  shows "\<exists>es r. 0 < r \<and> qt_valid mchains (Suc n) (ts_self s') \<and> length moments = length sizes \<and>
    r * length mchains \<le> length sizes \<and> (\<forall>q \<in> set sizes. 0 \<le> q \<and> q \<le> int (r * length mchains)) \<and>
    sent_texts es = map (\<lambda>(c, d). (c, text_of d)) (words_to k (ts_generator s) (concat (replicate r mchains))) \<and>
    (\<forall>c i d. Delivered c i d \<in> set es \<longrightarrow> arrives env (c, i, d))"
proof -
  from tester_test_calls [OF run] obtain t0 cs t1 ds r where
    r: "0 < r" and calls: "ts_self s' = run_calls (hook_apply qt_hooks) (ts_self s) (TestStart t0 # cs @ StopSending t1 # ds)"
    and cs: "in_loop env cs" "sends cs = words_to k (ts_generator s) (concat (replicate r mchains))"
    and ds: "deliveries_of env ds" and res: "qt_get_result (ts_self s') = Inr (moments, sizes, stop)"
    unfolding ms by blast
  let ?calls = "concat (map qt_calls_of (cs @ StopSending t1 # ds))"
  let ?es = "history tracker_of (cs @ ds)" and ?b = "snd (qt_on_test_start t0 (ts_self s))"
  have "\<forall>x \<in> set (cs @ StopSending t1 # ds). \<forall>t. x \<noteq> TestStart t"
    using cs(1) ds by (auto simp: in_loop_def deliveries_of_def)
  then have self: "ts_self s' = run_calls qt_hook ?b ?calls"
    using qt_calls_run [of "cs @ StopSending t1 # ds" ?b] by (simp add: calls) (simp add: qt_hooks_def)
  have hist: "history qt_event ?calls = ?es" unfolding qt_calls_history by (simp add: history_def)
  have texts: "sent_texts ?es = map (\<lambda>(c, d). (c, text_of d))
      (words_to k (ts_generator s) (concat (replicate r mchains)))"
    using deliveries_no_sends [OF ds] by (simp only: sent_texts_sends sends_simps cs(2) append_Nil2)
  have sub: "set (concat (replicate r mchains)) \<subseteq> set mchains" by auto
  have good: "event_ok (set mchains) (Suc n) e" if "e \<in> set ?es" for e
    using that loop_events_ok [OF cs(1) ok _ sub, of k "ts_generator s" e] cs(2)
      deliveries_events_ok [OF ds ok, of e] by auto
  have dist: "distinct (sent_texts ?es)" unfolding texts by (rule distinct_words_to [OF gen])
  have start: "qt.tracks n mchains ?b []" "qt_events ?b = Some []" "qt_start_time ?b = Some t0"
    using qt_tracks_restart [OF idle] by (simp_all add: qt_on_test_start_def py_defs)
  have len: "length (sent_texts ?es) = r * length mchains"
    unfolding texts by (simp add: words_to_def length_concat sum_list_replicate)
  from qt_report [OF start good [folded hist] dist [folded hist], folded self, unfolded hist len] res
  have rep: "moments = map (\<lambda>t. t - t0) (change_times (Suc n) ?calls)" "sizes = change_sizes (Suc n) ?calls"
    "r * length mchains \<le> length sizes" by auto
  have same: "length moments = length sizes" by (simp add: rep change_times_def change_sizes_def)
  have bound: "0 \<le> q \<and> q \<le> int (r * length mchains)" if "q \<in> set sizes" for q
    using change_sizes_bound [of q "Suc n" ?calls] that rep(2) by (simp only: hist len)
  have "qt.tracks n mchains (ts_self s') ?es"
    unfolding self using qt.tracks_run [OF start(1), of ?calls] good dist by (simp only: hist append_Nil)
  then have "qt_valid mchains (Suc n) (ts_self s')" by (simp add: qt.tracks_def)
  moreover have "\<forall>c i d. Delivered c i d \<in> set ?es \<longrightarrow> arrives env (c, i, d)"
    using delivered_arrives [OF cs(1)] delivered_arrives [OF deliveries_in_loop [OF ds]] by auto
  ultimately show ?thesis using r same rep(3) bound texts by blast
qed

section \<open>The sweep\<close>

text \<open>A curve that can be drawn, and plots whose axes hold every curve.\<close>

definition good_curve :: "int \<Rightarrow> time list \<times> int list \<times> time \<Rightarrow> bool" where
  "good_curve target = (\<lambda>(x, y, rps).
     length x = length y \<and> y \<noteq> [] \<and> (\<forall>q \<in> set y. 0 \<le> q) \<and> 0 \<le> rps \<and> rps \<le> of_int target + 1 / 3)"

definition axes_hold :: "queue_plots \<Rightarrow> bool" where
  "axes_hold q \<longleftrightarrow> (\<forall>(x, y, rps) \<in> set (qp_curves q). last x \<le> qp_max_time q \<and> (\<forall>s \<in> set y. s \<le> qp_max_queue q))"

lemma foldl_max: "(a :: int) \<le> foldl max a xs" "x \<in> set xs \<Longrightarrow> x \<le> foldl max a xs"
proof -
  show le: "a \<le> foldl max a xs" for a :: int and xs
  proof (induction xs arbitrary: a)
    case (Cons b xs)
    from order.trans [OF max.cobounded1 Cons [of "max a b"]] show ?case by simp
  qed simp
  show "x \<in> set xs \<Longrightarrow> x \<le> foldl max a xs"
  proof (induction xs arbitrary: a)
    case (Cons b xs)
    with le [of "max a b" xs] show ?case by fastforce
  qed simp
qed

lemma queue_point_good:
  assumes "good_curve target (x, y, rps)" "axes_hold q"
  shows "\<exists>q'. queue_point q x y rps = Inr q' \<and> axes_hold q' \<and> qp_curves q' = qp_curves q @ [(x, y, rps)]"
proof -
  obtain a ys where y: "y = a # ys" using assms(1) by (cases y) (auto simp: good_curve_def)
  then have "x \<noteq> []" using assms(1) by (auto simp: good_curve_def)
  moreover have "s \<le> foldl max a ys" if "s \<in> set y" for s using that y foldl_max by auto
  ultimately show ?thesis
    using assms(2) y by (auto simp: queue_point_def axes_hold_def le_max_iff_disj)
qed

definition queue_ready :: "int \<Rightarrow> nat \<Rightarrow> (queue_tester, 'c) test_run \<Rightarrow> bool" where
  "queue_ready mchain n s \<longleftrightarrow> ts_mchains s = [mchain] \<and> qt_idle [mchain] n (ts_self s) \<and>
     (\<exists>j. gen_at j (ts_generator s))"

lemma queue_one:
  assumes run: "tester_test qt_hooks qt_get_result send env fuel 3 rps 2 k s = (Inr (Some ((x, y, stop), avg)), s')"
    and ready: "queue_ready mchain n s" and n: "0 < n" and rps: "0 < rps" and lags: "lags_ok env"
    and ok: "arrivals_ok [mchain] n env"
  shows "queue_ready mchain n s' \<and> good_curve rps (x, y, avg)"
proof -
  obtain n' where n': "n = Suc n'" using n by (cases n) auto
  from ready obtain j where r: "ts_mchains s = [mchain]" "qt_idle [mchain] n (ts_self s)"
    "gen_at j (ts_generator s)" by (auto simp: queue_ready_def)
  have dm: "distinct [mchain]" by simp
  from queue_run_report [OF run r(2) [unfolded n'] r(1) dm r(3) ok [unfolded n']]
  obtain q where q: "0 < q" "qt_valid [mchain] n (ts_self s')" "length x = length y" "q \<le> length y" "\<forall>v \<in> set y. 0 \<le> v"
    unfolding n' by auto
  moreover have "0 \<le> avg \<and> avg \<le> of_int rps + 1 / 3"
    using tester_test_rate [OF run rps lags] r(1) by (simp add: time_window_sec_def)
  moreover have "\<exists>j. gen_at j (ts_generator s')"
    using tester_test_frame [OF run] words.drawn_after [OF r(3)] by metis
  moreover have "ts_mchains s' = [mchain]" using tester_test_frame [OF run] r(1) by simp
  ultimately show ?thesis by (auto simp: queue_ready_def good_curve_def qt_valid_def qt_idle_def)
qed

lemma queue_sweep_returns:
  assumes n: "0 < n" and lags: "lags_ok env" and ok: "arrivals_ok [mchain] n env" and u64: "in_u64 mchain"
    and quiet: "\<And>i. K \<le> i \<Longrightarrow> env_arrivals env i = []" and fuel: "K + 2 \<le> fuel"
  shows "queue_ready mchain n s \<Longrightarrow> udp_budget (length irs * fuel) (ts_client s) \<Longrightarrow> axes_hold acc \<Longrightarrow>
    \<forall>ir \<in> set irs. 0 < snd ir \<and> of_int (snd ir) * 3 + 1 < (of_nat fuel :: time) \<Longrightarrow>
    \<exists>q new s'. queue_test (udp_send no_send_errors) env fuel acc irs s = (Inr (Some q), s') \<and> axes_hold q \<and>
      qp_curves q = qp_curves acc @ new \<and> list_all2 (\<lambda>ir c. good_curve (snd ir) c) irs new"
proof (induction irs arbitrary: s acc)
  case (Cons ir irs)
  have ready: "ts_mchains s = [mchain]" "qt_idle [mchain] n (ts_self s)"
    using Cons.prems(1) by (simp_all add: queue_ready_def)
  have "\<exists>r avg s'. tester_test qt_hooks qt_get_result (udp_send no_send_errors) env fuel 3 (snd ir) 2 (fst ir) s =
      (Inr (Some (r, avg)), s') \<and> qt_valid [mchain] n (ts_self s') \<and> udp_budget (length irs * fuel) (ts_client s')"
    by (rule qts.test_goes_on [where K = K])
      (use Cons.prems(2,4) lags quiet fuel ready u64 in \<open>simp_all add: time_window_sec_def wire_chains_def add.commute\<close>)
  then obtain x y stop avg s1 where
    run: "tester_test qt_hooks qt_get_result (udp_send no_send_errors) env fuel 3 (snd ir) 2 (fst ir) s =
      (Inr (Some ((x, y, stop), avg)), s1)" and budget: "udp_budget (length irs * fuel) (ts_client s1)"
    by (metis prod.exhaust)
  from queue_one [OF run Cons.prems(1) n _ lags ok] Cons.prems(4)
  have one: "queue_ready mchain n s1" "good_curve (snd ir) (x, y, avg)" by auto
  from queue_point_good [OF one(2) Cons.prems(3)] obtain acc' where
    acc': "queue_point acc x y avg = Inr acc'" "axes_hold acc'" "qp_curves acc' = qp_curves acc @ [(x, y, avg)]" by blast
  from Cons.IH [OF one(1) budget acc'(2)] Cons.prems(4) obtain q new s' where
    "queue_test (udp_send no_send_errors) env fuel acc' irs s1 = (Inr (Some q), s')" "axes_hold q"
    "qp_curves q = qp_curves acc' @ new" "list_all2 (\<lambda>ir c. good_curve (snd ir) c) irs new" by auto
  with run acc' one(2) show ?case
    by (intro exI [of _ q] exI [of _ "(x, y, avg) # new"] exI [of _ s']) (simp add: py_bind_def py_lift_def)
qed (simp add: py_return_def)

end
