(* ===== verification/Experiments.thy ===== *)
theory Experiments
  imports System QueueRun "HOL-Library.Multiset"
begin

text \<open>
  client/test.py from its start: the addresses of test_config.py, the client and the tester it makes
  from them, the sweep, and the data handed to the plots.  The deliveries of the sweep are those of the
  listener that the constructor starts, through every arrival and round of a schedule.
\<close>

section \<open>test_config.py\<close>

type_synonym node_entry = "string \<times> int \<times> int"

text \<open>The nodes of chain 1234 are a set, which is iterated over in an order of Python's choosing.\<close>

definition test_config :: "(node_entry list \<Rightarrow> node_entry list) \<Rightarrow> (int, node_entry list) dict" where
  "test_config set_order =
     [(1234, set_order
        [(''10.1.0.19'', 1400, 6378),
         (''10.1.0.15'', 1400, 6378),
         (''10.1.0.18'', 1400, 6378),
         (''10.1.0.11'', 1400, 6378),
         (''10.1.0.16'', 1400, 6378)]),
      (5, [(''localhost'', 1234, 6379)])]"

definition client_addresses :: "node_entry list \<Rightarrow> address list" where
  "client_addresses = map (\<lambda>(host, port, redis_port). (host, port))"

definition redis_addresses :: "node_entry list \<Rightarrow> redis_address list" where
  "redis_addresses = map (\<lambda>(host, port, redis_port). (host, redis_port))"

section \<open>The environment\<close>

text \<open>
  What one run of the script meets: the initial nonce of its client, the faults of Redis and of
  \<open>sendto\<close>, the lags of the clock, and the arrivals and rounds of the listener before each sleep ends.
  The tester object \<open>ex_object\<close> has the attributes of its class.
\<close>

record 't surroundings =
  ex_set_order :: "node_entry list \<Rightarrow> node_entry list"
  ex_nonce :: int
  ex_redis :: redis_faults
  ex_sendto :: sendto
  ex_lag :: "nat \<Rightarrow> time"
  ex_sched :: "nat \<Rightarrow> move list"
  ex_object :: "('t, udp_client) test_run"

definition clock_env :: "'t surroundings \<Rightarrow> test_env" where
  "clock_env x = \<lparr>env_lag = ex_lag x, env_arrivals = (\<lambda>_. [])\<rparr>"

section \<open>The experiments\<close>

definition experiment_chain :: int where
  "experiment_chain = 1234"

definition consistency_experiment ::
  "consistency_tester surroundings \<Rightarrow> nat
     \<Rightarrow> ((consistency_tester, udp_client) test_run listener_class, (share_point list \<times> time) option) py"
where
  "consistency_experiment x fuel =
     py_bind (py_lift (dict_index (test_config (ex_set_order x)) experiment_chain)) (\<lambda>nodes.
     py_bind (consistency_tester_init (ex_redis x) (clock_env x) [experiment_chain]
         (mk_udp_client (ex_nonce x) (client_addresses nodes)) (redis_addresses nodes) (ex_object x)) (\<lambda>l.
     py_bind (py_lift (fst (consistency_test (udp_send (ex_sendto x)) (fed_env (ex_lag x) l (ex_sched x)) fuel
         experiment_chain [] consistency_rates (ls_app l)))) (\<lambda>out.
       case out of
         None \<Rightarrow> py_return None
       | Some pts \<Rightarrow> py_lift (bind_res (partial_limit pts) (\<lambda>limit. Inr (Some (pts, limit)))))))"

definition queue_experiment ::
  "queue_tester surroundings \<Rightarrow> nat
     \<Rightarrow> ((queue_tester, udp_client) test_run listener_class, queue_plots option) py"
where
  "queue_experiment x fuel =
     py_bind (py_lift (dict_index (test_config (ex_set_order x)) experiment_chain)) (\<lambda>nodes.
     py_bind (queue_tester_init (ex_redis x) (clock_env x) [experiment_chain]
         (mk_udp_client (ex_nonce x) (client_addresses nodes)) (redis_addresses nodes) (ex_object x)) (\<lambda>l.
       py_lift (fst (queue_test (udp_send (ex_sendto x)) (fed_env (ex_lag x) l (ex_sched x)) fuel
         \<lparr>qp_curves = [], qp_max_time = 0, qp_max_queue = 0\<rparr> queue_rates (ls_app l)))))"

text \<open>The script runs the queue experiment when one of its arguments is \<open>queue\<close>.\<close>

datatype experiment_data =
    Shares "(share_point list \<times> time) option"
  | Queues "queue_plots option"

definition no_listeners :: "'s listener_class" where
  "no_listeners = \<lparr>rl_connections = [], rl_handlers = [], rl_deleted = []\<rparr>"

definition experiments_main ::
  "consistency_tester surroundings \<Rightarrow> queue_tester surroundings \<Rightarrow> nat \<Rightarrow> string list \<Rightarrow> experiment_data res"
where
  "experiments_main x y fuel argv =
     (if ''queue'' \<in> set argv
      then bind_res (fst (queue_experiment y fuel no_listeners)) (\<lambda>q. Inr (Queues q))
      else bind_res (fst (consistency_experiment x fuel no_listeners)) (\<lambda>s. Inr (Shares s)))"

section \<open>What the consistency experiment plots\<close>

lemma fed_env_quiet: "sched n = [] \<Longrightarrow> env_arrivals (fed_env lag l sched) n = []"
  by (simp add: fed_env_def moves_until_Suc)

text \<open>
  The surroundings of a run in which nothing fails: Redis and the network take everything, the clock does
  not go back, the replies name the chain and carry text, and they stop before sleep \<open>K\<close>.
\<close>

definition fair :: "nat \<Rightarrow> 't surroundings \<Rightarrow> bool" where
  "fair K x \<longleftrightarrow>
     (\<forall>xs. mset (ex_set_order x xs) = mset xs) \<and> 0 \<le> ex_nonce x \<and> ex_nonce x \<le> 10 ^ 6 \<and>
     no_faults (ex_redis x) \<and> ex_sendto x = no_send_errors \<and> (\<forall>n. 0 \<le> ex_lag x n) \<and>
     replies_ok [experiment_chain] [0..<5] (ex_sched x) \<and> (\<forall>n. K \<le> n \<longrightarrow> ex_sched x n = []) \<and>
     (\<exists>j. gen_at j (ts_generator (ex_object x)))"

lemma config_nodes:
  assumes "\<And>xs. mset (order xs) = mset xs"
  obtains nodes where "dict_index (test_config order) experiment_chain = Inr nodes" "length nodes = 5"
proof -
  have "length (order xs) = length xs" for xs using assms mset_eq_length by blast
  then show ?thesis using that by (simp add: test_config_def experiment_chain_def dict_index_def)
qed

text \<open>The tester is made, and its own listener feeds it.\<close>

lemma experiment_connects:
  assumes "fair K x" and "length nodes = 5"
  shows "\<exists>cls. tester_init (ex_redis x) hs (clock_env x) [experiment_chain] client (redis_addresses nodes)
      (ex_object x) no_listeners =
        (Inr (start_listening cls ((ex_object x)\<lparr>ts_mchains := [experiment_chain], ts_client := client\<rparr>)), cls) \<and>
    (\<forall>a. arrivals_ok [experiment_chain] 5 (fed_env (ex_lag x) (start_listening cls a) (ex_sched x)))"
proof -
  have ok: "no_faults (ex_redis x)" "rl_connections no_listeners = []" "length (redis_addresses nodes) = 5"
    using assms by (simp_all add: fair_def no_listeners_def redis_addresses_def)
  from tester_init_returns [OF ok(1,2), of hs "clock_env x" "[experiment_chain]" client "redis_addresses nodes"
      "ex_object x", unfolded ok(3)] obtain cls where
    init: "tester_init (ex_redis x) hs (clock_env x) [experiment_chain] client (redis_addresses nodes)
      (ex_object x) no_listeners =
        (Inr (start_listening cls ((ex_object x)\<lparr>ts_mchains := [experiment_chain], ts_client := client\<rparr>)), cls)"
    and wf: "wf_dict (rl_connections cls)" and keys: "dict_keys (rl_connections cls) = [0..<5]" by blast
  have "rl_connections cls \<noteq> []" using keys by (auto simp: dict_keys_def upt_rec)
  moreover have "replies_ok [experiment_chain] (dict_keys (rl_connections cls)) (ex_sched x)"
    using keys assms(1) by (simp add: fair_def)
  ultimately have "arrivals_ok [experiment_chain] 5 (fed_env (ex_lag x) (start_listening cls a) (ex_sched x))" for a
    using wf keys by (intro fed_arrivals_ok) simp_all
  with init show ?thesis by blast
qed

lemma set_self_start: "set_self t (start_listening cls a) = start_listening cls (a\<lparr>ts_self := t\<rparr>)"
  by (simp add: set_self_def start_listening_def)

lemma start_app [simp]: "ls_app (start_listening cls a) = a"
  by (simp add: start_listening_def)

lemma experiment_starts:
  assumes "fair K x" and "length nodes = 5"
  shows "\<exists>l cls. consistency_tester_init (ex_redis x) (clock_env x) [experiment_chain]
      (mk_udp_client (ex_nonce x) (client_addresses nodes)) (redis_addresses nodes) (ex_object x) no_listeners =
        (Inr l, cls) \<and>
    sweep_ready experiment_chain 5 (ls_app l) \<and>
    ts_client (ls_app l) = mk_udp_client (ex_nonce x) (client_addresses nodes) \<and>
    arrivals_ok [experiment_chain] 5 (fed_env (ex_lag x) l (ex_sched x))"
  using experiment_connects [OF assms, of ct_hooks "mk_udp_client (ex_nonce x) (client_addresses nodes)"] assms
  by (auto simp: consistency_tester_init_def py_bind_def py_return_def set_self_start sweep_ready_def fair_def
      ct_idle_def ct_init_def redis_addresses_def)

lemma queue_starts:
  assumes "fair K x" and "length nodes = 5"
  shows "\<exists>l cls. queue_tester_init (ex_redis x) (clock_env x) [experiment_chain]
      (mk_udp_client (ex_nonce x) (client_addresses nodes)) (redis_addresses nodes) (ex_object x) no_listeners =
        (Inr l, cls) \<and>
    queue_ready experiment_chain 5 (ls_app l) \<and>
    ts_client (ls_app l) = mk_udp_client (ex_nonce x) (client_addresses nodes) \<and>
    arrivals_ok [experiment_chain] 5 (fed_env (ex_lag x) l (ex_sched x))"
  using experiment_connects [OF assms, of qt_hooks "mk_udp_client (ex_nonce x) (client_addresses nodes)"] assms
  by (auto simp: queue_tester_init_def py_bind_def py_return_def set_self_start queue_ready_def fair_def
      qt_idle_def qt_init_def redis_addresses_def)

text \<open>What a fair environment gives every sweep: lags, silence in the end, and enough nonces.\<close>

lemma fair_environment:
  assumes "fair K x"
  shows "lags_ok (fed_env (ex_lag x) l (ex_sched x))" "\<And>i. K \<le> i \<Longrightarrow> env_arrivals (fed_env (ex_lag x) l (ex_sched x)) i = []"
    "ex_sendto x = no_send_errors" "in_u64 experiment_chain"
    "k * fuel \<le> 2 ^ 63 \<Longrightarrow> udp_budget (k * fuel) (mk_udp_client (ex_nonce x) addresses)"
proof -
  show "lags_ok (fed_env (ex_lag x) l (ex_sched x))" using assms by (simp add: lags_ok_def fed_env_def fair_def)
  show "env_arrivals (fed_env (ex_lag x) l (ex_sched x)) i = []" if "K \<le> i" for i
    using assms that by (simp add: fair_def fed_env_quiet)
  show "ex_sendto x = no_send_errors" using assms by (simp add: fair_def)
  show "in_u64 experiment_chain" by (simp add: in_u64_def experiment_chain_def)
  assume "k * fuel \<le> 2 ^ 63"
  then have "int (k * fuel) \<le> 2 ^ 63" by (metis of_nat_le_iff of_nat_numeral of_nat_power)
  then show "udp_budget (k * fuel) (mk_udp_client (ex_nonce x) addresses)"
    using assms by (simp add: udp_budget_def mk_udp_client_def in_u64_def fair_def)
qed

text \<open>
  C20. The consistency experiment of test.py, from its start: when nothing fails around it, it makes its
  client and its tester from the configuration, returns, and plots shares.  It measures nine rates, 1000 to
  9000 messages per second in steps of 1000 (the last rate it was given, 10000, and the tenth of the
  \<open>test_number = 10\<close> tests are never run); whatever the listener delivers, the delivered, partial and lost
  shares of every point are non-negative and add up to one, and the rate on the axis exceeds the target by at
  most one message per test.
\<close>

theorem experiment_plots_shares:
  assumes "fair K x" and "27001 < fuel" and "K + 2 \<le> fuel" and "9 * fuel \<le> 2 ^ 63"
  shows "\<exists>pts limit. fst (consistency_experiment x fuel no_listeners) = Inr (Some (pts, limit)) \<and>
    map snd consistency_rates = map (\<lambda>i. 1000 * int i) [1..<10] \<and> length pts = 9 \<and>
    list_all2 (\<lambda>ir p. good_point (snd ir) p) consistency_rates pts \<and> 0 < limit"
proof -
  obtain nodes where nodes: "dict_index (test_config (ex_set_order x)) experiment_chain = Inr nodes" "length nodes = 5"
    using assms(1) config_nodes unfolding fair_def by blast
  from experiment_starts [OF assms(1) nodes(2)] obtain l cls where
    init: "consistency_tester_init (ex_redis x) (clock_env x) [experiment_chain]
      (mk_udp_client (ex_nonce x) (client_addresses nodes)) (redis_addresses nodes) (ex_object x) no_listeners =
        (Inr l, cls)"
    and ready: "sweep_ready experiment_chain 5 (ls_app l)"
    and client: "ts_client (ls_app l) = mk_udp_client (ex_nonce x) (client_addresses nodes)"
    and arr: "arrivals_ok [experiment_chain] 5 (fed_env (ex_lag x) l (ex_sched x))" by blast
  let ?env = "fed_env (ex_lag x) l (ex_sched x)"
  note env = fair_environment [OF assms(1)]
  have "length consistency_rates = 9" by (simp add: consistency_rates_are)
  with env(5) assms(4) client have budget: "udp_budget (length consistency_rates * fuel) (ts_client (ls_app l))" by simp
  have "(27001 :: time) < of_nat fuel" using assms(2) by (metis of_nat_less_iff of_nat_numeral)
  then have rates: "\<forall>ir \<in> set consistency_rates. 0 < snd ir \<and> of_int (snd ir) * 3 + 1 < (of_nat fuel :: time)"
    by (simp add: consistency_rates_are)
  from sweep_returns [OF _ env(1) arr env(4) env(2) assms(3) ready budget rates, of "[]"] obtain pts s' where
    run: "consistency_test (udp_send no_send_errors) ?env fuel experiment_chain [] consistency_rates (ls_app l) =
      (Inr (Some pts), s')" by auto
  from sweep_shares [OF run ready _ env(1) arr] obtain limit where
    pts: "list_all2 (\<lambda>ir p. good_point (snd ir) p) consistency_rates pts" "partial_limit pts = Inr limit" "0 < limit"
    by auto
  from env(3) nodes(1) init run pts(2) have "fst (consistency_experiment x fuel no_listeners) = Inr (Some (pts, limit))"
    by (simp add: consistency_experiment_def py_bind_def py_lift_def py_return_def del: dict_index_eq_Inr)
  moreover have "length pts = 9" using pts(1) by (simp add: list_all2_lengthD [symmetric] consistency_rates_are)
  moreover have "map snd consistency_rates = map (\<lambda>i. 1000 * int i) [1..<10]"
    by (simp add: consistency_rates_are upt_rec)
  ultimately show ?thesis using pts by blast
qed

text \<open>A run in which every node delivers one message that was never sent.\<close>

definition sample_surroundings :: "consistency_tester surroundings" where
  "sample_surroundings =
     \<lparr>ex_set_order = rev, ex_nonce = 77, ex_redis = quiet_redis, ex_sendto = no_send_errors,
      ex_lag = (\<lambda>_. 1 / 10000),
      ex_sched = (\<lambda>n. if n = 3 then map (\<lambda>i. Arrive i (py_encode ''1234'', message_data 0 ''x'')) [0..<5] @ [Round [0..<5]]
        else []),
      ex_object = \<lparr>ts_mchains = [], ts_client = mk_udp_client 0 [], ts_generator = string_generator,
        ts_last_delivery_time = 0, ts_listening = True, ts_self = ct_init [] 0, ts_clock = 9, ts_readings = 0,
        ts_sleeps = 0, start_time = 0, request_times = [], total_messages_count = 0,
        previous_rps_report_time = 0, current_time = None\<rparr>\<rparr>"

theorem experiment_plots_shares_witness:
  "\<exists>pts limit. fst (consistency_experiment sample_surroundings 30000 no_listeners) = Inr (Some (pts, limit)) \<and>
     length pts = 9"
proof -
  have "m = (py_encode ''1234'', message_data 0 ''x'')"
    if "m \<in> set (arrived i (moves_until (ex_sched sample_surroundings) n))" for i n m
    using that by (induction n)
      (auto simp: moves_until_Suc arrived_def sample_surroundings_def split: if_splits)
  moreover have "reply_ok [experiment_chain] (py_encode ''1234'', message_data 0 ''x'')"
  proof -
    have "int_to_dec 1234 = ''1234''" by code_simp
    then have "key_mchain (py_encode ''1234'') = Inr 1234" using key_mchain_int_to_dec [of 1234] by metis
    then show ?thesis using message_data_decodable by (simp add: reply_ok_def experiment_chain_def)
  qed
  ultimately have "replies_ok [experiment_chain] [0..<5] (ex_sched sample_surroundings)"
    by (auto simp: replies_ok_def)
  moreover have "\<exists>j. gen_at j string_generator" using gen_at_start by blast
  ultimately have "fair 4 sample_surroundings"
    by (simp add: fair_def no_faults_def quiet_redis_def) (simp add: sample_surroundings_def quiet_redis_def)
  from experiment_plots_shares [OF this, of 30000] show ?thesis by auto
qed

text \<open>
  C21. The queue experiment of test.py, from its start, returns as well when nothing fails around it: it
  plots one curve for each of its five rates, whatever the listener delivers.  Every curve has as many times
  as queue sizes, at least one of them, and no negative size; the limits of the axes hold the end of every
  curve and all its sizes; and the measured rate exceeds the target by at most one message per test.
\<close>

theorem queue_experiment_plots:
  assumes "fair K x" and "24001 < fuel" and "K + 2 \<le> fuel" and "5 * fuel \<le> 2 ^ 63"
  shows "\<exists>q. fst (queue_experiment x fuel no_listeners) = Inr (Some q) \<and>
    map snd queue_rates = [3000, 4250, 5500, 6750, 8000] \<and>
    list_all2 (\<lambda>ir c. good_curve (snd ir) c) queue_rates (qp_curves q) \<and> axes_hold q"
proof -
  obtain nodes where nodes: "dict_index (test_config (ex_set_order x)) experiment_chain = Inr nodes" "length nodes = 5"
    using assms(1) config_nodes unfolding fair_def by blast
  from queue_starts [OF assms(1) nodes(2)] obtain l cls where
    init: "queue_tester_init (ex_redis x) (clock_env x) [experiment_chain]
      (mk_udp_client (ex_nonce x) (client_addresses nodes)) (redis_addresses nodes) (ex_object x) no_listeners =
        (Inr l, cls)"
    and ready: "queue_ready experiment_chain 5 (ls_app l)"
    and client: "ts_client (ls_app l) = mk_udp_client (ex_nonce x) (client_addresses nodes)"
    and arr: "arrivals_ok [experiment_chain] 5 (fed_env (ex_lag x) l (ex_sched x))" by blast
  let ?env = "fed_env (ex_lag x) l (ex_sched x)" and ?q0 = "\<lparr>qp_curves = [], qp_max_time = 0, qp_max_queue = 0\<rparr>"
  note env = fair_environment [OF assms(1)]
  have "length queue_rates = 5" by (simp add: queue_rates_are)
  with env(5) assms(4) client have budget: "udp_budget (length queue_rates * fuel) (ts_client (ls_app l))" by simp
  have "(24001 :: time) < of_nat fuel" using assms(2) by (metis of_nat_less_iff of_nat_numeral)
  then have rates: "\<forall>ir \<in> set queue_rates. 0 < snd ir \<and> of_int (snd ir) * 3 + 1 < (of_nat fuel :: time)"
    by (simp add: queue_rates_are)
  have "axes_hold ?q0" by (simp add: axes_hold_def)
  from queue_sweep_returns [OF _ env(1) arr env(4) env(2) assms(3) ready budget this rates] obtain q s' where
    run: "queue_test (udp_send no_send_errors) ?env fuel ?q0 queue_rates (ls_app l) = (Inr (Some q), s')"
    and q: "axes_hold q" "list_all2 (\<lambda>ir c. good_curve (snd ir) c) queue_rates (qp_curves q)" by auto
  from env(3) nodes(1) init run have "fst (queue_experiment x fuel no_listeners) = Inr (Some q)"
    by (simp add: queue_experiment_def py_bind_def py_lift_def del: dict_index_eq_Inr)
  then show ?thesis using q by (simp add: queue_rates_are)
qed

definition queue_surroundings :: "queue_tester surroundings" where
  "queue_surroundings =
     \<lparr>ex_set_order = id, ex_nonce = 5, ex_redis = quiet_redis, ex_sendto = no_send_errors,
      ex_lag = (\<lambda>_. 1 / 10000), ex_sched = (\<lambda>_. []),
      ex_object = \<lparr>ts_mchains = [], ts_client = mk_udp_client 0 [], ts_generator = string_generator,
        ts_last_delivery_time = 0, ts_listening = True, ts_self = qt_init [] 0, ts_clock = 9, ts_readings = 0,
        ts_sleeps = 0, start_time = 0, request_times = [], total_messages_count = 0,
        previous_rps_report_time = 0, current_time = None\<rparr>\<rparr>"

theorem queue_experiment_plots_witness:
  "\<exists>q. fst (queue_experiment queue_surroundings 25000 no_listeners) = Inr (Some q) \<and> length (qp_curves q) = 5"
proof -
  have "\<exists>j. gen_at j string_generator" using gen_at_start by blast
  moreover have "replies_ok [experiment_chain] [0..<5] (\<lambda>_. [])"
    by (simp add: replies_ok_def arrived_def moves_until_def)
  ultimately have "fair 0 queue_surroundings"
    by (simp add: fair_def no_faults_def quiet_redis_def queue_surroundings_def)
  from queue_experiment_plots [OF this, of 25000] show ?thesis
    by (auto simp: queue_rates_are dest: list_all2_lengthD)
qed

end
