(* ===== verification/Demos.thy ===== *)
theory Demos
  imports Experiments
begin

text \<open>
  The demonstration scripts of client/: \<open>main\<close> of client.py, which sends \<open>hello\<close> with counted nonces from
  a socket of its own, its coroutine \<open>hello\<close>, which does so over a websocket until something fails, and
  \<open>test\<close> and \<open>main\<close> of tester.py, which send the words of a generator through a \<open>UdpClient\<close> and print
  what a listener delivers.  The loops run for ever, so each is given the number of rounds to take; the
  second they sleep between rounds is left out.
\<close>

section \<open>client.py\<close>

definition server_address :: address where
  "server_address = (''localhost'', 1234)"

definition hello_message :: "int \<Rightarrow> message" where
  "hello_message nonce = mk_message 5 1 nonce SEND (py_encode ''hello'')"

definition plain_sendto :: "sendto \<Rightarrow> byte list \<Rightarrow> address \<Rightarrow> (datagram list, unit) py" where
  "plain_sendto sendto buffer node =
     (case sendto buffer node of
        Some e \<Rightarrow> py_raise e
      | None \<Rightarrow> py_modify (\<lambda>sent. sent @ [(buffer, node)]))"

primrec main_rounds :: "sendto \<Rightarrow> nat \<Rightarrow> int \<Rightarrow> (datagram list, unit) py" where
  "main_rounds sendto 0 nonce = py_return ()"
| "main_rounds sendto (Suc n) nonce =
     py_bind (py_lift (encode (hello_message nonce))) (\<lambda>buffer.
     py_block
       [plain_sendto sendto buffer server_address,
        main_rounds sendto n (nonce + 1)])"

definition client_main :: "sendto \<Rightarrow> nat \<Rightarrow> (datagram list, unit) py" where
  "client_main sendto n = main_rounds sendto n 1"

definition hello_datagram :: "int \<Rightarrow> datagram \<Rightarrow> bool" where
  "hello_datagram nonce d \<longleftrightarrow> encode (hello_message nonce) = Inr (fst d) \<and> snd d = server_address"

lemma main_rounds_sent:
  assumes "\<forall>buf. sendto buf server_address = None" and "0 \<le> nonce" "nonce + int n \<le> 2 ^ 64"
  shows "\<exists>ds. main_rounds sendto n nonce sent = (Inr (), sent @ ds) \<and>
    list_all2 hello_datagram (map (\<lambda>k. nonce + int k) [0..<n]) ds"
  using assms(2,3)
proof (induction n arbitrary: nonce sent)
  case (Suc n)
  then have "encodable (hello_message nonce)" by (simp add: encodable_def in_u64_def hello_message_def mk_message_def)
  then obtain buf where buf: "encode (hello_message nonce) = Inr buf" by (simp add: encode_eq)
  from Suc obtain ds where ds: "main_rounds sendto n (nonce + 1) (sent @ [(buf, server_address)]) =
      (Inr (), sent @ (buf, server_address) # ds)" "list_all2 hello_datagram (map (\<lambda>k. nonce + 1 + int k) [0..<n]) ds"
    using Suc.IH [of "nonce + 1" "sent @ [(buf, server_address)]"] by auto
  have "map (\<lambda>k. nonce + int k) [0..<Suc n] = nonce # map (\<lambda>k. nonce + 1 + int k) [0..<n]"
    by (simp add: upt_conv_Cons map_Suc_upt [symmetric] comp_def ac_simps del: upt_Suc)
  moreover have "hello_datagram nonce (buf, server_address)" using buf by (simp add: hello_datagram_def)
  ultimately show ?case using ds buf assms(1)
    by (intro exI [of _ "(buf, server_address) # ds"]) (simp add: plain_sendto_def py_defs del: upt_Suc)
qed (simp add: py_defs)

text \<open>
  \<open>hello\<close>: the library \<open>websockets\<close> is what \<open>connect\<close> and \<open>send\<close> raise.  \<open>except Exception\<close> lets what
  is no \<open>Exception\<close> pass.
\<close>

record websocket =
  ws_connect :: "py_exn option"
  ws_send :: "string \<Rightarrow> py_exn option"

definition is_exception :: "py_exn \<Rightarrow> bool" where
  "is_exception e = (case e of SystemExit _ \<Rightarrow> False | UsageExit _ \<Rightarrow> False | NotReturned \<Rightarrow> False | _ \<Rightarrow> True)"

definition hello_text :: "nat \<Rightarrow> string" where
  "hello_text counter = ''Hello world'' @ '' - '' @ nat_to_dec counter"

definition raising :: "py_exn option \<Rightarrow> ('s \<Rightarrow> 's) \<Rightarrow> ('s, unit) py" where
  "raising e f = (case e of Some x \<Rightarrow> py_raise x | None \<Rightarrow> py_modify f)"

primrec hello_rounds :: "websocket \<Rightarrow> nat \<Rightarrow> nat \<Rightarrow> (string list, unit) py" where
  "hello_rounds ws 0 counter = py_return ()"
| "hello_rounds ws (Suc n) counter =
     py_block
       [raising (ws_send ws (hello_text counter)) (\<lambda>sent. sent @ [hello_text counter]),
        hello_rounds ws n (counter + 1)]"

definition hello :: "websocket \<Rightarrow> nat \<Rightarrow> (string list, unit) py" where
  "hello ws n =
     py_except (py_block [raising (ws_connect ws) id, hello_rounds ws n 0]) is_exception (\<lambda>e. py_return ())"

lemma hello_rounds_sent:
  "snd (hello_rounds ws n k sent) =
     sent @ takeWhile (\<lambda>m. ws_send ws m = None) (map hello_text [k..<k + n])"
proof (induction n arbitrary: k sent)
  case (Suc n)
  have "map hello_text [k..<k + Suc n] = hello_text k # map hello_text [k + 1..<k + 1 + n]"
    by (simp add: upt_conv_Cons del: upt_Suc)
  with Suc.IH [of "k + 1"] show ?case
    by (auto simp: raising_def py_defs simp del: upt_Suc split: option.splits)
qed (simp add: py_defs)

text \<open>\<open>hello\<close> sends its counted messages up to the first that fails, and swallows every exception.\<close>

lemma hello_outcome:
  assumes "ws_connect ws = None" and "\<And>m e. ws_send ws m = Some e \<Longrightarrow> is_exception e"
  shows "hello ws n sent = (Inr (), sent @ takeWhile (\<lambda>m. ws_send ws m = None) (map hello_text [0..<n]))"
proof -
  have "\<exists>s'. hello_rounds ws n k s = (Inr (), s') \<or> (\<exists>e. hello_rounds ws n k s = (Inl e, s') \<and> is_exception e)" for k s
    by (induction n arbitrary: k s) (auto simp: raising_def py_defs assms(2) split: option.splits)
  from this [of 0 sent] have "hello ws n sent = (Inr (), snd (hello_rounds ws n 0 sent))"
    using assms(1) by (auto simp: hello_def raising_def py_defs split: sum.splits)
  then show ?thesis using hello_rounds_sent [of ws n 0 sent] by (simp add: prod_eq_iff)
qed

section \<open>tester.py\<close>

record demo =
  de_strings :: gen
  de_client :: udp_client

definition demo_start :: "int \<Rightarrow> address list \<Rightarrow> demo" where
  "demo_start nonce\<^sub>0 nodes = \<lparr>de_strings = string_generator, de_client = mk_udp_client nonce\<^sub>0 nodes\<rparr>"

definition demo_next :: "(demo, string) py" where
  "demo_next s = (case gen_next (de_strings s) of (w, g) \<Rightarrow> (Inr w, s\<lparr>de_strings := g\<rparr>))"

definition demo_send :: "sendto \<Rightarrow> int \<Rightarrow> byte list \<Rightarrow> (demo, unit) py" where
  "demo_send sendto mchain data s =
     (case udp_send sendto mchain data (de_client s) of (r, c) \<Rightarrow> (r, s\<lparr>de_client := c\<rparr>))"

definition demo_round :: "sendto \<Rightarrow> int \<Rightarrow> (demo, unit) py" where
  "demo_round sendto mchain = py_bind demo_next (\<lambda>w. demo_send sendto mchain (py_encode w))"

definition demo_test :: "sendto \<Rightarrow> int \<Rightarrow> address list \<Rightarrow> nat \<Rightarrow> (demo, unit) py" where
  "demo_test sendto nonce\<^sub>0 nodes n =
     py_bind (py_modify (\<lambda>_. demo_start nonce\<^sub>0 nodes)) (\<lambda>_. py_for [0..<n] (\<lambda>_. demo_round sendto 1234))"

text \<open>
  The listener of \<open>test\<close>, whose handler prints: the printed lines are the state it changes.
\<close>

type_synonym printed = "(nat \<times> int \<times> byte list) list"

definition print_handler :: "printed handler" where
  "print_handler mchain source_id data = py_modify (\<lambda>out. out @ [(source_id, mchain, data)])"

definition demo_listen ::
  "redis_faults \<Rightarrow> node_entry list \<Rightarrow> (printed listener_class, printed listening) py"
where
  "demo_listen rf nodes =
     py_bind (register_handler print_handler) (\<lambda>_. listen rf [experiment_chain] (redis_addresses nodes) [])"

text \<open>\<open>main\<close>: the call \<open>Tester([mchain], None, None)\<close> binds three arguments to four parameters.\<close>

definition bind_arguments :: "string list \<Rightarrow> 'a list \<Rightarrow> (string \<times> 'a) list res" where
  "bind_arguments parameters arguments =
     (if length parameters = length arguments then Inr (zip parameters arguments) else Inl TypeError)"

definition tester_main :: "((string \<times> int list option) list \<Rightarrow> 'a res) \<Rightarrow> 'a res" where
  "tester_main rest =
     bind_res (bind_arguments [''mchains'', ''client'', ''redis_addresses'', ''loop''] [Some [5], None, None]) rest"

lemma tester_main_raises: "tester_main rest = Inl TypeError"
  by (simp add: tester_main_def bind_arguments_def)

end
