(* ===== verification/PyVal.thy ===== *)
theory PyVal
  imports PyStr PyDict
begin

text \<open>
  Dynamic values for ops/ansible/ec2.py, which works on boto objects and on the dictionaries that the
  describe calls return.  An object has the attributes of its \<open>__dict__\<close> and, apart from them, the
  properties of its class.  Each access raises what Python raises when the value has another shape.
  Then the two name mangling functions of the script, \<open>to_safe\<close> and \<open>uncammelize\<close>.
\<close>

section \<open>Values\<close>

datatype pyval =
    PNone
  | PBool bool
  | PInt int
  | PStr string
  | PList "pyval list"
  | PDict "(pyval \<times> pyval) list"
  | PObj "(string \<times> pyval) list" "(string \<times> pyval) list"

primrec truthy :: "pyval \<Rightarrow> bool" where
  "truthy PNone = False"
| "truthy (PBool b) = b"
| "truthy (PInt i) = (i \<noteq> 0)"
| "truthy (PStr s) = (s \<noteq> [])"
| "truthy (PList xs) = (xs \<noteq> [])"
| "truthy (PDict d) = (d \<noteq> [])"
| "truthy (PObj a p) = True"

text \<open>\<open>getattr(o, name)\<close>, \<open>getattr(o, name, None)\<close>, \<open>hasattr(o, name)\<close>\<close>

definition attr_of :: "pyval \<Rightarrow> string \<Rightarrow> pyval option" where
  "attr_of v name = (case v of
     PObj attrs props \<Rightarrow> (case map_of attrs name of None \<Rightarrow> map_of props name | Some x \<Rightarrow> Some x)
   | _ \<Rightarrow> None)"

definition py_getattr :: "pyval \<Rightarrow> string \<Rightarrow> pyval res" where
  "py_getattr v name = (case attr_of v name of None \<Rightarrow> Inl AttributeError | Some x \<Rightarrow> Inr x)"

definition getattr_or_none :: "pyval \<Rightarrow> string \<Rightarrow> pyval" where
  "getattr_or_none v name = (case attr_of v name of None \<Rightarrow> PNone | Some x \<Rightarrow> x)"

text \<open>\<open>v[i]\<close>, \<open>k in v\<close> for a dictionary, \<open>v.get(k)\<close>, \<open>v.items()\<close> and iteration over a list\<close>

definition py_item :: "pyval \<Rightarrow> pyval \<Rightarrow> pyval res" where
  "py_item v i = (case v of
     PDict d \<Rightarrow> dict_index d i
   | PList xs \<Rightarrow> (case i of
       PInt n \<Rightarrow> if 0 \<le> n \<and> n < int (length xs) then Inr (xs ! nat n)
                 else if n < 0 \<and> - n \<le> int (length xs) then Inr (xs ! nat (int (length xs) + n))
                 else Inl IndexError
     | _ \<Rightarrow> Inl TypeError)
   | _ \<Rightarrow> Inl TypeError)"

definition py_key :: "pyval \<Rightarrow> string \<Rightarrow> pyval res" where
  "py_key v k = py_item v (PStr k)"

definition py_has_key :: "pyval \<Rightarrow> string \<Rightarrow> bool res" where
  "py_has_key v k = (case v of PDict d \<Rightarrow> Inr (dict_get d (PStr k) \<noteq> None) | _ \<Rightarrow> Inl TypeError)"

definition py_get :: "pyval \<Rightarrow> string \<Rightarrow> pyval res" where
  "py_get v k = (case v of
     PDict d \<Rightarrow> Inr (case dict_get d (PStr k) of None \<Rightarrow> PNone | Some x \<Rightarrow> x)
   | _ \<Rightarrow> Inl AttributeError)"

definition py_items :: "pyval \<Rightarrow> (pyval \<times> pyval) list res" where
  "py_items v = (case v of PDict d \<Rightarrow> Inr d | _ \<Rightarrow> Inl AttributeError)"

definition py_elements :: "pyval \<Rightarrow> pyval list res" where
  "py_elements v = (case v of
     PList xs \<Rightarrow> Inr xs
   | PDict d \<Rightarrow> Inr (map fst d)
   | PStr s \<Rightarrow> Inr (map (\<lambda>c. PStr [c]) s)
   | _ \<Rightarrow> Inl TypeError)"


definition py_len :: "pyval \<Rightarrow> nat res" where
  "py_len v = bind_res (py_elements v) (\<lambda>xs. Inr (length xs))"

text \<open>\<open>a + b\<close> on strings, and the string behind a value that must be one (\<open>e\<close> otherwise).\<close>

definition py_add :: "string \<Rightarrow> pyval \<Rightarrow> string res" where
  "py_add s v = (case v of PStr t \<Rightarrow> Inr (s @ t) | _ \<Rightarrow> Inl TypeError)"

definition py_string :: "py_exn \<Rightarrow> pyval \<Rightarrow> string res" where
  "py_string e v = (case v of PStr t \<Rightarrow> Inr t | _ \<Rightarrow> Inl e)"

text \<open>
  \<open>repr\<close> of a string: in single quotes, or in double quotes when it holds a single quote and no double
  one; what is not printable is escaped.
\<close>

definition hex_digit :: "nat \<Rightarrow> char" where
  "hex_digit n = char_of (if n < 10 then 48 + n else 87 + n)"

definition repr_char :: "char \<Rightarrow> char \<Rightarrow> string" where
  "repr_char q c =
     (let n = code_of c; b = CHR 92 in
      if n = 92 \<or> c = q then [b, c]
      else if n = 10 then [b, CHR ''n''] else if n = 13 then [b, CHR ''r''] else if n = 9 then [b, CHR ''t'']
      else if n < 32 \<or> 127 \<le> n \<and> n \<le> 160 \<or> n = 173
      then [b, CHR ''x'', hex_digit (n div 16), hex_digit (n mod 16)]
      else [c])"

definition repr_str :: "string \<Rightarrow> string" where
  "repr_str s =
     (let q = (if CHR 39 \<in> set s \<and> CHR 34 \<notin> set s then CHR 34 else CHR 39)
      in q # concat (map (repr_char q) s) @ [q])"

lemma size_elem: "x \<in> set xs \<Longrightarrow> size x < size (PList xs)"
  by (induction xs) auto

lemma size_entry: "kv \<in> set kvs \<Longrightarrow> size (fst kv) < size (PDict kvs) \<and> size (snd kv) < size (PDict kvs)"
  by (induction kvs) (auto simp: size_prod_simp)

function py_repr :: "pyval \<Rightarrow> string" where
  "py_repr PNone = ''None''"
| "py_repr (PBool b) = (if b then ''True'' else ''False'')"
| "py_repr (PInt i) = int_to_dec i"
| "py_repr (PStr s) = repr_str s"
| "py_repr (PList xs) = ''['' @ py_join '', '' (map py_repr xs) @ '']''"
| "py_repr (PDict kvs) = ''{'' @ py_join '', '' (map (\<lambda>kv. py_repr (fst kv) @ '': '' @ py_repr (snd kv)) kvs) @ ''}''"
| "py_repr (PObj attrs props) = []"
  by pat_completeness auto

termination py_repr
  by (relation "measure size") (auto simp del: pyval.size dest: size_elem size_entry)

function has_object :: "pyval \<Rightarrow> bool" where
  "has_object (PObj attrs props) = True"
| "has_object (PList xs) = list_ex has_object xs"
| "has_object (PDict kvs) = list_ex (\<lambda>kv. has_object (fst kv) \<or> has_object (snd kv)) kvs"
| "has_object PNone = False"
| "has_object (PBool b) = False"
| "has_object (PInt i) = False"
| "has_object (PStr s) = False"
  by pat_completeness auto

termination has_object
  by (relation "measure size") (auto simp del: pyval.size dest: size_elem size_entry)

text \<open>\<open>str(v)\<close>; the text of an object holds its address, which the model does not have.\<close>

definition py_str :: "pyval \<Rightarrow> string res" where
  "py_str v = (case v of
     PStr s \<Rightarrow> Inr s
   | _ \<Rightarrow> if has_object v then Inl TypeError else Inr (py_repr v))"

lemma py_str_simps [simp]:
  "py_str (PStr s) = Inr s" "py_str (PInt i) = Inr (int_to_dec i)" "py_str PNone = Inr ''None''"
  "py_str (PBool b) = Inr (if b then ''True'' else ''False'')"
  by (simp_all add: py_str_def)

lemma py_str_list: "py_str (PList [PStr [CHR ''a'', CHR 39], PInt 2, PDict [(PStr ''k'', PNone)]]) =
    Inr ([CHR ''['', CHR 34, CHR ''a'', CHR 39, CHR 34] @ '', 2, {'' @ [CHR 39, CHR ''k'', CHR 39] @ '': None}]'')"
  by code_simp

lemmas pyval_access = py_getattr_def py_item_def py_key_def py_has_key_def py_get_def py_items_def
  py_elements_def py_len_def py_add_def py_string_def py_str_def

section \<open>Safe names\<close>

definition safe_char :: "bool \<Rightarrow> char \<Rightarrow> bool" where
  "safe_char replace_dash c \<longleftrightarrow>
     is_AZ c \<or> is_az c \<or> is_09 c \<or> c = CHR ''_'' \<or> (\<not> replace_dash \<and> c = CHR ''-'')"

definition to_safe :: "bool \<Rightarrow> string \<Rightarrow> string" where
  "to_safe replace_dash word = map (\<lambda>c. if safe_char replace_dash c then c else CHR ''_'') word"

text \<open>
  The two substitutions of \<open>uncammelize\<close>, \<open>(.)([A-Z][a-z]+)\<close> and \<open>([a-z0-9])([A-Z])\<close>, scanning from
  the left without overlaps; the dot does not match a line feed.
\<close>

function split_words :: "string \<Rightarrow> string" where
  "split_words (a # b # c # s) =
     (if code_of a \<noteq> 10 \<and> is_AZ b \<and> is_az c
      then a # CHR ''_'' # b # takeWhile is_az (c # s) @ split_words (dropWhile is_az (c # s))
      else a # split_words (b # c # s))"
| "split_words [] = []"
| "split_words [a] = [a]"
| "split_words [a, b] = [a, b]"
  by pat_completeness auto
termination
  by (relation "measure length") (auto simp: le_imp_less_Suc length_dropWhile_le le_SucI)

fun split_humps :: "string \<Rightarrow> string" where
  "split_humps (a # b # s) =
     (if (is_az a \<or> is_09 a) \<and> is_AZ b then a # CHR ''_'' # b # split_humps s
      else a # split_humps (b # s))"
| "split_humps s = s"

definition uncammelize :: "string \<Rightarrow> string" where
  "uncammelize key = py_lower (split_humps (split_words key))"

lemma safe_char_underscore [simp]: "safe_char rd CHR ''_''"
  by (simp add: safe_char_def)

lemma to_safe_safe: "c \<in> set (to_safe rd w) \<Longrightarrow> safe_char rd c"
  by (auto simp: to_safe_def)

lemma to_safe_id: "\<forall>c \<in> set w. safe_char rd c \<Longrightarrow> to_safe rd w = w"
  by (induction w) (simp_all add: to_safe_def)

lemma to_safe_idem [simp]: "to_safe rd (to_safe rd w) = to_safe rd w"
  by (rule to_safe_id) (auto dest: to_safe_safe)

lemma length_to_safe [simp]: "length (to_safe rd w) = length w"
  by (simp add: to_safe_def)

lemma to_safe_append [simp]: "to_safe rd (v @ w) = to_safe rd v @ to_safe rd w"
  by (simp add: to_safe_def)

lemma to_safe_Nil [simp]: "to_safe rd w = [] \<longleftrightarrow> w = []" "to_safe rd [] = []"
  by (simp_all add: to_safe_def)

lemma safe_char_lower: "safe_char rd c \<Longrightarrow> safe_char rd (lower_char c)"
proof -
  assume safe: "safe_char rd c"
  show ?thesis
  proof (cases "is_upper c")
    case True
    then have "code_of (lower_char c) = code_of c + 32" by (rule code_of_lower)
    moreover have "is_AZ c"
      using True safe by (auto simp: safe_char_def is_upper_def is_AZ_def is_az_def is_09_def code_of_def)
    ultimately have "is_az (lower_char c)" by (simp add: is_AZ_def is_az_def)
    then show ?thesis by (simp add: safe_char_def)
  next
    case False
    then show ?thesis using safe by (simp add: lower_char_def)
  qed
qed

lemma to_safe_lower: "\<forall>c \<in> set (py_lower (to_safe rd w)). safe_char rd c"
  by (auto simp: py_lower_def intro: safe_char_lower to_safe_safe)

end
