(* ===== verification/Inventory.thy ===== *)
theory Inventory
  imports PyVal
begin

text \<open>
  The inventory of ops/ansible/ec2.py: the attributes of \<open>Ec2Inventory\<close> that its methods change, the
  settings they only read, and the operations \<open>push\<close> and \<open>push_group\<close> by which every group is built.
  A group is a list of hosts until a child is added; then it is a dictionary with \<open>hosts\<close> and
  \<open>children\<close>.
\<close>

section \<open>Settings and state\<close>

text \<open>
  What \<open>read_settings\<close> stores.  A compiled pattern is its \<open>match\<close>, a destination format what
  \<open>str.format\<close> makes of it; \<open>st_group_by\<close> are the attributes set from the \<open>group_by\<close> options;
  \<open>st_set_order\<close> is the order in which a set of names is iterated.
\<close>

record settings =
  st_eucalyptus :: bool
  st_regions :: "string list"
  st_destination_variable :: string
  st_vpc_destination_variable :: string
  st_hostname_variable :: "string option"
  st_destination_format :: "(pyval list \<Rightarrow> string res) option"
  st_destination_format_tags :: "string list"
  st_route53_enabled :: bool
  st_route53_hostnames :: "string option"
  st_route53_excluded_zones :: "string list"
  st_rds_enabled :: bool
  st_include_rds_clusters :: bool
  st_elasticache_enabled :: bool
  st_ec2_instance_states :: "string list"
  st_all_rds_instances :: bool
  st_all_elasticache_replication_groups :: bool
  st_all_elasticache_clusters :: bool
  st_all_elasticache_nodes :: bool
  st_expand_csv_tags :: bool
  st_nested_groups :: bool
  st_replace_dash_in_groups :: bool
  st_group_by :: "string \<Rightarrow> bool"
  st_pattern_include :: "(string \<Rightarrow> bool) option"
  st_pattern_exclude :: "(string \<Rightarrow> bool) option"
  st_stack_filters :: bool
  st_instance_filters :: "(string, pyval) dict list"
  st_set_order :: "string set \<Rightarrow> string list"
  st_boto_profile :: "string option"
  st_iam_role :: "string option"

record ec2_state =
  ei_inventory :: "(pyval, pyval) dict"
  ei_index :: "(pyval, pyval) dict"
  ei_aws_account_id :: pyval
  ei_route53_records :: "(pyval, string set) dict option"
  ei_credentials :: "(string, string option) dict"

type_synonym ec2 = "(ec2_state, unit) py"

definition empty_inventory :: "(pyval, pyval) dict" where
  "empty_inventory = [(PStr ''_meta'', PDict [(PStr ''hostvars'', PDict [])])]"

text \<open>\<open>fail_with_error\<close> writes its message to standard error and exits.\<close>

definition fail_with_error :: "string \<Rightarrow> string option \<Rightarrow> ('s, 'a) py" where
  "fail_with_error err_msg err_operation =
     (case err_operation of
        None \<Rightarrow> py_raise (SystemExit err_msg)
      | Some op \<Rightarrow> py_raise (SystemExit
          (if op = [] then err_msg else ''ERROR: '' @ [CHR 34] @ err_msg @ [CHR 34] @ '', while: '' @ op)))"

section \<open>Groups\<close>

definition push_dict :: "(pyval, pyval) dict \<Rightarrow> pyval \<Rightarrow> pyval \<Rightarrow> (pyval, pyval) dict res" where
  "push_dict d key element =
     (case (case dict_get d key of None \<Rightarrow> PList [] | Some g \<Rightarrow> g) of
        PDict g \<Rightarrow>
          (case (case dict_get g (PStr ''hosts'') of None \<Rightarrow> PList [] | Some h \<Rightarrow> h) of
             PList hosts \<Rightarrow> Inr (dict_set d key (PDict (dict_set g (PStr ''hosts'') (PList (hosts @ [element])))))
           | _ \<Rightarrow> Inl AttributeError)
      | PList hosts \<Rightarrow> Inr (dict_set d key (PList (hosts @ [element])))
      | _ \<Rightarrow> Inl AttributeError)"

definition push_group_dict :: "(pyval, pyval) dict \<Rightarrow> pyval \<Rightarrow> pyval \<Rightarrow> (pyval, pyval) dict res" where
  "push_group_dict d key element =
     (let parent = (case dict_get d key of None \<Rightarrow> PDict [] | Some g \<Rightarrow> g);
          g = (case parent of PDict g \<Rightarrow> g | _ \<Rightarrow> [(PStr ''hosts'', parent)])
      in case (case dict_get g (PStr ''children'') of None \<Rightarrow> PList [] | Some c \<Rightarrow> c) of
           PList children \<Rightarrow>
             Inr (dict_set d key (PDict (dict_set g (PStr ''children'')
               (PList (if element \<in> set children then children else children @ [element])))))
         | _ \<Rightarrow> Inl TypeError)"

definition on_inventory :: "((pyval, pyval) dict \<Rightarrow> (pyval, pyval) dict res) \<Rightarrow> ec2" where
  "on_inventory f s =
     (case f (ei_inventory s) of Inl e \<Rightarrow> (Inl e, s) | Inr d \<Rightarrow> (Inr (), s\<lparr>ei_inventory := d\<rparr>))"

definition push :: "pyval \<Rightarrow> pyval \<Rightarrow> ec2" where
  "push key element = on_inventory (\<lambda>d. push_dict d key element)"

definition push_group :: "pyval \<Rightarrow> pyval \<Rightarrow> ec2" where
  "push_group key element = on_inventory (\<lambda>d. push_group_dict d key element)"

text \<open>The pattern every grouping step follows: push the host, then nest the group.\<close>

definition group_host :: "settings \<Rightarrow> string \<Rightarrow> pyval \<Rightarrow> pyval \<Rightarrow> ec2" where
  "group_host st parent key hostname =
     py_block
       [push key hostname,
        py_when (st_nested_groups st) (push_group (PStr parent) key)]"

definition set_item :: "pyval \<Rightarrow> pyval \<Rightarrow> ec2" where
  "set_item key v = py_modify (\<lambda>s. s\<lparr>ei_inventory := dict_set (ei_inventory s) key v\<rparr>)"

text \<open>\<open>self.inventory[id] = [hostname]\<close> and the nesting under \<open>instances\<close>\<close>

definition group_by_id :: "settings \<Rightarrow> pyval \<Rightarrow> pyval \<Rightarrow> ec2" where
  "group_by_id st instance_id hostname =
     py_when (st_group_by st ''group_by_instance_id'') (py_block
       [set_item instance_id (PList [hostname]),
        py_when (st_nested_groups st) (push_group (PStr ''instances'') instance_id)])"

definition group_by_region :: "settings \<Rightarrow> string \<Rightarrow> pyval \<Rightarrow> ec2" where
  "group_by_region st region hostname =
     py_when (st_group_by st ''group_by_region'') (group_host st ''regions'' (PStr region) hostname)"

definition group_by_zone :: "settings \<Rightarrow> string \<Rightarrow> pyval res \<Rightarrow> pyval \<Rightarrow> ec2" where
  "group_by_zone st region zone hostname =
     py_when (st_group_by st ''group_by_availability_zone'')
       (py_bind (py_lift zone) (\<lambda>z. py_block
         [push z hostname,
          py_when (st_nested_groups st) (py_block
            [py_when (st_group_by st ''group_by_region'') (push_group (PStr region) z),
             push_group (PStr ''zones'') z])]))"

text \<open>A group named by a pre and a string of the host, made safe.\<close>

definition safe_key :: "settings \<Rightarrow> string \<Rightarrow> pyval res \<Rightarrow> pyval res" where
  "safe_key st pre r =
     bind_res r (\<lambda>v. bind_res (py_add pre v) (\<lambda>w. Inr (PStr (to_safe (st_replace_dash_in_groups st) w))))"

definition group_named :: "settings \<Rightarrow> string \<Rightarrow> string \<Rightarrow> string \<Rightarrow> pyval res \<Rightarrow> pyval \<Rightarrow> ec2" where
  "group_named st option parent pre r hostname =
     py_when (st_group_by st option)
       (py_bind (py_lift (safe_key st pre r)) (\<lambda>key. group_host st parent key hostname))"

text \<open>\<open>self.index[hostname] = [region, id]\<close> and the host variables\<close>

definition add_to_index :: "pyval \<Rightarrow> string \<Rightarrow> pyval \<Rightarrow> ec2" where
  "add_to_index hostname region i =
     py_modify (\<lambda>s. s\<lparr>ei_index := dict_set (ei_index s) hostname (PList [PStr region, i])\<rparr>)"

definition hostvars_of :: "(pyval, pyval) dict \<Rightarrow> (pyval, pyval) dict res" where
  "hostvars_of d =
     bind_res (dict_index d (PStr ''_meta'')) (\<lambda>meta.
     bind_res (py_key meta ''hostvars'') (\<lambda>hv.
       case hv of PDict vars \<Rightarrow> Inr vars | _ \<Rightarrow> Inl TypeError))"

definition set_hostvars_dict ::
  "pyval \<Rightarrow> (pyval, pyval) dict \<Rightarrow> (pyval, pyval) dict \<Rightarrow> (pyval, pyval) dict res"
where
  "set_hostvars_dict hostname info d =
     bind_res (hostvars_of d) (\<lambda>vars.
     bind_res (dict_index d (PStr ''_meta'')) (\<lambda>meta.
       case meta of
         PDict m \<Rightarrow> Inr (dict_set d (PStr ''_meta'')
           (PDict (dict_set m (PStr ''hostvars'') (PDict (dict_set vars hostname (PDict info))))))
       | _ \<Rightarrow> Inl TypeError))"

definition set_hostvars :: "pyval \<Rightarrow> (pyval, pyval) dict \<Rightarrow> ec2" where
  "set_hostvars hostname info = on_inventory (set_hostvars_dict hostname info)"

section \<open>What an inventory says\<close>

text \<open>
  Read abstractly, an inventory maps every key to the hosts of its group and to the groups below it;
  that a group is a list first and a dictionary later is a matter of representation.
\<close>

definition list_at :: "(pyval, pyval) dict \<Rightarrow> string \<Rightarrow> pyval list" where
  "list_at g k = (case dict_get g (PStr k) of Some (PList xs) \<Rightarrow> xs | _ \<Rightarrow> [])"

definition group_hosts :: "pyval \<Rightarrow> pyval list" where
  "group_hosts v = (case v of PList xs \<Rightarrow> xs | PDict g \<Rightarrow> list_at g ''hosts'' | _ \<Rightarrow> [])"

definition group_children :: "pyval \<Rightarrow> pyval list" where
  "group_children v = (case v of PDict g \<Rightarrow> list_at g ''children'' | _ \<Rightarrow> [])"

definition hosts_in :: "(pyval, pyval) dict \<Rightarrow> pyval \<Rightarrow> pyval list" where
  "hosts_in d k = (case dict_get d k of None \<Rightarrow> [] | Some g \<Rightarrow> group_hosts g)"

definition children_in :: "(pyval, pyval) dict \<Rightarrow> pyval \<Rightarrow> pyval list" where
  "children_in d k = (case dict_get d k of None \<Rightarrow> [] | Some g \<Rightarrow> group_children g)"

definition is_list_or_absent :: "(pyval, pyval) dict \<Rightarrow> string \<Rightarrow> bool" where
  "is_list_or_absent g k \<longleftrightarrow> (\<forall>v. dict_get g (PStr k) = Some v \<longrightarrow> (\<exists>xs. v = PList xs))"

definition good_group :: "pyval \<Rightarrow> bool" where
  "good_group v \<longleftrightarrow> (case v of
     PList xs \<Rightarrow> True
   | PDict g \<Rightarrow> is_list_or_absent g ''hosts'' \<and> is_list_or_absent g ''children''
   | _ \<Rightarrow> False)"

definition good_inventory :: "(pyval, pyval) dict \<Rightarrow> bool" where
  "good_inventory d \<longleftrightarrow> (\<forall>k g. dict_get d k = Some g \<longrightarrow> good_group g) \<and>
     (\<exists>vars. hostvars_of d = Inr vars)"

lemma dict_get_set: "dict_get (dict_set d k v) = (dict_get d)(k \<mapsto> v)"
  by (simp add: dict_get_def [abs_def])

lemma list_at_set: "list_at (dict_set g (PStr k) (PList xs)) = (list_at g)(k := xs)"
  by (auto simp: list_at_def dict_get_set fun_eq_iff)

lemma absent_set:
  "is_list_or_absent (dict_set g (PStr k) (PList xs)) j \<longleftrightarrow> j = k \<or> is_list_or_absent g j"
  by (auto simp: is_list_or_absent_def dict_get_set)

lemma list_at_get:
  "is_list_or_absent g k \<Longrightarrow> (case dict_get g (PStr k) of None \<Rightarrow> PList [] | Some h \<Rightarrow> h) = PList (list_at g k)"
  by (auto simp: is_list_or_absent_def list_at_def split: option.splits)

lemma hostvars_of_Inr:
  "hostvars_of d = Inr vars \<longleftrightarrow> (\<exists>m. dict_get d (PStr ''_meta'') = Some (PDict m) \<and>
     dict_get m (PStr ''hostvars'') = Some (PDict vars))"
proof (cases "dict_get d (PStr ''_meta'')")
  case None
  then show ?thesis by (simp add: hostvars_of_def dict_index_def dict_get_def)
next
  case (Some meta)
  then have "hostvars_of d = bind_res (py_key meta ''hostvars'') (\<lambda>hv. case hv of PDict vars \<Rightarrow> Inr vars | _ \<Rightarrow> Inl TypeError)"
    by (simp add: hostvars_of_def dict_index_def dict_get_def)
  with Some show ?thesis
    by (cases meta; cases "map_of (case meta of PDict m \<Rightarrow> m) (PStr ''hostvars'')")
      (simp_all add: py_key_def py_item_def dict_index_def dict_get_def split: pyval.splits)
qed

lemma hostvars_of_set:
  assumes "hostvars_of d = Inr vars" and "k = PStr ''_meta'' \<Longrightarrow>
    \<exists>m m'. dict_get d k = Some (PDict m) \<and> g = PDict m' \<and>
      dict_get m' (PStr ''hostvars'') = dict_get m (PStr ''hostvars'')"
  shows "hostvars_of (dict_set d k g) = Inr vars"
  using assms by (cases "k = PStr ''_meta''") (auto simp: hostvars_of_Inr dict_get_set)

lemma good_meta:
  "good_inventory d \<Longrightarrow> \<exists>m vars. dict_get d (PStr ''_meta'') = Some (PDict m) \<and>
     dict_get m (PStr ''hostvars'') = Some (PDict vars) \<and> hostvars_of d = Inr vars"
  by (auto simp: good_inventory_def hostvars_of_Inr)

lemma push_dict_refines:
  assumes good: "good_inventory d"
  shows "\<exists>d'. push_dict d k e = Inr d' \<and> good_inventory d' \<and>
    hosts_in d' = (hosts_in d)(k := hosts_in d k @ [e]) \<and> children_in d' = children_in d \<and>
    hostvars_of d' = hostvars_of d \<and> dom (dict_get d') = insert k (dom (dict_get d))"
proof -
  obtain m vars where meta: "dict_get d (PStr ''_meta'') = Some (PDict m)"
    "dict_get m (PStr ''hostvars'') = Some (PDict vars)" "hostvars_of d = Inr vars"
    using good_meta [OF good] by blast
  define v where "v = (case dict_get d k of None \<Rightarrow> PList [] | Some g \<Rightarrow> g)"
  have gv: "good_group v" using good by (auto simp: v_def good_inventory_def good_group_def split: option.splits)
  have hk: "group_hosts v = hosts_in d k" and ck: "group_children v = children_in d k"
    by (auto simp: v_def hosts_in_def children_in_def group_hosts_def group_children_def split: option.splits)
  define v' where "v' = (case v of PDict g \<Rightarrow> PDict (dict_set g (PStr ''hosts'') (PList (list_at g ''hosts'' @ [e])))
    | _ \<Rightarrow> PList (group_hosts v @ [e]))"
  have "push_dict d k e = Inr (dict_set d k v')"
    using gv list_at_get by (auto simp: push_dict_def v_def [symmetric] v'_def good_group_def group_hosts_def
        split: pyval.splits)
  moreover have g': "good_group v'" "group_hosts v' = hosts_in d k @ [e]" "group_children v' = children_in d k"
    using gv by (auto simp: v'_def hk [symmetric] ck [symmetric] good_group_def group_hosts_def
        group_children_def list_at_set absent_set split: pyval.splits)
  moreover have hv: "hostvars_of (dict_set d k v') = Inr vars"
    using meta by (intro hostvars_of_set) (auto simp: v_def v'_def dict_get_set)
  moreover have "good_inventory (dict_set d k v')"
    using good g'(1) hv by (auto simp: good_inventory_def dict_get_set)
  moreover have "hosts_in (dict_set d k v') = (hosts_in d)(k := hosts_in d k @ [e])"
    "children_in (dict_set d k v') = children_in d"
    using g'(2,3) by (auto simp: hosts_in_def children_in_def dict_get_set fun_eq_iff)
  ultimately show ?thesis using meta(3) by (auto simp: dict_get_set)
qed

lemma push_group_dict_refines:
  assumes good: "good_inventory d"
  shows "\<exists>d'. push_group_dict d k e = Inr d' \<and> good_inventory d' \<and> hosts_in d' = hosts_in d \<and>
    children_in d' = (children_in d)(k := if e \<in> set (children_in d k) then children_in d k else children_in d k @ [e]) \<and>
    hostvars_of d' = hostvars_of d \<and> dom (dict_get d') = insert k (dom (dict_get d))"
proof -
  obtain m vars where meta: "dict_get d (PStr ''_meta'') = Some (PDict m)"
    "dict_get m (PStr ''hostvars'') = Some (PDict vars)" "hostvars_of d = Inr vars"
    using good_meta [OF good] by blast
  define v where "v = (case dict_get d k of None \<Rightarrow> PDict [] | Some g \<Rightarrow> g)"
  have gv: "good_group v" using good
    by (auto simp: v_def good_inventory_def good_group_def is_list_or_absent_def dict_get_def split: option.splits)
  have hk: "group_hosts v = hosts_in d k" and ck: "group_children v = children_in d k"
    by (auto simp: v_def hosts_in_def children_in_def group_hosts_def group_children_def list_at_def
        dict_get_def split: option.splits)
  define g where "g = (case v of PDict g \<Rightarrow> g | _ \<Rightarrow> [(PStr ''hosts'', v)])"
  have g: "is_list_or_absent g ''hosts''" "is_list_or_absent g ''children''"
    "list_at g ''hosts'' = hosts_in d k" "list_at g ''children'' = children_in d k"
    using gv by (auto simp: g_def hk [symmetric] ck [symmetric] good_group_def group_hosts_def
        group_children_def is_list_or_absent_def list_at_def dict_get_def split: pyval.splits)
  define cs where "cs = (if e \<in> set (children_in d k) then children_in d k else children_in d k @ [e])"
  define v' where "v' = PDict (dict_set g (PStr ''children'') (PList cs))"
  have "push_group_dict d k e = Inr (dict_set d k v')"
    unfolding push_group_dict_def v_def [symmetric] g_def [symmetric] Let_def list_at_get [OF g(2)]
    by (simp add: g(4) v'_def cs_def)
  moreover have g': "good_group v'" "group_hosts v' = hosts_in d k" "group_children v' = cs"
    using g by (simp_all add: v'_def good_group_def group_hosts_def group_children_def list_at_set absent_set)
  moreover have hv: "hostvars_of (dict_set d k v') = Inr vars"
    using meta by (intro hostvars_of_set) (auto simp: v_def v'_def g_def dict_get_set)
  moreover have "good_inventory (dict_set d k v')"
    using good g'(1) hv by (auto simp: good_inventory_def dict_get_set)
  moreover have "hosts_in (dict_set d k v') = hosts_in d"
    "children_in (dict_set d k v') = (children_in d)(k := cs)"
    using g'(2,3) by (auto simp: hosts_in_def children_in_def dict_get_set fun_eq_iff)
  ultimately show ?thesis using meta(3) by (auto simp: cs_def dict_get_set)
qed

section \<open>The interface of a group store\<close>

text \<open>
  What the grouping steps rely on: pushing a host appends it to one group and changes nothing else,
  nesting adds a child to one group once and changes nothing else.
\<close>

locale group_store =
  fixes push_host :: "'d \<Rightarrow> 'k \<Rightarrow> 'h \<Rightarrow> 'd res"
    and nest :: "'d \<Rightarrow> 'k \<Rightarrow> 'k \<Rightarrow> 'd res"
    and hosts :: "'d \<Rightarrow> 'k \<Rightarrow> 'h list"
    and children :: "'d \<Rightarrow> 'k \<Rightarrow> 'k list"
    and groups :: "'d \<Rightarrow> 'k set"
    and valid :: "'d \<Rightarrow> bool"
  assumes push_law: "valid d \<Longrightarrow> \<exists>d'. push_host d k h = Inr d' \<and> valid d' \<and>
      hosts d' = (hosts d)(k := hosts d k @ [h]) \<and> children d' = children d \<and> groups d' = insert k (groups d)"
    and nest_law: "valid d \<Longrightarrow> \<exists>d'. nest d k c = Inr d' \<and> valid d' \<and> hosts d' = hosts d \<and>
      children d' = (children d)(k := if c \<in> set (children d k) then children d k else children d k @ [c]) \<and>
      groups d' = insert k (groups d)"
begin

text \<open>Every child is a group of the store, and hosts are only added, outside the keys of \<open>K\<close>.\<close>

definition closed :: "'d \<Rightarrow> bool" where
  "closed d \<longleftrightarrow> (\<forall>k. set (children d k) \<subseteq> groups d)"

definition grown :: "bool \<Rightarrow> 'k set \<Rightarrow> ('k \<Rightarrow> 'h list) \<Rightarrow> 'k set \<Rightarrow> 'd \<Rightarrow> bool" where
  "grown cl K h0 X d \<longleftrightarrow> valid d \<and> (cl \<longrightarrow> closed d) \<and> X \<subseteq> groups d \<and>
     (\<forall>k. k \<notin> K \<longrightarrow> (\<exists>hs. hosts d k = h0 k @ hs))"

lemma grown_weaken: "grown cl K h0 X d \<Longrightarrow> Y \<subseteq> X \<Longrightarrow> grown cl K h0 Y d"
  by (auto simp: grown_def)

lemma push_grows:
  assumes "grown cl K h0 X d"
  shows "\<exists>d'. push_host d k h = Inr d' \<and> grown cl K h0 (insert k X) d' \<and> h \<in> set (hosts d' k)"
proof -
  from assms push_law [of d k h] obtain d' where "push_host d k h = Inr d'" "valid d'"
    "hosts d' = (hosts d)(k := hosts d k @ [h])" "children d' = children d" "groups d' = insert k (groups d)"
    by (auto simp: grown_def)
  moreover from this assms have "grown cl K h0 (insert k X) d'"
    by (fastforce simp: grown_def closed_def)
  ultimately show ?thesis by auto
qed

lemma nest_grows:
  assumes "grown cl K h0 X d" and "cl \<Longrightarrow> c \<in> X"
  shows "\<exists>d'. nest d k c = Inr d' \<and> grown cl K h0 (insert k X) d' \<and> c \<in> set (children d' k)"
proof -
  from assms(1) nest_law [of d k c] obtain d' where d': "nest d k c = Inr d'" "valid d'" "hosts d' = hosts d"
    "children d' = (children d)(k := if c \<in> set (children d k) then children d k else children d k @ [c])"
    "groups d' = insert k (groups d)" by (auto simp: grown_def)
  have "closed d'" if cl
    using that assms d'(4,5) by (fastforce simp: grown_def closed_def)
  then have "grown cl K h0 (insert k X) d'" using assms(1) d' by (auto simp: grown_def)
  with d' show ?thesis by auto
qed

text \<open>Nesting \<open>c\<close> under \<open>p\<close> before \<open>c\<close> itself exists, and then \<open>k\<close> under \<open>c\<close>.\<close>

lemma nest_chain_grows:
  assumes "grown cl K h0 X d" and "k \<in> X"
  shows "\<exists>d1 d2. nest d p c = Inr d1 \<and> nest d1 c k = Inr d2 \<and> grown cl K h0 (insert c (insert p X)) d2"
proof -
  from assms(1) nest_law [of d p c] obtain d1 where 1: "nest d p c = Inr d1" "valid d1" "hosts d1 = hosts d"
    "children d1 = (children d)(p := if c \<in> set (children d p) then children d p else children d p @ [c])"
    "groups d1 = insert p (groups d)" by (auto simp: grown_def)
  from nest_law [OF 1(2), of c k] obtain d2 where 2: "nest d1 c k = Inr d2" "valid d2" "hosts d2 = hosts d1"
    "children d2 = (children d1)(c := if k \<in> set (children d1 c) then children d1 c else children d1 c @ [k])"
    "groups d2 = insert c (groups d1)" by blast
  have "closed d2" if cl
    using that assms 1(4,5) 2(4,5) by (auto simp: grown_def closed_def split: if_splits)
  then have "grown cl K h0 (insert c (insert p X)) d2" using assms(1) 1 2 by (auto simp: grown_def)
  with 1 2 show ?thesis by blast
qed

end

interpretation inv: group_store push_dict push_group_dict hosts_in children_in "\<lambda>d. dom (dict_get d)" good_inventory
proof
  show "good_inventory d \<Longrightarrow> \<exists>d'. push_dict d k h = Inr d' \<and> good_inventory d' \<and>
      hosts_in d' = (hosts_in d)(k := hosts_in d k @ [h]) \<and> children_in d' = children_in d \<and>
      dom (dict_get d') = insert k (dom (dict_get d))" for d k h
    using push_dict_refines [of d k h] by blast
  show "good_inventory d \<Longrightarrow> \<exists>d'. push_group_dict d k c = Inr d' \<and> good_inventory d' \<and>
      hosts_in d' = hosts_in d \<and> children_in d' = (children_in d)
        (k := if c \<in> set (children_in d k) then children_in d k else children_in d k @ [c]) \<and>
      dom (dict_get d') = insert k (dom (dict_get d))" for d k c
    using push_group_dict_refines [of d k c] by blast
qed

section \<open>Properties\<close>

lemma good_empty: "good_inventory empty_inventory"
  by (auto simp: good_inventory_def empty_inventory_def dict_get_def good_group_def
      is_list_or_absent_def hostvars_of_Inr)

text \<open>
  C23. \<open>push\<close> and \<open>push_group\<close> implement groups with hosts and children.  On a well-formed inventory
  neither raises; \<open>push\<close> appends the host to its group and changes no other group, no children and no host
  variables, \<open>push_group\<close> adds the child once and changes no hosts, also when it turns the group from a
  list into a dictionary; both keep the inventory well-formed.
\<close>

theorem push_implements_groups:
  assumes "good_inventory d"
  shows "(\<exists>d'. push_dict d k h = Inr d' \<and> good_inventory d' \<and> hostvars_of d' = hostvars_of d \<and>
      hosts_in d' = (hosts_in d)(k := hosts_in d k @ [h]) \<and> children_in d' = children_in d) \<and>
    (\<exists>d'. push_group_dict d k c = Inr d' \<and> good_inventory d' \<and> hostvars_of d' = hostvars_of d \<and>
      hosts_in d' = hosts_in d \<and> children_in d' = (children_in d)
        (k := if c \<in> set (children_in d k) then children_in d k else children_in d k @ [c]))"
  using push_dict_refines [OF assms, of k h] push_group_dict_refines [OF assms, of k c] by blast

theorem push_implements_groups_witness:
  "\<exists>d1 d2. push_dict empty_inventory (PStr ''ec2'') (PStr ''a'') = Inr d1 \<and>
     push_group_dict d1 (PStr ''ec2'') (PStr ''b'') = Inr d2 \<and> hosts_in d2 (PStr ''ec2'') = [PStr ''a''] \<and>
     children_in d2 (PStr ''ec2'') = [PStr ''b'']"
proof -
  from push_implements_groups [OF good_empty, of "PStr ''ec2''" "PStr ''a''"] obtain d1 where
    d1: "push_dict empty_inventory (PStr ''ec2'') (PStr ''a'') = Inr d1" "good_inventory d1"
    "hosts_in d1 = (hosts_in empty_inventory)(PStr ''ec2'' := hosts_in empty_inventory (PStr ''ec2'') @ [PStr ''a''])"
    "children_in d1 = children_in empty_inventory" by blast
  have none: "hosts_in empty_inventory (PStr ''ec2'') = []" "children_in empty_inventory (PStr ''ec2'') = []"
    by (simp_all add: hosts_in_def children_in_def empty_inventory_def dict_get_def)
  from push_implements_groups [OF d1(2), of "PStr ''ec2''" "PStr ''a''" "PStr ''b''"] d1 none show ?thesis by auto
qed

end
