(* ===== verification/HostInfo.thy ===== *)
theory HostInfo
  imports Inventory
begin

text \<open>
  The host variables of ops/ansible/ec2.py: \<open>get_host_info_dict_from_instance\<close> flattens a boto object,
  \<open>get_host_info_dict_from_describe_dict\<close> the dictionary of a describe call.
\<close>

type_synonym host_vars = "(pyval, pyval) dict"

definition put :: "host_vars \<Rightarrow> string \<Rightarrow> pyval \<Rightarrow> host_vars" where
  "put d k v = dict_set d (PStr k) v"

text \<open>\<open>v or ''\<close>, \<open>','.join([str(i) for i in xs])\<close>, \<open>os.path.basename(k)\<close>\<close>

definition or_empty :: "pyval \<Rightarrow> pyval" where
  "or_empty v = (if truthy v then v else PStr [])"

definition join_ids :: "pyval list \<Rightarrow> pyval res" where
  "join_ids xs = bind_res (map_res py_str xs) (\<lambda>ss. Inr (PStr (py_join '','' ss)))"

definition basename :: "string \<Rightarrow> string" where
  "basename k = rev (takeWhile (\<lambda>c. c \<noteq> CHR ''/'') (rev k))"

text \<open>
  \<open>',' in v\<close> and then the stripped parts of \<open>v.split(',')\<close>, \<open>None\<close> without a comma.  The test also
  works on lists and dictionaries; only strings have \<open>split\<close>.
\<close>

definition csv_parts :: "string \<Rightarrow> string list" where
  "csv_parts v = map py_strip (py_split CHR '','' v)"

definition has_comma :: "pyval \<Rightarrow> bool res" where
  "has_comma v = (case v of
     PStr s \<Rightarrow> Inr (CHR '','' \<in> set s)
   | PList xs \<Rightarrow> Inr (PStr '','' \<in> set xs)
   | PDict d \<Rightarrow> Inr (dict_get d (PStr '','') \<noteq> None)
   | _ \<Rightarrow> Inl TypeError)"

definition py_csv_parts :: "pyval \<Rightarrow> string list option res" where
  "py_csv_parts v =
     bind_res (has_comma v) (\<lambda>comma.
       if comma then bind_res (py_string AttributeError v) (\<lambda>s. Inr (Some (csv_parts s))) else Inr None)"

section \<open>From a boto object\<close>

definition tag_var :: "settings \<Rightarrow> pyval \<times> pyval \<Rightarrow> host_vars \<Rightarrow> host_vars res" where
  "tag_var st kv d =
     bind_res (if st_expand_csv_tags st
               then bind_res (py_csv_parts (snd kv)) (\<lambda>parts.
                 Inr (case parts of None \<Rightarrow> snd kv | Some ps \<Rightarrow> PList (map PStr ps)))
               else Inr (snd kv)) (\<lambda>v.
     bind_res (py_add ''ec2_tag_'' (fst kv)) (\<lambda>k.
       Inr (put d (to_safe (st_replace_dash_in_groups st) k) v)))"

definition security_groups_vars :: "pyval \<Rightarrow> host_vars \<Rightarrow> host_vars res" where
  "security_groups_vars groups d =
     bind_res (py_elements groups) (\<lambda>gs.
     bind_res (map_res (\<lambda>g. py_getattr g ''id'') gs) (\<lambda>ids.
     bind_res (map_res (\<lambda>g. py_getattr g ''name'') gs) (\<lambda>names.
     bind_res (join_ids ids) (\<lambda>i.
     bind_res (join_ids names) (\<lambda>n.
       Inr (put (put d ''ec2_security_group_ids'' i) ''ec2_security_group_names'' n))))))"

definition block_device_vars :: "pyval \<Rightarrow> host_vars \<Rightarrow> host_vars res" where
  "block_device_vars mapping d =
     bind_res (py_items mapping) (\<lambda>kvs.
     bind_res (fold_res (\<lambda>kv devs.
         bind_res (py_string TypeError (fst kv)) (\<lambda>k.
         bind_res (py_getattr (snd kv) ''volume_id'') (\<lambda>vol.
           Inr (put devs (basename k) vol)))) [] kvs) (\<lambda>devs.
       Inr (put d ''ec2_block_devices'' (PDict devs))))"

definition instance_var :: "settings \<Rightarrow> pyval \<Rightarrow> string \<times> pyval \<Rightarrow> host_vars \<Rightarrow> host_vars res" where
  "instance_var st inst kv d =
     (let key = to_safe (st_replace_dash_in_groups st) (''ec2_'' @ fst kv); v = snd kv in
      if key = ''ec2__state'' then
        bind_res (py_getattr inst ''state'') (\<lambda>s.
        bind_res (py_getattr inst ''state_code'') (\<lambda>c.
          Inr (put (put d ''ec2_state'' (or_empty s)) ''ec2_state_code'' c)))
      else if key = ''ec2__previous_state'' then
        bind_res (py_getattr inst ''previous_state'') (\<lambda>s.
        bind_res (py_getattr inst ''previous_state_code'') (\<lambda>c.
          Inr (put (put d ''ec2_previous_state'' (or_empty s)) ''ec2_previous_state_code'' c)))
      else (case v of
        PInt i \<Rightarrow> Inr (put d key v)
      | PBool b \<Rightarrow> Inr (put d key v)
      | PStr s \<Rightarrow> Inr (put d key (PStr (py_strip s)))
      | PNone \<Rightarrow> Inr (put d key (PStr []))
      | _ \<Rightarrow>
          if key = ''ec2_region'' then bind_res (py_getattr v ''name'') (\<lambda>n. Inr (put d key n))
          else if key = ''ec2__placement'' then bind_res (py_getattr v ''zone'') (\<lambda>z. Inr (put d ''ec2_placement'' z))
          else if key = ''ec2_tags'' then bind_res (py_items v) (fold_res (tag_var st) d)
          else if key = ''ec2_groups'' then security_groups_vars v d
          else if key = ''ec2_block_device_mapping'' then block_device_vars v d
          else Inr d))"

definition instance_attrs :: "pyval \<Rightarrow> (string \<times> pyval) list res" where
  "instance_attrs inst = (case inst of PObj attrs props \<Rightarrow> Inr attrs | _ \<Rightarrow> Inl TypeError)"

definition get_host_info_dict_from_instance :: "settings \<Rightarrow> pyval \<Rightarrow> pyval \<Rightarrow> host_vars res" where
  "get_host_info_dict_from_instance st account inst =
     bind_res (instance_attrs inst) (\<lambda>attrs.
     bind_res (fold_res (instance_var st inst) [] attrs) (\<lambda>d.
       Inr (put d (to_safe (st_replace_dash_in_groups st) ''ec2_account_id'') account)))"

section \<open>From a describe dictionary\<close>

definition endpoint_vars :: "string \<Rightarrow> pyval \<Rightarrow> host_vars \<Rightarrow> host_vars res" where
  "endpoint_vars pre v d =
     bind_res (py_key v ''Address'') (\<lambda>a.
     bind_res (py_key v ''Port'') (\<lambda>p.
       Inr (put (put d (pre @ ''_address'') a) (pre @ ''_port'') p)))"

text \<open>The replication group's members: the counter numbers the replicas.\<close>

definition member_vars :: "pyval \<Rightarrow> host_vars \<times> nat \<Rightarrow> (host_vars \<times> nat) res" where
  "member_vars node dn =
     bind_res (py_key node ''CurrentRole'') (\<lambda>role.
     let d = fst dn; n = snd dn in
     if role = PStr ''primary'' then
       bind_res (py_key node ''ReadEndpoint'') (\<lambda>ep.
       bind_res (endpoint_vars ''ec2_primary_cluster'' ep d) (\<lambda>d.
       bind_res (py_key node ''CacheClusterId'') (\<lambda>i.
         Inr (put d ''ec2_primary_cluster_id'' i, n))))
     else if role = PStr ''replica'' then
       bind_res (py_key node ''ReadEndpoint'') (\<lambda>ep.
       bind_res (py_key ep ''Address'') (\<lambda>a.
       bind_res (py_key ep ''Port'') (\<lambda>p.
       bind_res (py_key node ''CacheClusterId'') (\<lambda>i.
         Inr (put (put (put d (''ec2_replica_cluster_address_'' @ nat_to_dec n) a)
            (''ec2_replica_cluster_port_'' @ nat_to_dec n) p)
            (''ec2_replica_cluster_id_'' @ nat_to_dec n) i, n + 1)))))
     else Inr (d, n))"

definition node_groups_vars :: "pyval \<Rightarrow> host_vars \<Rightarrow> host_vars res" where
  "node_groups_vars v d =
     bind_res (py_item v (PInt 0)) (\<lambda>g.
     bind_res (py_key g ''PrimaryEndpoint'') (\<lambda>ep.
     bind_res (endpoint_vars ''ec2_endpoint'' ep d) (\<lambda>d.
     bind_res (py_key g ''NodeGroupMembers'') (\<lambda>ms.
     bind_res (py_elements ms) (\<lambda>nodes.
     bind_res (fold_res member_vars (d, 0) nodes) (\<lambda>dn. Inr (fst dn)))))))"

definition parameter_group_vars :: "pyval \<Rightarrow> host_vars \<Rightarrow> host_vars res" where
  "parameter_group_vars v d =
     bind_res (py_key v ''CacheNodeIdsToReboot'') (\<lambda>ids.
     bind_res (py_elements ids) (\<lambda>xs.
     bind_res (join_ids xs) (\<lambda>i.
     bind_res (py_key v ''CacheParameterGroupName'') (\<lambda>n.
     bind_res (py_key v ''ParameterApplyStatus'') (\<lambda>s.
       Inr (put (put (put d ''ec2_cache_node_ids_to_reboot'' i) ''ec2_cache_parameter_group_name'' n)
         ''ec2_cache_parameter_apply_status'' s))))))"

definition describe_var :: "settings \<Rightarrow> pyval \<times> pyval \<Rightarrow> host_vars \<Rightarrow> host_vars res" where
  "describe_var st kv d =
     bind_res (py_string TypeError (fst kv)) (\<lambda>k.
     let key = to_safe (st_replace_dash_in_groups st) (''ec2_'' @ uncammelize k); v = snd kv in
     bind_res (if key = ''ec2_configuration_endpoint'' \<and> truthy v
               then endpoint_vars ''ec2_configuration_endpoint'' v d else Inr d) (\<lambda>d.
     bind_res (if key = ''ec2_endpoint'' \<and> truthy v then endpoint_vars ''ec2_endpoint'' v d else Inr d) (\<lambda>d.
     bind_res (if key = ''ec2_node_groups'' \<and> truthy v then node_groups_vars v d else Inr d) (\<lambda>d.
       if key = ''ec2_member_clusters'' \<and> truthy v then
         bind_res (py_elements v) (\<lambda>xs. bind_res (join_ids xs) (\<lambda>i. Inr (put d ''ec2_member_clusters'' i)))
       else if key = ''ec2_cache_parameter_group'' then parameter_group_vars v d
       else if key = ''ec2_security_groups'' then
         (if v = PNone then Inr d
          else bind_res (py_elements v) (\<lambda>gs.
               bind_res (map_res (\<lambda>g. py_key g ''SecurityGroupId'') gs) (\<lambda>ids.
               bind_res (join_ids ids) (\<lambda>i. Inr (put d ''ec2_security_group_ids'' i)))))
       else (case v of
         PInt i \<Rightarrow> Inr (put d key v)
       | PBool b \<Rightarrow> Inr (put d key v)
       | PStr s \<Rightarrow> Inr (put d key (PStr (py_strip s)))
       | PNone \<Rightarrow> Inr (put d key (PStr []))
       | _ \<Rightarrow> Inr d)))))"

definition get_host_info_dict_from_describe_dict :: "settings \<Rightarrow> pyval \<Rightarrow> host_vars res" where
  "get_host_info_dict_from_describe_dict st describe_dict =
     bind_res (case describe_dict of PDict kvs \<Rightarrow> Inr kvs | _ \<Rightarrow> Inl TypeError)
       (fold_res (describe_var st) [])"

end
