(* ===== verification/Ec2Instance.thy ===== *)
theory Ec2Instance
  imports HostInfo
begin

text \<open>
  \<open>add_instance\<close> of ops/ansible/ec2.py: the destination address, the host name, the filters on it, and
  every grouping step in the order of the code.
\<close>

section \<open>Address and name\<close>

definition truthy_opt :: "string option \<Rightarrow> bool" where
  "truthy_opt v = (case v of None \<Rightarrow> False | Some s \<Rightarrow> s \<noteq> [])"

definition dest_var :: "pyval \<Rightarrow> pyval \<Rightarrow> string \<Rightarrow> pyval res" where
  "dest_var inst tags tag =
     bind_res (py_has_key tags tag) (\<lambda>tagged.
       if tagged then py_key tags tag
       else Inr (case attr_of inst tag of Some v \<Rightarrow> v | None \<Rightarrow> PStr ''nil''))"

definition dest_attr :: "pyval \<Rightarrow> string \<Rightarrow> pyval res" where
  "dest_attr inst var =
     (let d = getattr_or_none inst var in
      if d = PNone then bind_res (py_getattr inst ''tags'') (\<lambda>tags. py_get tags var) else Inr d)"

definition instance_dest :: "settings \<Rightarrow> pyval \<Rightarrow> pyval res" where
  "instance_dest st inst =
     (case (st_destination_format st, st_destination_format_tags st) of
        (Some fmt, t # ts) \<Rightarrow>
          bind_res (py_getattr inst ''tags'') (\<lambda>tags.
          bind_res (map_res (dest_var inst tags) (t # ts)) (\<lambda>vars. map_sum id PStr (fmt vars)))
      | _ \<Rightarrow>
          bind_res (py_getattr inst ''subnet_id'') (\<lambda>subnet.
            dest_attr inst (if truthy subnet then st_vpc_destination_variable st else st_destination_variable st)))"

definition hostname_from_variable :: "settings \<Rightarrow> pyval \<Rightarrow> pyval res" where
  "hostname_from_variable st inst =
     (case st_hostname_variable st of
        None \<Rightarrow> Inr PNone
      | Some v \<Rightarrow>
          if v = [] then Inr PNone
          else if py_startswith v ''tag_'' then
            bind_res (py_getattr inst ''tags'') (\<lambda>tags. py_get tags (drop 4 v))
          else py_getattr inst v)"

text \<open>\<open>get_instance_route53_names\<close>: the names recorded for any address of the instance.\<close>

definition instance_attributes :: "string list" where
  "instance_attributes = [''public_dns_name'', ''private_dns_name'', ''ip_address'', ''private_ip_address'']"

definition route53_names_of :: "(pyval, string set) dict \<Rightarrow> pyval \<Rightarrow> string set" where
  "route53_names_of records inst =
     (\<Union>a \<in> set instance_attributes.
        case attr_of inst a of None \<Rightarrow> {} | Some v \<Rightarrow> (case dict_get records v of None \<Rightarrow> {} | Some ns \<Rightarrow> ns))"

definition get_instance_route53_names :: "settings \<Rightarrow> pyval \<Rightarrow> (ec2_state, string list) py" where
  "get_instance_route53_names st inst =
     py_bind (py_gets ei_route53_records) (\<lambda>records.
       case records of
         None \<Rightarrow> if list_ex (\<lambda>a. attr_of inst a \<noteq> None) instance_attributes then py_raise AttributeError
                 else py_return (st_set_order st {})
       | Some r \<Rightarrow> py_return (st_set_order st (route53_names_of r inst)))"

definition route53_hostname :: "settings \<Rightarrow> pyval \<Rightarrow> pyval \<Rightarrow> (ec2_state, pyval) py" where
  "route53_hostname st inst hostname =
     (if st_route53_enabled st \<and> truthy_opt (st_route53_hostnames st)
      then py_bind (get_instance_route53_names st inst) (\<lambda>names.
        py_return (foldl (\<lambda>h name. if py_endswith name (the (st_route53_hostnames st)) then PStr name else h)
          hostname names))
      else py_return hostname)"

text \<open>The name under which the host is registered.\<close>

definition final_hostname :: "settings \<Rightarrow> pyval \<Rightarrow> pyval \<Rightarrow> pyval res" where
  "final_hostname st hostname dest =
     (if \<not> truthy hostname then Inr dest
      else if st_route53_enabled st \<and> truthy_opt (st_route53_hostnames st) then
        bind_res (py_string AttributeError hostname) (\<lambda>h.
          Inr (PStr (py_lower (if py_endswith h (the (st_route53_hostnames st)) then h
                               else to_safe (st_replace_dash_in_groups st) h))))
      else bind_res (py_string TypeError hostname) (\<lambda>h.
          Inr (PStr (py_lower (to_safe (st_replace_dash_in_groups st) h)))))"

definition pattern_rejects :: "settings \<Rightarrow> pyval \<Rightarrow> bool res" where
  "pattern_rejects st hostname =
     bind_res (case st_pattern_include st of
         None \<Rightarrow> Inr False
       | Some p \<Rightarrow> bind_res (py_string TypeError hostname) (\<lambda>h. Inr (\<not> p h))) (\<lambda>out.
     if out then Inr True
     else (case st_pattern_exclude st of
         None \<Rightarrow> Inr False
       | Some p \<Rightarrow> bind_res (py_string TypeError hostname) (\<lambda>h. Inr (p h))))"

section \<open>Grouping\<close>

definition attr :: "pyval \<Rightarrow> string \<Rightarrow> pyval res" where
  "attr inst name = py_getattr inst name"

text \<open>The groups of \<open>add_instance\<close> that are named by one attribute.\<close>

definition group_by_ami :: "settings \<Rightarrow> pyval \<Rightarrow> pyval \<Rightarrow> ec2" where
  "group_by_ami st inst = group_named st ''group_by_ami_id'' ''images'' [] (attr inst ''image_id'')"

definition group_by_type :: "settings \<Rightarrow> pyval res \<Rightarrow> pyval \<Rightarrow> ec2" where
  "group_by_type st t = group_named st ''group_by_instance_type'' ''types'' ''type_'' t"

definition group_by_state :: "settings \<Rightarrow> pyval \<Rightarrow> pyval \<Rightarrow> ec2" where
  "group_by_state st inst =
     group_named st ''group_by_instance_state'' ''instance_states'' ''instance_state_'' (attr inst ''state'')"

definition group_by_platform :: "settings \<Rightarrow> pyval \<Rightarrow> pyval \<Rightarrow> ec2" where
  "group_by_platform st inst =
     group_named st ''group_by_platform'' ''platforms'' ''platform_''
       (bind_res (attr inst ''platform'') (\<lambda>p. Inr (if truthy p then p else PStr ''undefined'')))"

text \<open>Grouping by an attribute that may be empty: nothing happens when it is.\<close>

definition group_if_set :: "settings \<Rightarrow> string \<Rightarrow> string \<Rightarrow> string \<Rightarrow> pyval res \<Rightarrow> pyval \<Rightarrow> ec2" where
  "group_if_set st option parent pre r hostname =
     py_when (st_group_by st option)
       (py_bind (py_lift r) (\<lambda>v. py_when (truthy v) (group_named st option parent pre (Inr v) hostname)))"

definition old_boto_message :: string where
  "old_boto_message = ''Package boto seems a bit older.'' @ [CHR 10] @ ''Please upgrade boto >= 2.3.0.''"

definition is_attribute_error :: "py_exn \<Rightarrow> bool" where
  "is_attribute_error e \<longleftrightarrow> e = AttributeError"

definition group_by_security_groups :: "settings \<Rightarrow> pyval \<Rightarrow> pyval \<Rightarrow> ec2" where
  "group_by_security_groups st inst hostname =
     py_when (st_group_by st ''group_by_security_group'')
       (py_except
         (py_bind (py_lift (bind_res (attr inst ''groups'') py_elements)) (\<lambda>groups.
            py_for groups (\<lambda>g.
              py_bind (py_lift (safe_key st ''security_group_'' (attr g ''name''))) (\<lambda>key.
                group_host st ''security_groups'' key hostname))))
         is_attribute_error (\<lambda>_. fail_with_error old_boto_message None))"

definition group_by_account :: "settings \<Rightarrow> pyval \<Rightarrow> ec2" where
  "group_by_account st hostname =
     py_when (st_group_by st ''group_by_aws_account'')
       (py_bind (py_gets ei_aws_account_id) (\<lambda>a. group_host st ''accounts'' a hostname))"

text \<open>One tag, with its value split at commas when that is asked for.\<close>

definition tag_values :: "settings \<Rightarrow> pyval \<Rightarrow> pyval list res" where
  "tag_values st v =
     (if st_expand_csv_tags st \<and> truthy v then
        bind_res (py_csv_parts v) (\<lambda>parts.
          Inr (case parts of None \<Rightarrow> [v] | Some ps \<Rightarrow> map PStr ps))
      else Inr [v])"

definition group_by_tag_value :: "settings \<Rightarrow> string \<Rightarrow> pyval \<Rightarrow> pyval \<Rightarrow> ec2" where
  "group_by_tag_value st k hostname v =
     (let safe = (\<lambda>w. PStr (to_safe (st_replace_dash_in_groups st) w)) in
      py_bind (py_lift (if truthy v then bind_res (py_add (''tag_'' @ k @ ''='') v) (\<lambda>w. Inr (safe w))
                        else Inr (safe (''tag_'' @ k)))) (\<lambda>key.
      py_block
        [push key hostname,
         py_when (st_nested_groups st) (py_block
           [push_group (PStr ''tags'') (safe (''tag_'' @ k)),
            py_when (truthy v) (push_group (safe (''tag_'' @ k)) key)])]))"

definition group_by_tags :: "settings \<Rightarrow> pyval \<Rightarrow> pyval \<Rightarrow> ec2" where
  "group_by_tags st inst hostname =
     py_when (st_group_by st ''group_by_tag_keys'')
       (py_bind (py_lift (bind_res (attr inst ''tags'') py_items)) (\<lambda>kvs.
          py_for kvs (\<lambda>kv.
            py_bind (py_lift (tag_values st (snd kv))) (\<lambda>vs.
            py_bind (py_lift (py_string TypeError (fst kv))) (\<lambda>k.
              py_for vs (group_by_tag_value st k hostname))))))"

definition group_by_route53 :: "settings \<Rightarrow> pyval \<Rightarrow> pyval \<Rightarrow> ec2" where
  "group_by_route53 st inst hostname =
     py_when (st_route53_enabled st \<and> st_group_by st ''group_by_route53_names'')
       (py_bind (get_instance_route53_names st inst) (\<lambda>names.
          py_for names (\<lambda>name. group_host st ''route53'' (PStr name) hostname)))"

definition group_untagged :: "settings \<Rightarrow> pyval \<Rightarrow> pyval \<Rightarrow> ec2" where
  "group_untagged st inst hostname =
     py_when (st_group_by st ''group_by_tag_none'')
       (py_bind (py_lift (bind_res (attr inst ''tags'') py_len)) (\<lambda>n.
          py_when (n = 0) (group_host st ''tags'' (PStr ''tag_none'') hostname)))"

text \<open>The last statements: the global group, and the variables with \<open>ansible_host\<close>.\<close>

definition publish_host :: "settings \<Rightarrow> string \<Rightarrow> pyval \<Rightarrow> pyval \<Rightarrow> pyval \<Rightarrow> ec2" where
  "publish_host st everyone inst hostname dest =
     py_block
       [push (PStr everyone) hostname,
        py_bind (py_gets ei_aws_account_id) (\<lambda>account.
        py_bind (py_lift (get_host_info_dict_from_instance st account inst)) (\<lambda>info.
          set_hostvars hostname (put info ''ansible_host'' dest)))]"

definition instance_groups :: "settings \<Rightarrow> pyval \<Rightarrow> string \<Rightarrow> pyval \<Rightarrow> pyval \<Rightarrow> ec2" where
  "instance_groups st inst region instance_id hostname =
     py_block
       [group_by_id st instance_id hostname,
        group_by_region st region hostname,
        group_by_zone st region (attr inst ''placement'') hostname,
        group_by_ami st inst hostname,
        group_by_type st (attr inst ''instance_type'') hostname,
        group_by_state st inst hostname,
        group_by_platform st inst hostname,
        group_if_set st ''group_by_key_pair'' ''keys'' ''key_'' (attr inst ''key_name'') hostname,
        group_if_set st ''group_by_vpc_id'' ''vpcs'' ''vpc_id_'' (attr inst ''vpc_id'') hostname,
        group_by_security_groups st inst hostname,
        group_by_account st hostname,
        group_by_tags st inst hostname,
        group_by_route53 st inst hostname,
        group_untagged st inst hostname]"

definition add_instance :: "settings \<Rightarrow> pyval \<Rightarrow> string \<Rightarrow> ec2" where
  "add_instance st inst region =
     py_bind (py_lift (attr inst ''state'')) (\<lambda>state.
     if state \<notin> PStr ` set (st_ec2_instance_states st) then py_return () else
     py_bind (py_lift (instance_dest st inst)) (\<lambda>dest.
     if \<not> truthy dest then py_return () else
     py_bind (py_lift (hostname_from_variable st inst)) (\<lambda>h0.
     py_bind (route53_hostname st inst h0) (\<lambda>h1.
     py_bind (py_lift (final_hostname st h1 dest)) (\<lambda>hostname.
     py_bind (py_lift (pattern_rejects st hostname)) (\<lambda>rejected.
     if rejected then py_return () else
     py_bind (py_lift (attr inst ''id'')) (\<lambda>instance_id.
     py_block
       [add_to_index hostname region instance_id,
        instance_groups st inst region instance_id hostname,
        publish_host st ''ec2'' inst hostname dest])))))))"

end
