(* ===== verification/Ec2Services.thy ===== *)
theory Ec2Services
  imports Ec2Instance
begin

text \<open>
  \<open>add_rds_instance\<close>, \<open>add_elasticache_cluster\<close>, \<open>add_elasticache_node\<close> and
  \<open>add_elasticache_replication_group\<close> of ops/ansible/ec2.py.  RDS instances are boto objects like EC2
  instances; the ElastiCache methods work on the dictionaries of the describe calls.
\<close>

section \<open>RDS\<close>

definition rds_hostname :: "settings \<Rightarrow> pyval \<Rightarrow> pyval \<Rightarrow> pyval res" where
  "rds_hostname st inst dest =
     bind_res (hostname_from_variable st inst) (\<lambda>h0.
     bind_res (py_string TypeError (if truthy h0 then h0 else dest)) (\<lambda>h.
       Inr (PStr (py_lower (to_safe (st_replace_dash_in_groups st) h)))))"

definition rds_group_by_vpc :: "settings \<Rightarrow> pyval \<Rightarrow> pyval \<Rightarrow> ec2" where
  "rds_group_by_vpc st inst hostname =
     py_when (st_group_by st ''group_by_vpc_id'')
       (py_bind (py_lift (attr inst ''subnet_group'')) (\<lambda>sg.
          py_when (truthy sg) (group_if_set st ''group_by_vpc_id'' ''vpcs'' ''vpc_id_'' (attr sg ''vpc_id'') hostname)))"

definition rds_group_by_security_group :: "settings \<Rightarrow> pyval \<Rightarrow> pyval \<Rightarrow> ec2" where
  "rds_group_by_security_group st inst hostname =
     py_when (st_group_by st ''group_by_security_group'')
       (py_except
         (py_bind (py_lift (attr inst ''security_group'')) (\<lambda>sg.
            py_when (truthy sg)
              (py_bind (py_lift (safe_key st ''security_group_'' (attr sg ''name''))) (\<lambda>key.
                 group_host st ''security_groups'' key hostname))))
         is_attribute_error (\<lambda>_. fail_with_error old_boto_message None))"

definition rds_groups :: "settings \<Rightarrow> pyval \<Rightarrow> string \<Rightarrow> pyval \<Rightarrow> pyval \<Rightarrow> ec2" where
  "rds_groups st inst region instance_id hostname =
     py_block
       [group_by_id st instance_id hostname,
        group_by_region st region hostname,
        group_by_zone st region (attr inst ''availability_zone'') hostname,
        group_by_type st (attr inst ''instance_class'') hostname,
        rds_group_by_vpc st inst hostname,
        rds_group_by_security_group st inst hostname,
        group_by_tags st inst hostname,
        group_named st ''group_by_rds_engine'' ''rds_engines'' ''rds_'' (attr inst ''engine'') hostname,
        group_named st ''group_by_rds_parameter_group'' ''rds_parameter_groups'' ''rds_parameter_group_''
          (bind_res (attr inst ''parameter_group'') (\<lambda>g. attr g ''name'')) hostname,
        group_untagged st inst hostname]"

definition add_rds_instance :: "settings \<Rightarrow> pyval \<Rightarrow> string \<Rightarrow> ec2" where
  "add_rds_instance st inst region =
     py_bind (py_lift (if st_all_rds_instances st then Inr True
                       else bind_res (attr inst ''status'') (\<lambda>s. Inr (s = PStr ''available'')))) (\<lambda>wanted.
     if \<not> wanted then py_return () else
     py_bind (py_lift (bind_res (attr inst ''endpoint'') (\<lambda>e. py_item e (PInt 0)))) (\<lambda>dest.
     if \<not> truthy dest then py_return () else
     py_bind (py_lift (rds_hostname st inst dest)) (\<lambda>hostname.
     py_bind (py_lift (attr inst ''id'')) (\<lambda>instance_id.
     py_block
       [add_to_index hostname region instance_id,
        rds_groups st inst region instance_id hostname,
        publish_host st ''rds'' inst hostname dest]))))"

section \<open>ElastiCache\<close>

text \<open>\<open>'K' in d and d['K']\<close>\<close>

definition key_set :: "pyval \<Rightarrow> string \<Rightarrow> bool res" where
  "key_set v k = bind_res (py_has_key v k) (\<lambda>has.
     if has then bind_res (py_key v k) (\<lambda>x. Inr (truthy x)) else Inr False)"

definition cache_dest :: "pyval \<Rightarrow> (pyval \<times> bool) res" where
  "cache_dest cluster =
     bind_res (key_set cluster ''ConfigurationEndpoint'') (\<lambda>memcached.
     if memcached then
       bind_res (py_key cluster ''ConfigurationEndpoint'') (\<lambda>ep.
       bind_res (py_key ep ''Address'') (\<lambda>a. Inr (a, False)))
     else
       bind_res (py_key cluster ''CacheNodes'') (\<lambda>nodes.
       bind_res (py_item nodes (PInt 0)) (\<lambda>node.
       bind_res (py_key node ''Endpoint'') (\<lambda>ep.
       bind_res (py_key ep ''Address'') (\<lambda>a. Inr (a, True))))))"

definition cache_security_groups :: "settings \<Rightarrow> pyval \<Rightarrow> pyval \<Rightarrow> ec2" where
  "cache_security_groups st cluster dest =
     py_when (st_group_by st ''group_by_security_group'')
       (py_bind (py_lift (bind_res (py_has_key cluster ''SecurityGroups'') (\<lambda>has.
            if has then bind_res (py_key cluster ''SecurityGroups'') (\<lambda>sgs.
              if sgs = PNone then Inr [] else py_elements sgs) else Inr []))) (\<lambda>sgs.
          py_for sgs (\<lambda>sg.
            py_bind (py_lift (safe_key st ''security_group_'' (py_key sg ''SecurityGroupId''))) (\<lambda>key.
              group_host st ''security_groups'' key dest))))"

text \<open>A group whose name has a prefix, nested under its parent by another safe name.\<close>

definition cache_group ::
  "settings \<Rightarrow> string \<Rightarrow> string \<Rightarrow> string \<Rightarrow> string \<Rightarrow> pyval res \<Rightarrow> pyval \<Rightarrow> ec2"
where
  "cache_group st option parent pre child_pre r dest =
     py_when (st_group_by st option)
       (py_bind (py_lift (safe_key st pre r)) (\<lambda>key.
        py_block
          [push key dest,
           py_when (st_nested_groups st)
             (py_bind (py_lift (safe_key st child_pre r)) (\<lambda>child. push_group (PStr parent) child))]))"

definition parameter_group_name :: "pyval \<Rightarrow> pyval res" where
  "parameter_group_name cluster =
     bind_res (py_key cluster ''CacheParameterGroup'') (\<lambda>g. py_key g ''CacheParameterGroupName'')"

definition cache_replication_group :: "settings \<Rightarrow> pyval \<Rightarrow> pyval \<Rightarrow> ec2" where
  "cache_replication_group st cluster dest =
     py_when (st_group_by st ''group_by_elasticache_replication_group'')
       (py_bind (py_lift (key_set cluster ''ReplicationGroupId'')) (\<lambda>grouped.
          py_when grouped
            (cache_group st ''group_by_elasticache_replication_group'' ''elasticache_replication_groups''
              ''elasticache_replication_group_'' [] (py_key cluster ''ReplicationGroupId'') dest)))"

definition cluster_groups :: "settings \<Rightarrow> pyval \<Rightarrow> string \<Rightarrow> pyval \<Rightarrow> pyval \<Rightarrow> bool \<Rightarrow> ec2" where
  "cluster_groups st cluster region cluster_id dest is_redis =
     py_block
       [group_by_id st cluster_id dest,
        py_when (\<not> is_redis) (py_block
          [group_by_region st region dest,
           group_by_zone st region (py_key cluster ''PreferredAvailabilityZone'') dest,
           group_by_type st (py_key cluster ''CacheNodeType'') dest,
           cache_security_groups st cluster dest,
           cache_group st ''group_by_elasticache_engine'' ''elasticache_engines'' ''elasticache_'' []
             (py_key cluster ''Engine'') dest]),
        cache_group st ''group_by_elasticache_parameter_group'' ''elasticache_parameter_groups''
          ''elasticache_parameter_group_'' [] (parameter_group_name cluster) dest,
        cache_replication_group st cluster dest]"

text \<open>\<open>hostvars[dest].update(info)\<close> where it exists already\<close>

definition merge_hostvars :: "pyval \<Rightarrow> host_vars \<Rightarrow> ec2" where
  "merge_hostvars dest info =
     py_bind (py_bind (py_gets ei_inventory) (\<lambda>d. py_lift (hostvars_of d))) (\<lambda>vars.
       case dict_get vars dest of
         None \<Rightarrow> set_hostvars dest info
       | Some (PDict old) \<Rightarrow> set_hostvars dest (dict_update old info)
       | Some _ \<Rightarrow> py_raise AttributeError)"

definition wanted_status :: "bool \<Rightarrow> pyval \<Rightarrow> string \<Rightarrow> bool res" where
  "wanted_status all v k =
     (if all then Inr True else bind_res (py_key v k) (\<lambda>s. Inr (s = PStr ''available'')))"

definition node_groups :: "settings \<Rightarrow> pyval \<Rightarrow> string \<Rightarrow> pyval \<Rightarrow> pyval \<Rightarrow> ec2" where
  "node_groups st cluster region node_id dest =
     py_block
       [group_by_id st node_id dest,
        group_by_region st region dest,
        group_by_zone st region (py_key cluster ''PreferredAvailabilityZone'') dest,
        group_by_type st (py_key cluster ''CacheNodeType'') dest,
        cache_security_groups st cluster dest,
        cache_group st ''group_by_elasticache_engine'' ''elasticache_engines'' ''elasticache_'' ''elasticache_''
          (py_key cluster ''Engine'') dest,
        py_when (st_group_by st ''group_by_elasticache_cluster'')
          (py_bind (py_lift (safe_key st ''elasticache_cluster_'' (py_key cluster ''CacheClusterId'')))
            (\<lambda>key. push key dest)),
        push (PStr ''elasticache_nodes'') dest]"

definition node_id_of :: "settings \<Rightarrow> pyval \<Rightarrow> pyval \<Rightarrow> pyval res" where
  "node_id_of st node cluster =
     bind_res (py_key cluster ''CacheClusterId'') (\<lambda>c.
     bind_res (py_string TypeError c) (\<lambda>cid.
     bind_res (py_key node ''CacheNodeId'') (\<lambda>n.
     bind_res (py_add (cid @ ''_'') n) (\<lambda>w. Inr (PStr (to_safe (st_replace_dash_in_groups st) w))))))"

definition add_elasticache_node :: "settings \<Rightarrow> pyval \<Rightarrow> pyval \<Rightarrow> string \<Rightarrow> ec2" where
  "add_elasticache_node st node cluster region =
     py_bind (py_lift (wanted_status (st_all_elasticache_nodes st) node ''CacheNodeStatus'')) (\<lambda>wanted.
     if \<not> wanted then py_return () else
     py_bind (py_lift (bind_res (py_key node ''Endpoint'') (\<lambda>e. py_key e ''Address''))) (\<lambda>dest.
     if \<not> truthy dest then py_return () else
     py_bind (py_lift (node_id_of st node cluster)) (\<lambda>node_id.
     py_block
       [add_to_index dest region node_id,
        node_groups st cluster region node_id dest,
        py_bind (py_lift (get_host_info_dict_from_describe_dict st node)) (merge_hostvars dest)])))"

definition add_elasticache_cluster :: "settings \<Rightarrow> pyval \<Rightarrow> string \<Rightarrow> ec2" where
  "add_elasticache_cluster st cluster region =
     py_bind (py_lift (wanted_status (st_all_elasticache_clusters st) cluster ''CacheClusterStatus'')) (\<lambda>wanted.
     if \<not> wanted then py_return () else
     py_bind (py_lift (cache_dest cluster)) (\<lambda>(dest, is_redis).
     if \<not> truthy dest then py_return () else
     py_bind (py_lift (py_key cluster ''CacheClusterId'')) (\<lambda>cluster_id.
     py_block
       [add_to_index dest region cluster_id,
        cluster_groups st cluster region cluster_id dest is_redis,
        push (PStr ''elasticache_clusters'') cluster_id,
        py_bind (py_lift (get_host_info_dict_from_describe_dict st cluster)) (set_hostvars dest),
        py_bind (py_lift (bind_res (py_key cluster ''CacheNodes'') py_elements)) (\<lambda>nodes.
          py_for nodes (\<lambda>node. add_elasticache_node st node cluster region))])))"

definition replication_dest :: "pyval \<Rightarrow> pyval res" where
  "replication_dest rg =
     bind_res (py_key rg ''NodeGroups'') (\<lambda>gs.
     bind_res (py_item gs (PInt 0)) (\<lambda>g.
     bind_res (py_key g ''PrimaryEndpoint'') (\<lambda>ep.
       if ep = PNone then Inr PNone else py_key ep ''Address'')))"

definition add_elasticache_replication_group :: "settings \<Rightarrow> pyval \<Rightarrow> string \<Rightarrow> ec2" where
  "add_elasticache_replication_group st rg region =
     py_bind (py_lift (wanted_status (st_all_elasticache_replication_groups st) rg ''Status'')) (\<lambda>wanted.
     if \<not> wanted then py_return () else
     py_bind (py_lift (replication_dest rg)) (\<lambda>dest.
     if dest = PNone then py_return () else
     py_bind (py_lift (py_key rg ''ReplicationGroupId'')) (\<lambda>rg_id.
     py_block
       [add_to_index dest region rg_id,
        group_by_id st rg_id dest,
        group_by_region st region dest,
        py_when (st_group_by st ''group_by_elasticache_engine'') (py_block
          [push (PStr ''elasticache_redis'') dest,
           py_when (st_nested_groups st) (push_group (PStr ''elasticache_engines'') (PStr ''redis''))]),
        push (PStr ''elasticache_replication_groups'') rg_id,
        py_bind (py_lift (get_host_info_dict_from_describe_dict st rg)) (set_hostvars dest)])))"

end
