(* ===== verification/InventoryInv.thy ===== *)
theory InventoryInv
  imports Ec2Services
begin

text \<open>
  The invariant of the inventory and the proof that every \<open>add_\<close> method of ops/ansible/ec2.py keeps it,
  whether it returns, skips the host or raises half-way: groups stay well-formed, no host is ever
  taken out of a group (other than the one-host group of an id), and, for the EC2 and RDS methods,
  every child of a group is itself a group.
\<close>

definition inv_ok ::
  "bool \<Rightarrow> pyval set \<Rightarrow> (pyval \<Rightarrow> pyval list) \<Rightarrow> ((pyval, pyval) dict \<Rightarrow> bool) \<Rightarrow> pyval set
     \<Rightarrow> ec2_state \<Rightarrow> bool"
where
  "inv_ok cl K h0 R X s \<longleftrightarrow> inv.grown cl K h0 X (ei_inventory s) \<and> R (ei_index s)"

definition does :: "('s \<Rightarrow> bool) \<Rightarrow> ('s, unit) py \<Rightarrow> ('s \<Rightarrow> bool) \<Rightarrow> bool" where
  "does P m Q \<longleftrightarrow> (\<forall>s. P s \<longrightarrow> (\<exists>s'. m s = (Inr (), s') \<and> Q s'))"

lemma does_keeps: "does P m Q \<Longrightarrow> (\<And>s. Q s \<Longrightarrow> P s) \<Longrightarrow> keeps P m"
  unfolding does_def keeps_def by (metis snd_conv)

lemma does_block:
  "does P m Q \<Longrightarrow> does Q (py_block ms) R \<Longrightarrow> does P (py_block (m # ms)) R"
  by (fastforce simp: does_def py_bind_def)

lemma does_block_Nil: "(\<And>s. P s \<Longrightarrow> Q s) \<Longrightarrow> does P (py_block []) Q"
  by (simp add: does_def py_return_def)

lemma does_when: "(b \<Longrightarrow> does P m Q) \<Longrightarrow> (\<And>s. \<not> b \<Longrightarrow> P s \<Longrightarrow> Q s) \<Longrightarrow> does P (py_when b m) Q"
  by (auto simp: does_def py_when_def py_return_def)

lemma does_weaken: "does P m Q \<Longrightarrow> (\<And>s. Q s \<Longrightarrow> R s) \<Longrightarrow> does P m R"
  unfolding does_def by blast

lemma inv_ok_weaken: "inv_ok cl K h0 R X s \<Longrightarrow> Y \<subseteq> X \<Longrightarrow> inv_ok cl K h0 R Y s"
  unfolding inv_ok_def using inv.grown_weaken by blast

lemma inv_ok_keeps:
  "does (inv_ok cl K h0 R X) m (inv_ok cl K h0 R Y) \<Longrightarrow> X \<subseteq> Y \<Longrightarrow> keeps (inv_ok cl K h0 R X) m"
  by (erule does_keeps) (erule (1) inv_ok_weaken)

section \<open>The primitive steps\<close>

lemma push_does: "does (inv_ok cl K h0 R X) (push k h) (inv_ok cl K h0 R (insert k X))"
  unfolding does_def inv_ok_def push_def on_inventory_def
  using inv.push_grows [of cl K h0 X _ k h] by fastforce

lemma push_group_does:
  "(cl \<Longrightarrow> c \<in> X) \<Longrightarrow> does (inv_ok cl K h0 R X) (push_group k c) (inv_ok cl K h0 R (insert k X))"
  unfolding does_def inv_ok_def push_group_def on_inventory_def
  using inv.nest_grows [of cl K h0 X _ c k] by fastforce

lemma push_group_chain_does:
  assumes "k \<in> X"
  shows "does (inv_ok cl K h0 R X) (py_block [push_group p c, push_group c k]) (inv_ok cl K h0 R X)"
proof -
  have "\<exists>s'. py_block [push_group p c, push_group c k] s = (Inr (), s') \<and> inv_ok cl K h0 R X s'"
    if "inv_ok cl K h0 R X s" for s
  proof -
    from that have "inv.grown cl K h0 X (ei_inventory s)" and R: "R (ei_index s)"
      by (simp_all add: inv_ok_def)
    from inv.nest_chain_grows [OF this(1) assms, of p c] obtain d1 d2 where
      "push_group_dict (ei_inventory s) p c = Inr d1" "push_group_dict d1 c k = Inr d2"
      "inv.grown cl K h0 (insert c (insert p X)) d2" by blast
    moreover from this(3) have "inv.grown cl K h0 X d2" by (rule inv.grown_weaken) auto
    ultimately show ?thesis using R
      by (simp add: push_group_def on_inventory_def py_bind_def py_return_def inv_ok_def)
  qed
  then show ?thesis by (simp add: does_def)
qed

lemma set_item_does:
  assumes "i \<in> K" "i \<noteq> PStr ''_meta''"
  shows "does (inv_ok cl K h0 R X) (set_item i (PList hs)) (inv_ok cl K h0 R (insert i X))"
proof -
  have "inv.grown cl K h0 (insert i X) (dict_set d i (PList hs))" if g: "inv.grown cl K h0 X d" for d
  proof -
    from g obtain vars where good: "good_inventory d" "hostvars_of d = Inr vars"
      by (auto simp: inv.grown_def good_inventory_def)
    have "hostvars_of (dict_set d i (PList hs)) = Inr vars"
      by (rule hostvars_of_set [OF good(2)]) (use assms(2) in simp)
    then have "good_inventory (dict_set d i (PList hs))"
      using good(1) by (auto simp: good_inventory_def dict_get_set good_group_def)
    moreover have "children_in (dict_set d i (PList hs)) = (children_in d)(i := [])"
      "hosts_in (dict_set d i (PList hs)) = (hosts_in d)(i := hs)"
      by (auto simp: children_in_def hosts_in_def dict_get_set group_children_def group_hosts_def fun_eq_iff)
    ultimately show ?thesis using g assms(1)
      by (auto simp: inv.grown_def inv.closed_def dict_get_set)
  qed
  then show ?thesis by (simp add: does_def set_item_def py_modify_def inv_ok_def)
qed

lemma set_hostvars_dict_grows:
  assumes g: "inv.grown cl K h0 X d"
  shows "\<exists>d'. set_hostvars_dict h info d = Inr d' \<and> inv.grown cl K h0 X d' \<and>
    (\<exists>vars. hostvars_of d = Inr vars \<and> hostvars_of d' = Inr (dict_set vars h (PDict info)))"
proof -
  from g have good: "good_inventory d" by (simp add: inv.grown_def)
  from good_meta [OF good] obtain m vars where m: "dict_get d (PStr ''_meta'') = Some (PDict m)"
    "dict_get m (PStr ''hostvars'') = Some (PDict vars)" "hostvars_of d = Inr vars" by blast
  let ?v' = "PDict (dict_set vars h (PDict info))"
  let ?m' = "dict_set m (PStr ''hostvars'') ?v'"
  let ?d' = "dict_set d (PStr ''_meta'') (PDict ?m')"
  have "set_hostvars_dict h info d = Inr ?d'"
    using m by (simp add: set_hostvars_dict_def dict_index_def dict_get_def)
  moreover have hv: "hostvars_of ?d' = Inr (dict_set vars h (PDict info))"
    by (simp add: hostvars_of_Inr dict_get_set)
  moreover have gm: "good_group (PDict m)" using good m(1) unfolding good_inventory_def by blast
  moreover have lists: "list_at ?m' ''hosts'' = list_at m ''hosts''" "list_at ?m' ''children'' = list_at m ''children''"
    "good_group (PDict ?m')"
    using gm by (simp_all add: list_at_def dict_get_set good_group_def is_list_or_absent_def)
  then have "hosts_in ?d' = hosts_in d" "children_in ?d' = children_in d"
    using m(1) by (auto simp: hosts_in_def children_in_def group_hosts_def group_children_def dict_get_set fun_eq_iff)
  moreover have "dom (dict_get ?d') = dom (dict_get d)" using m(1) by (auto simp: dict_get_set)
  moreover have "good_inventory ?d'" using good lists(3) hv by (auto simp: good_inventory_def dict_get_set)
  ultimately show ?thesis using g m(3) by (auto simp: inv.grown_def inv.closed_def)
qed

lemma set_hostvars_does: "does (inv_ok cl K h0 R X) (set_hostvars h info) (inv_ok cl K h0 R X)"
  unfolding does_def inv_ok_def set_hostvars_def on_inventory_def
  using set_hostvars_dict_grows [of cl K h0 X _ h info] by fastforce

text \<open>What is kept of the index must survive the registration of a host.\<close>

definition stable :: "((pyval, pyval) dict \<Rightarrow> bool) \<Rightarrow> bool" where
  "stable R \<longleftrightarrow> (\<forall>d k v. R d \<longrightarrow> R (dict_set d k v))"

lemma add_to_index_does: "stable R \<Longrightarrow> does (inv_ok cl K h0 R X) (add_to_index h r i) (inv_ok cl K h0 R X)"
  by (simp add: does_def add_to_index_def py_modify_def inv_ok_def stable_def)

section \<open>The grouping steps\<close>

lemma group_host_does: "does (inv_ok cl K h0 R X) (group_host st p key h) (inv_ok cl K h0 R X)"
  unfolding group_host_def
  by (intro does_block [OF push_does] does_block_Nil does_block [where Q = "inv_ok cl K h0 R (insert key X)"]
      does_when does_weaken [OF push_group_does])
    (auto elim: inv_ok_weaken)

lemma group_zone_does:
  "does (inv_ok cl K h0 R X) (py_block [push z h, py_when n (py_block
     [py_when b (push_group r z), push_group q z])]) (inv_ok cl K h0 R X)"
  by (intro does_block [OF push_does] does_block_Nil does_block [where Q = "inv_ok cl K h0 R (insert z X)"]
      does_when does_weaken [OF push_group_does])
    (auto elim: inv_ok_weaken)

lemma group_by_tag_value_keeps: "keeps (inv_ok cl K h0 R X) (group_by_tag_value st k h v)"
proof -
  let ?safe = "\<lambda>w. PStr (to_safe (st_replace_dash_in_groups st) w)"
  have "does (inv_ok cl K h0 R X) (py_block [push key h, py_when n (py_block
      [push_group (PStr ''tags'') (?safe (''tag_'' @ k)),
       py_when (truthy v) (push_group (?safe (''tag_'' @ k)) key)])]) (inv_ok cl K h0 R X)"
    if "\<not> truthy v \<Longrightarrow> key = ?safe (''tag_'' @ k)" for key n
  proof (cases "truthy v")
    case True
    then have tv: "truthy v = True" by simp
    have chain: "does (inv_ok cl K h0 R (insert key X)) (py_block [push_group (PStr ''tags'') (?safe (''tag_'' @ k)),
        py_when (truthy v) (push_group (?safe (''tag_'' @ k)) key)]) (inv_ok cl K h0 R (insert key X))"
      unfolding tv py_when_simps by (rule push_group_chain_does) simp
    show ?thesis
      by (rule does_block [OF push_does], rule does_block [where Q = "inv_ok cl K h0 R (insert key X)"],
          rule does_when, rule chain, assumption, rule does_block_Nil)
        (auto elim: inv_ok_weaken)
  next
    case False
    with that show ?thesis
      by (intro does_block [OF push_does] does_block_Nil does_block [where Q = "inv_ok cl K h0 R (insert key X)"]
          does_when does_weaken [OF push_group_does])
        (auto elim: inv_ok_weaken)
  qed
  then have "keeps (inv_ok cl K h0 R X) (py_block [push key h, py_when n (py_block
      [push_group (PStr ''tags'') (?safe (''tag_'' @ k)),
       py_when (truthy v) (push_group (?safe (''tag_'' @ k)) key)])])"
    if "\<not> truthy v \<Longrightarrow> key = ?safe (''tag_'' @ k)" for key n
    using that by (intro does_keeps) auto
  then show ?thesis unfolding group_by_tag_value_def Let_def
    by (cases "truthy v"; cases "py_add (''tag_'' @ k @ ''='') v")
      (simp_all add: keeps_raise del: py_block.simps)
qed

lemma keeps_lift_bind: "(\<And>x. r = Inr x \<Longrightarrow> keeps P (f x)) \<Longrightarrow> keeps P (py_bind (py_lift r) f)"
  by (cases r) (simp_all add: keeps_raise)

named_theorems inv_steps \<open>the steps that keep the invariant of the inventory\<close>

lemma fail_keeps [inv_steps]: "keeps P (fail_with_error m op)"
  by (auto simp: fail_with_error_def keeps_raise split: option.splits)

lemma push_keeps [inv_steps]: "keeps (inv_ok cl K h0 R X) (push k h)"
  by (rule inv_ok_keeps [OF push_does]) auto

lemma group_host_keeps [inv_steps]: "keeps (inv_ok cl K h0 R X) (group_host st p key h)"
  by (rule inv_ok_keeps [OF group_host_does]) auto

lemma set_hostvars_keeps [inv_steps]: "keeps (inv_ok cl K h0 R X) (set_hostvars h info)"
  by (rule inv_ok_keeps [OF set_hostvars_does]) auto

lemma add_to_index_keeps: "stable R \<Longrightarrow> keeps (inv_ok cl K h0 R X) (add_to_index h r i)"
  by (rule inv_ok_keeps [OF add_to_index_does]) auto

lemma group_by_region_keeps [inv_steps]: "keeps (inv_ok cl K h0 R X) (group_by_region st r h)"
  unfolding group_by_region_def by (intro keeps_rules inv_steps)

lemma group_by_zone_keeps [inv_steps]: "keeps (inv_ok cl K h0 R X) (group_by_zone st r z h)"
  unfolding group_by_zone_def
  by (intro keeps_when keeps_lift_bind inv_ok_keeps [OF group_zone_does]) auto

lemma group_named_keeps [inv_steps]: "keeps (inv_ok cl K h0 R X) (group_named st opt p pre r h)"
  unfolding group_named_def by (intro keeps_rules inv_steps)

lemma group_if_set_keeps [inv_steps]: "keeps (inv_ok cl K h0 R X) (group_if_set st opt p pre r h)"
  unfolding group_if_set_def by (intro keeps_rules inv_steps)

lemma group_by_id_keeps:
  assumes "i \<in> K" "i \<noteq> PStr ''_meta''"
  shows "keeps (inv_ok cl K h0 R X) (group_by_id st i h)"
proof -
  have "does (inv_ok cl K h0 R X) (py_block [set_item i (PList [h]),
      py_when n (push_group (PStr ''instances'') i)]) (inv_ok cl K h0 R X)" for n
    by (intro does_block [OF set_item_does [OF assms]] does_block_Nil
        does_block [where Q = "inv_ok cl K h0 R (insert i X)"] does_when does_weaken [OF push_group_does])
      (auto elim: inv_ok_weaken)
  then show ?thesis unfolding group_by_id_def
    by (intro keeps_when) (rule inv_ok_keeps, auto)
qed

lemma named_attr_keeps [inv_steps]:
  "keeps (inv_ok cl K h0 R X) (group_by_ami st inst h)"
  "keeps (inv_ok cl K h0 R X) (group_by_type st t h)"
  "keeps (inv_ok cl K h0 R X) (group_by_state st inst h)"
  "keeps (inv_ok cl K h0 R X) (group_by_platform st inst h)"
  unfolding group_by_ami_def group_by_type_def group_by_state_def group_by_platform_def
  by (rule group_named_keeps)+

lemma group_by_security_groups_keeps [inv_steps]:
  "keeps (inv_ok cl K h0 R X) (group_by_security_groups st inst h)"
  unfolding group_by_security_groups_def by (intro keeps_rules inv_steps)

lemma group_by_account_keeps [inv_steps]: "keeps (inv_ok cl K h0 R X) (group_by_account st h)"
  unfolding group_by_account_def by (intro keeps_rules inv_steps)

lemma group_by_tags_keeps [inv_steps]: "keeps (inv_ok cl K h0 R X) (group_by_tags st inst h)"
  unfolding group_by_tags_def by (intro keeps_rules group_by_tag_value_keeps)

lemma route53_names_keeps [inv_steps]: "keeps P (get_instance_route53_names st inst)"
  unfolding get_instance_route53_names_def by (intro keeps_rules)

lemma group_by_route53_keeps [inv_steps]: "keeps (inv_ok cl K h0 R X) (group_by_route53 st inst h)"
  unfolding group_by_route53_def by (intro keeps_rules inv_steps)

lemma group_untagged_keeps [inv_steps]: "keeps (inv_ok cl K h0 R X) (group_untagged st inst h)"
  unfolding group_untagged_def by (intro keeps_rules inv_steps)

lemma publish_host_keeps [inv_steps]: "keeps (inv_ok cl K h0 R X) (publish_host st g inst h dest)"
  unfolding publish_host_def by (intro keeps_rules inv_steps)

lemma route53_hostname_keeps [inv_steps]: "keeps P (route53_hostname st inst h)"
  unfolding route53_hostname_def by (intro keeps_rules inv_steps)

lemma instance_groups_keeps:
  "i \<in> K \<Longrightarrow> i \<noteq> PStr ''_meta'' \<Longrightarrow> keeps (inv_ok cl K h0 R X) (instance_groups st inst r i h)"
  unfolding instance_groups_def by (intro keeps_rules inv_steps group_by_id_keeps)

section \<open>The methods\<close>

text \<open>\<open>id_in K v\<close>: the id of the object, if it has one, is in \<open>K\<close> and is not the key \<open>_meta\<close>.\<close>

definition id_in :: "pyval set \<Rightarrow> pyval res \<Rightarrow> bool" where
  "id_in K r \<longleftrightarrow> (\<forall>i. r = Inr i \<longrightarrow> i \<in> K \<and> i \<noteq> PStr ''_meta'')"

lemma add_instance_keeps:
  assumes "stable R" and "id_in K (attr inst ''id'')"
  shows "keeps (inv_ok cl K h0 R X) (add_instance st inst r)"
  unfolding add_instance_def
  by (intro keeps_lift_bind keeps_if keeps_return keeps_bind [OF route53_hostname_keeps]
      keeps_block_Cons keeps_block_Nil add_to_index_keeps inv_steps instance_groups_keeps)
    (use assms in \<open>auto simp: id_in_def\<close>)

lemma rds_groups_keeps:
  "i \<in> K \<Longrightarrow> i \<noteq> PStr ''_meta'' \<Longrightarrow> keeps (inv_ok cl K h0 R X) (rds_groups st inst r i h)"
  unfolding rds_groups_def rds_group_by_vpc_def rds_group_by_security_group_def
  by (intro keeps_rules inv_steps group_by_id_keeps)

lemma add_rds_instance_keeps:
  assumes "stable R" and "id_in K (attr inst ''id'')"
  shows "keeps (inv_ok cl K h0 R X) (add_rds_instance st inst r)"
  unfolding add_rds_instance_def
  by (intro keeps_lift_bind keeps_if keeps_return keeps_block_Cons keeps_block_Nil add_to_index_keeps inv_steps rds_groups_keeps)
    (use assms in \<open>auto simp: id_in_def\<close>)

text \<open>The ElastiCache methods nest groups under names that need not exist, so only \<open>cl = False\<close>.\<close>

lemma push_group_keeps: "keeps (inv_ok False K h0 R X) (push_group k c)"
  by (rule inv_ok_keeps [OF push_group_does]) auto

lemma cache_steps_keep:
  "keeps (inv_ok False K h0 R X) (cache_security_groups st cluster dest)"
  "keeps (inv_ok False K h0 R X) (cache_group st opt p pre cpre v dest)"
  "keeps (inv_ok False K h0 R X) (cache_replication_group st cluster dest)"
  "keeps (inv_ok False K h0 R X) (merge_hostvars dest info)"
proof -
  show group: "keeps (inv_ok False K h0 R X) (cache_group st opt p pre cpre v dest)" for opt p pre cpre v
    unfolding cache_group_def by (intro keeps_rules inv_steps push_group_keeps)
  show "keeps (inv_ok False K h0 R X) (cache_security_groups st cluster dest)"
    unfolding cache_security_groups_def by (intro keeps_rules inv_steps)
  show "keeps (inv_ok False K h0 R X) (cache_replication_group st cluster dest)"
    unfolding cache_replication_group_def by (intro keeps_rules group)
  show "keeps (inv_ok False K h0 R X) (merge_hostvars dest info)"
    unfolding merge_hostvars_def
    by (intro keeps_rules) (auto split: pyval.splits intro: keeps_raise set_hostvars_keeps)
qed

lemma cluster_groups_keeps:
  "i \<in> K \<Longrightarrow> i \<noteq> PStr ''_meta'' \<Longrightarrow> keeps (inv_ok False K h0 R X) (cluster_groups st cluster r i dest rd)"
  unfolding cluster_groups_def by (intro keeps_rules inv_steps group_by_id_keeps cache_steps_keep)

lemma node_groups_keeps:
  "i \<in> K \<Longrightarrow> i \<noteq> PStr ''_meta'' \<Longrightarrow> keeps (inv_ok False K h0 R X) (node_groups st cluster r i dest)"
  unfolding node_groups_def by (intro keeps_rules inv_steps group_by_id_keeps cache_steps_keep)

lemma add_elasticache_node_keeps:
  assumes "stable R" and "id_in K (node_id_of st node cluster)"
  shows "keeps (inv_ok False K h0 R X) (add_elasticache_node st node cluster r)"
  unfolding add_elasticache_node_def
  by (intro keeps_lift_bind keeps_if keeps_return keeps_block_Cons keeps_block_Nil add_to_index_keeps inv_steps
      node_groups_keeps cache_steps_keep)
    (use assms in \<open>auto simp: id_in_def\<close>)

lemma add_elasticache_cluster_keeps:
  assumes "stable R" and "id_in K (py_key cluster ''CacheClusterId'')"
    and "\<And>nodes node. bind_res (py_key cluster ''CacheNodes'') py_elements = Inr nodes \<Longrightarrow> node \<in> set nodes \<Longrightarrow>
      id_in K (node_id_of st node cluster)"
  shows "keeps (inv_ok False K h0 R X) (add_elasticache_cluster st cluster r)"
  unfolding add_elasticache_cluster_def case_prod_beta
  by (intro keeps_lift_bind keeps_if keeps_return keeps_block_Cons keeps_block_Nil add_to_index_keeps inv_steps
      cluster_groups_keeps keeps_for add_elasticache_node_keeps)
    (use assms in \<open>auto simp: id_in_def\<close>)

lemma add_replication_group_keeps:
  assumes "stable R" and "id_in K (py_key rg ''ReplicationGroupId'')"
  shows "keeps (inv_ok False K h0 R X) (add_elasticache_replication_group st rg r)"
  unfolding add_elasticache_replication_group_def
  by (intro keeps_lift_bind keeps_if keeps_return keeps_block_Cons keeps_block_Nil keeps_when add_to_index_keeps inv_steps
      group_by_id_keeps push_group_keeps)
    (use assms in \<open>auto simp: id_in_def\<close>)

section \<open>Listing a host\<close>

lemma publish_host_returns:
  assumes ok: "inv_ok cl K h0 R X s" and run: "publish_host st g inst h dest s = (Inr x, s')"
  shows "h \<in> set (hosts_in (ei_inventory s') (PStr g)) \<and> ei_index s' = ei_index s \<and>
    (\<exists>vars info. hostvars_of (ei_inventory s') = Inr vars \<and> dict_get vars h = Some (PDict info) \<and>
       dict_get info (PStr ''ansible_host'') = Some dest)"
proof -
  from ok have grown: "inv.grown cl K h0 X (ei_inventory s)" by (simp add: inv_ok_def)
  from inv.push_grows [OF this, of "PStr g" h] obtain d1 where
    d1: "push_dict (ei_inventory s) (PStr g) h = Inr d1" "inv.grown cl K h0 (insert (PStr g) X) d1"
    "h \<in> set (hosts_in d1 (PStr g))" by blast
  from run d1(1) obtain info where
    info: "get_host_info_dict_from_instance st (ei_aws_account_id s) inst = Inr info"
    by (auto simp: publish_host_def push_def on_inventory_def py_bind_def py_gets_def py_lift_def
        split: sum.splits)
  from d1(2) have "inv.grown cl {} (hosts_in d1) {} d1" by (auto simp: inv.grown_def)
  from set_hostvars_dict_grows [OF this, of h "put info ''ansible_host'' dest"] obtain d2 vars where
    d2: "set_hostvars_dict h (put info ''ansible_host'' dest) d1 = Inr d2" "inv.grown cl {} (hosts_in d1) {} d2"
    "hostvars_of d2 = Inr (dict_set vars h (PDict (put info ''ansible_host'' dest)))" by blast
  from run d1(1) d2(1) info have s': "s' = s\<lparr>ei_inventory := d2\<rparr>"
    by (simp add: publish_host_def push_def set_hostvars_def on_inventory_def py_bind_def py_gets_def
        py_lift_def py_return_def)
  have "h \<in> set (hosts_in d2 (PStr g))"
    using d2(2) d1(3) by (fastforce simp: inv.grown_def dest: spec [of _ "PStr g"])
  then show ?thesis using d2(3) by (simp add: s' dict_get_set put_def)
qed

lemma listed_after:
  assumes ok: "inv_ok cl K h0 (\<lambda>_. True) {} s"
    and groups: "\<And>R. keeps (inv_ok cl K h0 R {}) m"
    and run: "py_block [add_to_index h r i, m, publish_host st g inst h dest] s = (Inr x, s')"
  shows "dict_get (ei_index s') h = Some (PList [PStr r, i]) \<and> h \<in> set (hosts_in (ei_inventory s') (PStr g)) \<and>
    (\<exists>vars info. hostvars_of (ei_inventory s') = Inr vars \<and> dict_get vars h = Some (PDict info) \<and>
       dict_get info (PStr ''ansible_host'') = Some dest)"
proof -
  let ?s1 = "s\<lparr>ei_index := dict_set (ei_index s) h (PList [PStr r, i])\<rparr>"
  let ?R = "\<lambda>d. dict_get d h = Some (PList [PStr r, i])"
  from run obtain s2 where m: "m ?s1 = (Inr (), s2)" and pub: "publish_host st g inst h dest s2 = (Inr (), s')"
    by (auto simp: add_to_index_def py_bind_def py_modify_def py_return_def split: prod.splits sum.splits)
  have "inv_ok cl K h0 ?R {} ?s1" using ok by (simp add: inv_ok_def dict_get_set)
  from keepsD [OF groups this] m have ok2: "inv_ok cl K h0 ?R {} s2" by simp
  from publish_host_returns [OF ok2 pub] ok2 show ?thesis by (simp add: inv_ok_def)
qed

lemma route53_hostname_state: "route53_hostname st inst h s = (x, s1) \<Longrightarrow> s1 = s"
  by (auto simp: route53_hostname_def get_instance_route53_names_def py_defs split: if_splits option.splits)

section \<open>Properties\<close>

definition sample_settings :: settings where
  "sample_settings = \<lparr>st_eucalyptus = False, st_regions = [''eu''],
     st_destination_variable = ''public_dns_name'', st_vpc_destination_variable = ''ip_address'',
     st_hostname_variable = None, st_destination_format = None, st_destination_format_tags = [],
     st_route53_enabled = False, st_route53_hostnames = None, st_route53_excluded_zones = [],
     st_rds_enabled = False, st_include_rds_clusters = False, st_elasticache_enabled = True,
     st_ec2_instance_states = [''running''], st_all_rds_instances = False,
     st_all_elasticache_replication_groups = False, st_all_elasticache_clusters = False,
     st_all_elasticache_nodes = False, st_expand_csv_tags = True, st_nested_groups = True,
     st_replace_dash_in_groups = True, st_group_by = (\<lambda>a. a \<in> set [''group_by_instance_id'', ''group_by_tag_keys'']), st_pattern_include = None,
     st_pattern_exclude = None, st_stack_filters = False, st_instance_filters = [],
     st_set_order = (\<lambda>_. []), st_boto_profile = None, st_iam_role = None\<rparr>"

definition sample_instance :: pyval where
  "sample_instance = PObj
     [(''id'', PStr ''i-1''), (''tags'', PDict [(PStr ''role'', PStr ''web, db'')]), (''subnet_id'', PNone),
      (''public_dns_name'', PStr ''a.eu''), (''placement'', PStr ''eu-a''), (''image_id'', PStr ''ami-1''),
      (''instance_type'', PStr ''t2''), (''platform'', PNone), (''key_name'', PStr ''k''), (''vpc_id'', PNone),
      (''groups'', PList [PObj [(''id'', PStr ''sg-1''), (''name'', PStr ''default'')] []])]
     [(''state'', PStr ''running'')]"

definition sample_state :: ec2_state where
  "sample_state = \<lparr>ei_inventory = empty_inventory, ei_index = [], ei_aws_account_id = PStr ''1'',
     ei_route53_records = None, ei_credentials = []\<rparr>"

lemma sample_run:
  "case add_instance sample_settings sample_instance ''eu'' sample_state of (r, s') \<Rightarrow>
     r = Inr () \<and> ei_index s' \<noteq> [] \<and>
     PStr ''tag_role_db'' \<in> set (children_in (ei_inventory s') (PStr ''tag_role''))"
  by code_simp

lemma inv_ok_start:
  "good_inventory (ei_inventory s) \<Longrightarrow> inv_ok False K (hosts_in (ei_inventory s)) (\<lambda>_. True) {} s"
  by (simp add: inv_ok_def inv.grown_def)

text \<open>
  C24. The methods never take a host out of a group.  Whatever object the API hands to them, and also
  when they raise or exit half-way, \<open>add_instance\<close>, \<open>add_rds_instance\<close>, \<open>add_elasticache_cluster\<close> with
  its nodes and \<open>add_elasticache_replication_group\<close> leave the inventory well-formed and only append to
  the hosts of a group; the one-host groups of the ids they register are the only ones replaced.
\<close>

theorem methods_keep_hosts:
  assumes "good_inventory (ei_inventory s)"
    and "id_in K (attr inst ''id'')" and "id_in K (py_key cluster ''CacheClusterId'')"
    and "\<And>nodes node. bind_res (py_key cluster ''CacheNodes'') py_elements = Inr nodes \<Longrightarrow> node \<in> set nodes \<Longrightarrow>
      id_in K (node_id_of st node cluster)"
    and "id_in K (py_key rg ''ReplicationGroupId'')"
    and "m \<in> {add_instance st inst r, add_rds_instance st inst r, add_elasticache_cluster st cluster r,
      add_elasticache_replication_group st rg r}"
  shows "good_inventory (ei_inventory (snd (m s))) \<and>
    (\<forall>k. k \<notin> K \<longrightarrow> (\<exists>hs. hosts_in (ei_inventory (snd (m s))) k = hosts_in (ei_inventory s) k @ hs))"
proof -
  have stable: "stable (\<lambda>_. True)" by (simp add: stable_def)
  have "keeps (inv_ok False K h0 (\<lambda>_. True) {}) (add_elasticache_cluster st cluster r)" for h0
    by (rule add_elasticache_cluster_keeps [OF stable assms(3)]) (erule (1) assms(4))
  then have "keeps (inv_ok False K (hosts_in (ei_inventory s)) (\<lambda>_. True) {}) m"
    using assms(6) add_instance_keeps [OF stable assms(2)] add_rds_instance_keeps [OF stable assms(2)]
      add_replication_group_keeps [OF stable assms(5)]
    by blast
  from keepsD [OF this inv_ok_start [OF assms(1)]] show ?thesis by (simp add: inv_ok_def inv.grown_def)
qed

theorem methods_keep_hosts_witness:
  "good_inventory (ei_inventory (snd (add_instance sample_settings sample_instance ''eu'' sample_state)))"
proof -
  have "good_inventory (ei_inventory sample_state)" by (simp add: sample_state_def good_empty)
  moreover have "id_in {PStr ''i-1''} (attr sample_instance ''id'')"
    by (simp add: id_in_def attr_def sample_instance_def py_getattr_def attr_of_def)
  moreover have "id_in {PStr ''i-1''} (py_key PNone k)" "bind_res (py_key PNone k) py_elements \<noteq> Inr nodes" for k nodes
    by (simp_all add: id_in_def py_key_def py_item_def)
  ultimately show ?thesis
    using methods_keep_hosts [of sample_state "{PStr ''i-1''}" sample_instance PNone sample_settings PNone
        "add_instance sample_settings sample_instance ''eu''" "''eu''"] by simp
qed

text \<open>
  C25. Nested groups are closed for EC2 and RDS instances: if every child of a group is a group of the
  inventory, it stays so after \<open>add_instance\<close> and \<open>add_rds_instance\<close>, however they end.
\<close>

theorem nested_groups_exist:
  assumes "good_inventory (ei_inventory s)" and "id_in K (attr inst ''id'')"
    and "\<And>k c. c \<in> set (children_in (ei_inventory s) k) \<Longrightarrow> dict_get (ei_inventory s) c \<noteq> None"
    and "m \<in> {add_instance st inst r, add_rds_instance st inst r}"
    and "c \<in> set (children_in (ei_inventory (snd (m s))) k)"
  shows "dict_get (ei_inventory (snd (m s))) c \<noteq> None"
proof -
  have stable: "stable (\<lambda>_. True)" by (simp add: stable_def)
  have "keeps (inv_ok True K (hosts_in (ei_inventory s)) (\<lambda>_. True) {}) m"
    using assms(4) add_instance_keeps [OF stable assms(2)] add_rds_instance_keeps [OF stable assms(2)] by blast
  moreover have "inv_ok True K (hosts_in (ei_inventory s)) (\<lambda>_. True) {} s"
    using assms(1,3) by (auto simp: inv_ok_def inv.grown_def inv.closed_def)
  ultimately have "inv_ok True K (hosts_in (ei_inventory s)) (\<lambda>_. True) {} (snd (m s))" by (rule keepsD)
  with assms(5) show ?thesis by (auto simp: inv_ok_def inv.grown_def inv.closed_def)
qed

theorem nested_groups_exist_witness:
  "PStr ''tag_role_db'' \<in> set (children_in (ei_inventory (snd (add_instance sample_settings sample_instance ''eu''
     sample_state))) (PStr ''tag_role'')) \<and>
   dict_get (ei_inventory (snd (add_instance sample_settings sample_instance ''eu'' sample_state)))
     (PStr ''tag_role_db'') \<noteq> None"
proof -
  have child: "PStr ''tag_role_db'' \<in> set (children_in (ei_inventory (snd (add_instance sample_settings
      sample_instance ''eu'' sample_state))) (PStr ''tag_role''))"
    using sample_run by (simp add: case_prod_beta)
  have "children_in (ei_inventory sample_state) k = []" for k
    by (simp add: children_in_def sample_state_def empty_inventory_def dict_get_def group_children_def
        list_at_def)
  moreover have "good_inventory (ei_inventory sample_state)" by (simp add: sample_state_def good_empty)
  moreover have "id_in {PStr ''i-1''} (attr sample_instance ''id'')"
    by (simp add: id_in_def attr_def sample_instance_def py_getattr_def attr_of_def)
  ultimately show ?thesis
    using nested_groups_exist [where s = sample_state and K = "{PStr ''i-1''}" and inst = sample_instance
        and st = sample_settings and r = "''eu''" and m = "add_instance sample_settings sample_instance ''eu''"
        and c = "PStr ''tag_role_db''" and k = "PStr ''tag_role''"] child
    by simp
qed

text \<open>
  C26. When \<open>add_instance\<close> returns, it has either changed nothing or registered the instance: in a wanted
  state and with an address, it stands under one host name in the index with its region and id, in the
  group \<open>ec2\<close>, and in the host variables with its address as \<open>ansible_host\<close>.
\<close>

theorem add_instance_registers:
  assumes "good_inventory (ei_inventory s)" and "id_in K (attr inst ''id'')"
    and "add_instance st inst r s = (Inr (), s')"
  shows "s' = s \<or> (\<exists>state dest instance_id hostname vars info.
    attr inst ''state'' = Inr (PStr state) \<and> state \<in> set (st_ec2_instance_states st) \<and>
    instance_dest st inst = Inr dest \<and> truthy dest \<and> attr inst ''id'' = Inr instance_id \<and>
    pattern_rejects st hostname = Inr False \<and>
    dict_get (ei_index s') hostname = Some (PList [PStr r, instance_id]) \<and>
    hostname \<in> set (hosts_in (ei_inventory s') (PStr ''ec2'')) \<and>
    hostvars_of (ei_inventory s') = Inr vars \<and> dict_get vars hostname = Some (PDict info) \<and>
    dict_get info (PStr ''ansible_host'') = Some dest)"
proof (cases "s' = s")
  case False
  from assms(3) False obtain state dest hostname i where
    1: "attr inst ''state'' = Inr (PStr state)" "state \<in> set (st_ec2_instance_states st)"
      "instance_dest st inst = Inr dest" "truthy dest" "pattern_rejects st hostname = Inr False"
      "attr inst ''id'' = Inr i"
    and body: "py_block [add_to_index hostname r i, instance_groups st inst r i hostname,
        publish_host st ''ec2'' inst hostname dest] s = (Inr (), s')"
    by (auto simp: add_instance_def py_bind_def [of "py_lift x" for x]
        py_bind_def [of "route53_hostname st inst h" for h] py_lift_def py_return_def
        simp del: py_block.simps split: sum.splits if_splits prod.splits dest!: route53_hostname_state)
  have i: "i \<in> K" "i \<noteq> PStr ''_meta''" using assms(2) 1(6) by (auto simp: id_in_def)
  from listed_after [OF inv_ok_start [OF assms(1)] instance_groups_keeps [OF i] body] 1 show ?thesis by blast
qed simp

theorem add_instance_registers_witness:
  "\<exists>hostname s'. add_instance sample_settings sample_instance ''eu'' sample_state = (Inr (), s') \<and>
     dict_get (ei_index s') hostname = Some (PList [PStr ''eu'', PStr ''i-1'']) \<and>
     hostname \<in> set (hosts_in (ei_inventory s') (PStr ''ec2''))"
proof -
  obtain s' where run: "add_instance sample_settings sample_instance ''eu'' sample_state = (Inr (), s')"
    and "ei_index s' \<noteq> []"
    using sample_run by (auto split: prod.splits)
  then have "s' \<noteq> sample_state" by (auto simp: sample_state_def)
  moreover have "good_inventory (ei_inventory sample_state)" by (simp add: sample_state_def good_empty)
  moreover have "id_in {PStr ''i-1''} (attr sample_instance ''id'')" "attr sample_instance ''id'' = Inr (PStr ''i-1'')"
    by (simp_all add: id_in_def attr_def sample_instance_def py_getattr_def attr_of_def)
  ultimately show ?thesis
    using add_instance_registers [OF _ _ run, of "{PStr ''i-1''}"] run by auto
qed

end
