(* ===== verification/Ec2Api.thy ===== *)
theory Ec2Api
  imports Ec2Services
begin

text \<open>
  The API side of ops/ansible/ec2.py: connecting, the tag filters, the instances of a region with their
  tags, the RDS and ElastiCache queries, the Route53 records, and the error reports.  Boto is a
  parameter: a \<open>cloud\<close> says what each call returns or raises.  Loops over the pages of an answer take a
  fuel, and end in \<open>NotReturned\<close> when it is used up.
\<close>

section \<open>The cloud\<close>

record tag =
  tag_res_id :: pyval
  tag_name :: string
  tag_value :: pyval

type_synonym credentials = "(string, string option) dict"

text \<open>
  Every query names its region.  \<open>cl_connect\<close> takes the boto module as its first argument and says
  whether a connection is returned (\<open>connect_to_region\<close> returns \<open>None\<close> for a region it does not know).
\<close>

record cloud =
  cl_profile_token :: "string \<Rightarrow> string option"
  cl_connect :: "string \<Rightarrow> string \<Rightarrow> credentials \<Rightarrow> bool res"
  cl_connect_euca :: "credentials \<Rightarrow> unit res"
  cl_assume_role :: "string \<Rightarrow> string \<Rightarrow> (string \<times> string \<times> string) res"
  cl_all_instances :: "string \<Rightarrow> (string, pyval) dict option \<Rightarrow> pyval list res"
  cl_all_tags :: "string \<Rightarrow> pyval list \<Rightarrow> tag list res"
  cl_has_boto3 :: bool
  cl_boto3 :: "string \<Rightarrow> credentials \<Rightarrow> unit res"
  cl_describe_db_instances :: "string \<Rightarrow> pyval res"
  cl_db_page :: "string \<Rightarrow> pyval \<Rightarrow> (pyval list \<times> pyval) res"
  cl_resource_tags :: "string \<Rightarrow> pyval \<Rightarrow> pyval res"
  cl_describe_db_clusters :: "string \<Rightarrow> pyval \<Rightarrow> pyval res"
  cl_account_arn :: "string res"
  cl_describe_cache_clusters :: "string \<Rightarrow> pyval res"
  cl_describe_replication_groups :: "string \<Rightarrow> pyval res"
  cl_zones :: "(string \<times> string) list res"
  cl_rrsets :: "string \<Rightarrow> (string \<times> pyval list) list res"
  cl_environ :: "string \<Rightarrow> string option"
  cl_isfile :: "string \<Rightarrow> bool"

section \<open>Connecting\<close>

definition set_credential :: "string \<Rightarrow> string \<Rightarrow> ec2" where
  "set_credential k v = py_modify (\<lambda>s. s\<lparr>ei_credentials := dict_set (ei_credentials s) k (Some v)\<rparr>)"

definition boto_fix_security_token_in_profile :: "cloud \<Rightarrow> string \<Rightarrow> ec2" where
  "boto_fix_security_token_in_profile cl boto_profile =
     (case cl_profile_token cl (''profile '' @ boto_profile) of
        None \<Rightarrow> py_return ()
      | Some token \<Rightarrow> set_credential ''security_token'' token)"

text \<open>\<open>connect_args\<close> is \<open>self.credentials\<close> itself, so what is added to it stays there.\<close>

definition pass_profile :: "settings \<Rightarrow> cloud \<Rightarrow> ec2" where
  "pass_profile st cl =
     py_when (truthy_opt (st_boto_profile st))
       (py_block
         [set_credential ''profile_name'' (the (st_boto_profile st)),
          boto_fix_security_token_in_profile cl (the (st_boto_profile st))])"

definition assume_iam_role :: "settings \<Rightarrow> cloud \<Rightarrow> string \<Rightarrow> ec2" where
  "assume_iam_role st cl region =
     py_when (truthy_opt (st_iam_role st))
       (py_bind (py_gets ei_credentials) (\<lambda>connect_args.
        py_bind (py_lift (cl_connect cl ''sts'' region connect_args)) (\<lambda>connected.
        if \<not> connected then py_raise AttributeError else
        py_bind (py_lift (cl_assume_role cl region (the (st_iam_role st)))) (\<lambda>(key, secret, token).
        py_block
          [set_credential ''aws_access_key_id'' key,
           set_credential ''aws_secret_access_key'' secret,
           set_credential ''security_token'' token]))))"

definition connect_to_aws :: "settings \<Rightarrow> cloud \<Rightarrow> string \<Rightarrow> string \<Rightarrow> ec2" where
  "connect_to_aws st cl module region =
     py_block
       [pass_profile st cl,
        assume_iam_role st cl region,
        py_bind (py_gets ei_credentials) (\<lambda>connect_args.
        py_bind (py_lift (cl_connect cl module region connect_args)) (\<lambda>connected.
          py_when (\<not> connected) (fail_with_error (''region name: '' @ region @
            '' likely not supported, or AWS is down.  connection to region failed.'') None)))]"

definition connect :: "settings \<Rightarrow> cloud \<Rightarrow> string \<Rightarrow> ec2" where
  "connect st cl region =
     (if st_eucalyptus st
      then py_bind (py_gets ei_credentials) (\<lambda>args. py_lift (cl_connect_euca cl args))
      else connect_to_aws st cl ''ec2'' region)"

section \<open>Error reports\<close>

definition get_auth_error_message :: "cloud \<Rightarrow> string" where
  "get_auth_error_message cl =
     (let boto_paths = [''/etc/boto.cfg'', ''~/.boto'', ''~/.aws/credentials''];
          found = filter (cl_isfile cl) boto_paths;
          q = [CHR 39]
      in py_join newline
        [''Authentication error retrieving ec2 inventory.'',
         (if cl_environ cl ''AWS_ACCESS_KEY_ID'' = None \<or> cl_environ cl ''AWS_SECRET_ACCESS_KEY'' = None
          then '' - No AWS_ACCESS_KEY_ID or AWS_SECRET_ACCESS_KEY environment vars found''
          else '' - AWS_ACCESS_KEY_ID and AWS_SECRET_ACCESS_KEY environment vars found but may not be correct''),
         (if found \<noteq> []
          then '' - Boto configs found at '' @ q @ py_join '', '' found @ q @
               '', but the credentials contained may not be correct''
          else '' - No Boto config found at any expected location '' @ q @ py_join '', '' boto_paths @ q)])"

definition is_boto_error :: "py_exn \<Rightarrow> bool" where
  "is_boto_error e \<longleftrightarrow> (case e of BotoServerError c r m \<Rightarrow> True | _ \<Rightarrow> False)"

text \<open>The handlers of \<open>BotoServerError\<close>: each builds its message and exits.\<close>

definition instances_error :: "settings \<Rightarrow> cloud \<Rightarrow> py_exn \<Rightarrow> ec2" where
  "instances_error st cl e = (case e of
     BotoServerError code reason msg \<Rightarrow>
       fail_with_error
         (if code = ''AuthFailure'' then get_auth_error_message cl
          else ''Error connecting to '' @ (if st_eucalyptus st then ''Eucalyptus'' else ''AWS'') @
               '' backend.'' @ newline @ msg)
         (Some ''getting EC2 instances'')
   | _ \<Rightarrow> py_raise e)"

definition service_error :: "cloud \<Rightarrow> string \<Rightarrow> string \<Rightarrow> string \<Rightarrow> py_exn \<Rightarrow> ec2" where
  "service_error cl down optin operation e = (case e of
     BotoServerError code reason msg \<Rightarrow>
       fail_with_error
         (if code = ''AuthFailure'' then get_auth_error_message cl
          else if code = ''OptInRequired'' then optin
          else if reason \<noteq> ''Forbidden'' then down @ newline @ msg
          else reason)
         (Some operation)
   | _ \<Rightarrow> py_raise e)"

definition rds_error :: "cloud \<Rightarrow> py_exn \<Rightarrow> ec2" where
  "rds_error cl = service_error cl ''Looks like AWS RDS is down:''
     (''RDS hasn'' @ [CHR 39] @ ''t been enabled for this account yet. '' @
      ''You must either log in to the RDS service through the AWS console to enable it, '' @
      ''or set '' @ [CHR 39] @ ''rds = False'' @ [CHR 39] @ '' in ec2.ini'')
     ''getting RDS instances''"

definition elasticache_error :: "cloud \<Rightarrow> py_exn \<Rightarrow> ec2" where
  "elasticache_error cl = service_error cl ''Looks like AWS ElastiCache is down:''
     (''ElastiCache hasn'' @ [CHR 39] @ ''t been enabled for this account yet. '' @
      ''You must either log in to the ElastiCache service through the AWS console to enable it, '' @
      ''or set '' @ [CHR 39] @ ''elasticache = False'' @ [CHR 39] @ '' in ec2.ini'')
     ''getting ElastiCache clusters''"

text \<open>Two \<open>if\<close> statements in a row: the second one replaces the authentication message.\<close>

definition replication_error :: "cloud \<Rightarrow> py_exn \<Rightarrow> ec2" where
  "replication_error cl e = (case e of
     BotoServerError code reason msg \<Rightarrow>
       fail_with_error
         (let error = (if code = ''AuthFailure'' then get_auth_error_message cl else reason)
          in if reason \<noteq> ''Forbidden''
             then ''Looks like AWS ElastiCache [Replication Groups] is down:'' @ newline @ msg else error)
         (Some ''getting ElastiCache clusters'')
   | _ \<Rightarrow> py_raise e)"

section \<open>Filters on tags\<close>

text \<open>One entry of a filter set: \<open>Some b\<close> decides the answer, \<open>None\<close> goes on.\<close>

definition filter_decides :: "bool \<Rightarrow> (pyval, pyval) dict \<Rightarrow> string \<times> pyval \<Rightarrow> bool option" where
  "filter_decides stack tags f =
     (if \<not> py_startswith (fst f) ''tag:'' then None
      else (case dict_get tags (PStr (drop 4 (fst f))) of
        None \<Rightarrow> if stack then Some False else None
      | Some v \<Rightarrow>
          (case snd f of
             PList vs \<Rightarrow> if stack \<and> v \<notin> set vs then Some False
                         else if \<not> stack \<and> v \<in> set vs then Some True else None
           | PStr s \<Rightarrow> if stack \<and> v \<noteq> PStr s then Some False
                       else if \<not> stack \<and> v = PStr s then Some True else None
           | _ \<Rightarrow> None)))"

primrec first_decision :: "('a \<Rightarrow> bool option) \<Rightarrow> bool \<Rightarrow> 'a list \<Rightarrow> bool" where
  "first_decision f def [] = def"
| "first_decision f def (x # xs) = (case f x of Some b \<Rightarrow> b | None \<Rightarrow> first_decision f def xs)"

definition tags_match_filters :: "bool \<Rightarrow> (string, pyval) dict list \<Rightarrow> (pyval, pyval) dict \<Rightarrow> bool" where
  "tags_match_filters stack filters tags =
     (if filters = [] then True
      else first_decision (filter_decides stack tags) stack (concat filters))"

end
