(* ===== verification/Ec2Region.thy ===== *)
theory Ec2Region
  imports Ec2Api
begin

text \<open>
  The queries of ops/ansible/ec2.py for one region, and the loop over all of them: the EC2 instances with
  their tags, the RDS instances page by page, the RDS clusters, the ElastiCache clusters and
  replication groups, and the Route53 records.
\<close>

section \<open>EC2 instances\<close>

definition fetch_reservations :: "settings \<Rightarrow> cloud \<Rightarrow> string \<Rightarrow> pyval list res" where
  "fetch_reservations st cl region =
     (if st_instance_filters st = [] then cl_all_instances cl region None
      else if st_stack_filters st then
        cl_all_instances cl region (Some (foldl dict_update [] (st_instance_filters st)))
      else bind_res (map_res (\<lambda>f. cl_all_instances cl region (Some f)) (st_instance_filters st))
             (\<lambda>rs. Inr (concat rs)))"

definition max_filter_value :: nat where
  "max_filter_value = 199"

text \<open>\<open>for i in range(0, len(ids), n): ids[i:i + n]\<close>\<close>

definition chunks :: "nat \<Rightarrow> 'a list \<Rightarrow> 'a list list" where
  "chunks n xs = map (\<lambda>i. take n (drop (i * n) xs)) [0..<(length xs + n - 1) div n]"

definition reservation_instances :: "pyval \<Rightarrow> pyval list res" where
  "reservation_instances r = bind_res (py_getattr r ''instances'') py_elements"

definition instance_ids :: "pyval list \<Rightarrow> pyval list res" where
  "instance_ids reservations =
     bind_res (map_res (\<lambda>r. bind_res (reservation_instances r) (map_res (\<lambda>i. py_getattr i ''id'')))
       reservations) (\<lambda>is. Inr (concat is))"

definition fetch_tags :: "cloud \<Rightarrow> string \<Rightarrow> pyval list \<Rightarrow> tag list res" where
  "fetch_tags cl region ids =
     bind_res (map_res (cl_all_tags cl region) (chunks max_filter_value ids)) (\<lambda>ts. Inr (concat ts))"

text \<open>\<open>tags_by_instance_id[i]\<close> of the \<open>defaultdict\<close> built from all tags\<close>

definition tags_of_instance :: "tag list \<Rightarrow> pyval \<Rightarrow> (pyval, pyval) dict" where
  "tags_of_instance tags i =
     foldl (\<lambda>d t. dict_set d (PStr (tag_name t)) (tag_value t)) [] (filter (\<lambda>t. tag_res_id t = i) tags)"

definition set_attr :: "string \<Rightarrow> pyval \<Rightarrow> pyval \<Rightarrow> pyval" where
  "set_attr name x v = (case v of PObj attrs props \<Rightarrow> PObj (dict_set attrs name x) props | _ \<Rightarrow> v)"

definition remember_account :: "pyval list \<Rightarrow> ec2" where
  "remember_account reservations =
     py_bind (py_gets ei_aws_account_id) (\<lambda>a.
       case reservations of
         [] \<Rightarrow> py_return ()
       | r # rs \<Rightarrow> py_when (\<not> truthy a)
           (py_bind (py_lift (py_getattr r ''owner_id'')) (\<lambda>owner.
              py_modify (\<lambda>s. s\<lparr>ei_aws_account_id := owner\<rparr>))))"

definition add_tagged_instance :: "settings \<Rightarrow> tag list \<Rightarrow> string \<Rightarrow> pyval \<Rightarrow> ec2" where
  "add_tagged_instance st tags region inst =
     py_bind (py_lift (py_getattr inst ''id'')) (\<lambda>i.
       add_instance st (set_attr ''tags'' (PDict (tags_of_instance tags i)) inst) region)"

definition add_reservations :: "settings \<Rightarrow> tag list \<Rightarrow> string \<Rightarrow> pyval list \<Rightarrow> ec2" where
  "add_reservations st tags region reservations =
     py_for reservations (\<lambda>r.
       py_bind (py_lift (reservation_instances r)) (\<lambda>is. py_for is (add_tagged_instance st tags region)))"

definition query_instances :: "settings \<Rightarrow> cloud \<Rightarrow> string \<Rightarrow> ec2" where
  "query_instances st cl region =
     py_block
       [connect st cl region,
        py_bind (py_lift (fetch_reservations st cl region)) (\<lambda>reservations.
        py_bind (py_lift (instance_ids reservations)) (\<lambda>ids.
        py_bind (py_lift (fetch_tags cl region ids)) (\<lambda>tags.
        py_block
          [remember_account reservations,
           add_reservations st tags region reservations])))]"

definition get_instances_by_region :: "settings \<Rightarrow> cloud \<Rightarrow> string \<Rightarrow> ec2" where
  "get_instances_by_region st cl region =
     py_except (query_instances st cl region) is_boto_error (instances_error st cl)"

section \<open>RDS instances\<close>

definition resource_tags :: "cloud \<Rightarrow> string \<Rightarrow> pyval \<Rightarrow> (pyval, pyval) dict res" where
  "resource_tags cl region arn =
     bind_res (cl_resource_tags cl region arn) (\<lambda>response.
     bind_res (py_key response ''TagList'') (\<lambda>tag_list.
     bind_res (py_elements tag_list) (\<lambda>tags.
       fold_res (\<lambda>tag d.
         bind_res (py_key tag ''Key'') (\<lambda>k. bind_res (py_key tag ''Value'') (\<lambda>v. Inr (dict_set d k v)))) [] tags)))"

definition db_arn :: "pyval \<Rightarrow> nat \<Rightarrow> pyval res" where
  "db_arn db_instances index =
     bind_res (py_key db_instances ''DBInstances'') (\<lambda>dbs.
     bind_res (py_item dbs (PInt (int index))) (\<lambda>db. py_key db ''DBInstanceArn''))"

definition add_tagged_rds :: "settings \<Rightarrow> cloud \<Rightarrow> string \<Rightarrow> pyval \<Rightarrow> nat \<times> pyval \<Rightarrow> ec2" where
  "add_tagged_rds st cl region db_instances ii =
     py_bind (py_lift (db_arn db_instances (fst ii))) (\<lambda>arn.
     py_bind (py_lift (resource_tags cl region arn)) (\<lambda>tags.
       py_when (tags_match_filters (st_stack_filters st) (st_instance_filters st) tags)
         (add_rds_instance st (set_attr ''tags'' (PDict tags) (set_attr ''arn'' arn (snd ii))) region)))"

primrec rds_pages :: "settings \<Rightarrow> cloud \<Rightarrow> string \<Rightarrow> pyval \<Rightarrow> nat \<Rightarrow> pyval \<Rightarrow> ec2" where
  "rds_pages st cl region db_instances 0 marker = py_raise NotReturned"
| "rds_pages st cl region db_instances (Suc fuel) marker =
     py_bind (py_lift (cl_db_page cl region marker)) (\<lambda>(instances, next_marker).
     py_block
       [py_for (zip [0..<length instances] instances) (add_tagged_rds st cl region db_instances),
        py_when (truthy next_marker) (rds_pages st cl region db_instances fuel next_marker)])"

definition get_rds_instances_by_region :: "nat \<Rightarrow> settings \<Rightarrow> cloud \<Rightarrow> string \<Rightarrow> ec2" where
  "get_rds_instances_by_region fuel st cl region =
     py_block
       [py_when (\<not> cl_has_boto3 cl)
          (fail_with_error ''Working with RDS instances requires boto3 - please install boto3 and try again''
            (Some ''getting RDS instances'')),
        py_bind (py_gets ei_credentials) (\<lambda>args. py_lift (cl_boto3 cl region args)),
        py_bind (py_lift (cl_describe_db_instances cl region)) (\<lambda>db_instances.
          py_except
            (py_block
              [connect_to_aws st cl ''rds'' region,
               rds_pages st cl region db_instances fuel PNone])
            is_boto_error (rds_error cl))]"

section \<open>RDS clusters\<close>

text \<open>\<open>x in c\<close> for a list or a string.\<close>

definition py_in :: "pyval \<Rightarrow> pyval \<Rightarrow> bool res" where
  "py_in x c = (case c of
     PList xs \<Rightarrow> Inr (x \<in> set xs)
   | PStr s \<Rightarrow> (case x of PStr p \<Rightarrow> Inr (py_contains p s) | _ \<Rightarrow> Inl TypeError)
   | _ \<Rightarrow> Inl TypeError)"

primrec py_any :: "('a \<Rightarrow> bool res) \<Rightarrow> 'a list \<Rightarrow> bool res" where
  "py_any f [] = Inr False"
| "py_any f (x # xs) = bind_res (f x) (\<lambda>b. if b then Inr True else py_any f xs)"

text \<open>The two loops with their breaks stop at the first filter that matches.\<close>

definition cluster_filter_matches :: "pyval list \<Rightarrow> string \<times> pyval \<Rightarrow> bool res" where
  "cluster_filter_matches tags f =
     (if CHR '':'' \<notin> set (fst f) then Inl IndexError
      else py_any (\<lambda>d.
        bind_res (py_key d ''Key'') (\<lambda>k.
          if k = PStr (py_split1 CHR '':'' (fst f) ! 1)
          then bind_res (py_key d ''Value'') (\<lambda>v. py_in v (snd f)) else Inr False)) tags)"

definition dict_del_key :: "string \<Rightarrow> pyval \<Rightarrow> pyval" where
  "dict_del_key k v = (case v of PDict d \<Rightarrow> PDict (dict_del d (PStr k)) | _ \<Rightarrow> v)"

definition dict_set_key :: "string \<Rightarrow> pyval \<Rightarrow> pyval \<Rightarrow> pyval" where
  "dict_set_key k x v = (case v of PDict d \<Rightarrow> PDict (dict_set d (PStr k) x) | _ \<Rightarrow> v)"

definition cluster_tags :: "cloud \<Rightarrow> string \<Rightarrow> string \<Rightarrow> pyval \<Rightarrow> pyval res" where
  "cluster_tags cl region account_id c =
     bind_res (py_key c ''DBClusterIdentifier'') (\<lambda>i.
     bind_res (py_add (''arn:aws:rds:'' @ region @ '':'' @ account_id @ '':cluster:'') i) (\<lambda>arn.
     bind_res (cl_resource_tags cl region (PStr arn)) (\<lambda>tags. py_key tags ''TagList'')))"

text \<open>
  The body of the \<open>try\<close>, with the cluster as it is left and whether it matches.  The handler reads
  \<open>e.message\<close>, which only a boto error has; for any other exception that read raises.
\<close>

definition tag_cluster :: "settings \<Rightarrow> cloud \<Rightarrow> string \<Rightarrow> string \<Rightarrow> pyval \<Rightarrow> (pyval \<times> bool) res" where
  "tag_cluster st cl region account_id c =
     (let handled = (\<lambda>e c. if is_boto_error e then Inr (c, st_instance_filters st = []) else Inl AttributeError)
      in case cluster_tags cl region account_id c of
        Inl e \<Rightarrow> handled e c
      | Inr tag_list \<Rightarrow>
          let c = dict_set_key ''Tags'' tag_list c in
          if st_instance_filters st = [] then Inr (c, True)
          else (case bind_res (py_elements tag_list) (\<lambda>tags.
                  py_any (cluster_filter_matches tags) (concat (st_instance_filters st))) of
            Inl e \<Rightarrow> handled e c
          | Inr m \<Rightarrow> Inr (c, m)))"

definition collect_cluster ::
  "settings \<Rightarrow> cloud \<Rightarrow> string \<Rightarrow> string \<Rightarrow> pyval \<Rightarrow> (pyval, pyval) dict \<Rightarrow> (pyval, pyval) dict res"
where
  "collect_cluster st cl region account_id c0 d =
     bind_res (py_has_key c0 ''EarliestRestorableTime'') (\<lambda>_.
     let c1 = dict_del_key ''LatestRestorableTime'' (dict_del_key ''EarliestRestorableTime'' c0) in
     bind_res (tag_cluster st cl region account_id c1) (\<lambda>(c, matches_filter).
     bind_res (bind_res (py_key c ''DBClusterMembers'') py_len) (\<lambda>n.
       if n = 0 \<or> \<not> matches_filter then Inr d
       else bind_res (py_key c ''DBClusterIdentifier'') (\<lambda>i. Inr (dict_set d i c)))))"

primrec cluster_pages :: "cloud \<Rightarrow> string \<Rightarrow> nat \<Rightarrow> pyval \<Rightarrow> pyval list \<Rightarrow> pyval list res" where
  "cluster_pages cl region 0 marker clusters = Inl NotReturned"
| "cluster_pages cl region (Suc fuel) marker clusters =
     (if marker = PNone then Inr clusters
      else bind_res (cl_describe_db_clusters cl region marker) (\<lambda>resp.
           bind_res (bind_res (py_key resp ''DBClusters'') py_elements) (\<lambda>page.
           bind_res (py_get resp ''Marker'') (\<lambda>m. cluster_pages cl region fuel m (clusters @ page)))))"

definition account_of_arn :: "string \<Rightarrow> string res" where
  "account_of_arn arn =
     (let parts = py_split CHR '':'' arn in if 4 < length parts then Inr (parts ! 4) else Inl IndexError)"

definition include_rds_clusters_by_region :: "nat \<Rightarrow> settings \<Rightarrow> cloud \<Rightarrow> string \<Rightarrow> ec2" where
  "include_rds_clusters_by_region fuel st cl region =
     py_block
       [py_when (\<not> cl_has_boto3 cl)
          (fail_with_error ''Working with RDS clusters requires boto3 - please install boto3 and try again''
            (Some ''getting RDS clusters'')),
        py_bind (py_gets ei_credentials) (\<lambda>args. py_lift (cl_boto3 cl region args)),
        py_bind (py_lift (cluster_pages cl region fuel (PStr []) [])) (\<lambda>clusters.
        py_bind (py_lift (bind_res (cl_account_arn cl) account_of_arn)) (\<lambda>account_id.
        py_bind (py_lift (fold_res (collect_cluster st cl region account_id) [] clusters)) (\<lambda>c_dict.
          set_item (PStr ''db_clusters'') (PDict c_dict))))]"

section \<open>ElastiCache\<close>

definition key_error_as :: "string \<Rightarrow> pyval res \<Rightarrow> (ec2_state, pyval) py" where
  "key_error_as msg r =
     py_except (py_lift r) (\<lambda>e. e = KeyError)
       (\<lambda>_. fail_with_error msg (Some ''getting ElastiCache clusters''))"

definition cache_clusters_in :: "pyval \<Rightarrow> pyval res" where
  "cache_clusters_in response =
     bind_res (py_key response ''DescribeCacheClustersResponse'') (\<lambda>v.
     bind_res (py_key v ''DescribeCacheClustersResult'') (\<lambda>w. py_key w ''CacheClusters''))"

definition replication_groups_in :: "pyval \<Rightarrow> pyval res" where
  "replication_groups_in response =
     bind_res (py_key response ''DescribeReplicationGroupsResponse'') (\<lambda>v.
     bind_res (py_key v ''DescribeReplicationGroupsResult'') (\<lambda>w. py_key w ''ReplicationGroups''))"

definition get_elasticache_clusters_by_region :: "settings \<Rightarrow> cloud \<Rightarrow> string \<Rightarrow> ec2" where
  "get_elasticache_clusters_by_region st cl region =
     py_bind (py_except
         (py_bind (connect_to_aws st cl ''elasticache'' region) (\<lambda>_. py_lift (cl_describe_cache_clusters cl region)))
         is_boto_error (\<lambda>e. py_bind (elasticache_error cl e) (\<lambda>_. py_raise UnboundLocalError))) (\<lambda>response.
     py_bind (key_error_as ''ElastiCache query to AWS failed (unexpected format).''
         (cache_clusters_in response)) (\<lambda>v.
     py_bind (py_lift (py_elements v)) (\<lambda>clusters.
       py_for clusters (\<lambda>c. add_elasticache_cluster st c region))))"

definition get_elasticache_replication_groups_by_region :: "settings \<Rightarrow> cloud \<Rightarrow> string \<Rightarrow> ec2" where
  "get_elasticache_replication_groups_by_region st cl region =
     py_bind (py_except
         (py_bind (connect_to_aws st cl ''elasticache'' region)
           (\<lambda>_. py_lift (cl_describe_replication_groups cl region)))
         is_boto_error (\<lambda>e. py_bind (replication_error cl e) (\<lambda>_. py_raise UnboundLocalError))) (\<lambda>response.
     py_bind (key_error_as ''ElastiCache [Replication Groups] query to AWS failed (unexpected format).''
         (replication_groups_in response)) (\<lambda>v.
     py_bind (py_lift (py_elements v)) (\<lambda>groups.
       py_for groups (\<lambda>g. add_elasticache_replication_group st g region))))"

section \<open>Route53\<close>

definition route53_zones :: "settings \<Rightarrow> (string \<times> string) list \<Rightarrow> (string \<times> string) list" where
  "route53_zones st zones = filter (\<lambda>z. butlast (fst z) \<notin> set (st_route53_excluded_zones st)) zones"

definition record_name :: "string \<Rightarrow> string" where
  "record_name n = (if py_endswith n ''.'' then butlast n else n)"

definition add_record ::
  "(pyval, string set) dict \<Rightarrow> pyval \<times> string \<Rightarrow> (pyval, string set) dict"
where
  "add_record d rn =
     dict_set d (fst rn) (insert (snd rn) (case dict_get d (fst rn) of None \<Rightarrow> {} | Some ns \<Rightarrow> ns))"

definition zone_records :: "(string \<times> pyval list) list \<Rightarrow> (pyval \<times> string) list" where
  "zone_records rrsets = concat (map (\<lambda>r. map (\<lambda>x. (x, record_name (fst r))) (snd r)) rrsets)"

definition get_route53_records :: "settings \<Rightarrow> cloud \<Rightarrow> ec2" where
  "get_route53_records st cl =
     py_bind (py_lift (cl_zones cl)) (\<lambda>all_zones.
     py_block
       [py_modify (\<lambda>s. s\<lparr>ei_route53_records := Some []\<rparr>),
        py_for (route53_zones st all_zones) (\<lambda>z.
          py_bind (py_lift (cl_rrsets cl (snd z))) (\<lambda>rrsets.
            py_modify (\<lambda>s. s\<lparr>ei_route53_records :=
              map_option (\<lambda>d. foldl add_record d (zone_records rrsets)) (ei_route53_records s)\<rparr>)))])"

section \<open>All regions\<close>

definition query_region :: "nat \<Rightarrow> settings \<Rightarrow> cloud \<Rightarrow> string \<Rightarrow> ec2" where
  "query_region fuel st cl region =
     py_block
       [get_instances_by_region st cl region,
        py_when (st_rds_enabled st) (get_rds_instances_by_region fuel st cl region),
        py_when (st_elasticache_enabled st) (py_block
          [get_elasticache_clusters_by_region st cl region,
           get_elasticache_replication_groups_by_region st cl region]),
        py_when (st_include_rds_clusters st) (include_rds_clusters_by_region fuel st cl region)]"

definition do_api_calls :: "nat \<Rightarrow> settings \<Rightarrow> cloud \<Rightarrow> ec2" where
  "do_api_calls fuel st cl =
     py_block
       [py_when (st_route53_enabled st) (get_route53_records st cl),
        py_for (st_regions st) (query_region fuel st cl)]"

end
