(* ===== verification/Ec2RegionInv.thy ===== *)
theory Ec2RegionInv
  imports Ec2Region InventoryInv
begin

text \<open>
  What the region queries of ops/ansible/ec2.py guarantee: the tag filters against a declarative reading,
  the tags fetched in chunks against one query, the instances that end up in the inventory, the
  invariant over a whole refresh, the ARNs of the RDS pages, and the error reports.
\<close>

section \<open>Tag filters\<close>

definition tag_filters :: "(string, pyval) dict list \<Rightarrow> (string \<times> pyval) list" where
  "tag_filters filters = filter (\<lambda>f. py_startswith (fst f) ''tag:'') (concat filters)"

text \<open>The tag that the filter names is there and its value is the wanted one, or one of the wanted.\<close>

definition tag_holds :: "(pyval, pyval) dict \<Rightarrow> string \<times> pyval \<Rightarrow> bool" where
  "tag_holds tags f \<longleftrightarrow> (case dict_get tags (PStr (drop 4 (fst f))) of
     None \<Rightarrow> False
   | Some v \<Rightarrow> (case snd f of PStr s \<Rightarrow> v = PStr s | PList vs \<Rightarrow> v \<in> set vs | _ \<Rightarrow> False))"

definition filter_value :: "pyval \<Rightarrow> bool" where
  "filter_value v \<longleftrightarrow> (case v of PStr s \<Rightarrow> True | PList vs \<Rightarrow> True | _ \<Rightarrow> False)"

lemma first_decision_iff:
  "\<forall>x \<in> set xs. f x = None \<or> f x = Some (\<not> d) \<Longrightarrow>
   first_decision f d xs \<longleftrightarrow> (if d then \<forall>x \<in> set xs. f x = None else \<exists>x \<in> set xs. f x \<noteq> None)"
  by (induction xs) (cases d, auto split: option.splits)

lemma filter_decides_iff:
  assumes "filter_value (snd f)"
  shows "filter_decides stack tags f = (if py_startswith (fst f) ''tag:'' \<and> tag_holds tags f \<noteq> stack
     then Some (\<not> stack) else None)"
  using assms by (auto simp: filter_decides_def tag_holds_def filter_value_def split: option.splits pyval.splits)

text \<open>
  C27. \<open>tags_match_filters\<close> agrees with the declarative reading of the filters: without filters every
  instance matches; stacked, all filters on tags must hold; otherwise one of them must.  In particular
  a configuration that only filters on something else than tags lets no RDS instance through.
\<close>

theorem tags_match_filters_reference:
  assumes "\<forall>f \<in> set (concat filters). filter_value (snd f)"
  shows "tags_match_filters stack filters tags \<longleftrightarrow> filters = [] \<or>
    (if stack then \<forall>f \<in> set (tag_filters filters). tag_holds tags f
     else \<exists>f \<in> set (tag_filters filters). tag_holds tags f)"
proof (cases "filters = []")
  case False
  define fs where "fs = concat filters"
  have dec: "f \<in> set fs \<Longrightarrow> filter_decides stack tags f = (if py_startswith (fst f) ''tag:'' \<and>
      tag_holds tags f \<noteq> stack then Some (\<not> stack) else None)" for f
    using assms filter_decides_iff unfolding fs_def by blast
  then have none: "f \<in> set fs \<Longrightarrow> filter_decides stack tags f = None \<longleftrightarrow>
      \<not> py_startswith (fst f) ''tag:'' \<or> tag_holds tags f = stack" for f by simp
  have tf: "set (tag_filters filters) = {f \<in> set fs. py_startswith (fst f) ''tag:''}"
    by (simp add: tag_filters_def fs_def)
  have "tags_match_filters stack filters tags = first_decision (filter_decides stack tags) stack fs"
    using False by (simp add: tags_match_filters_def fs_def)
  also have "\<dots> = (if stack then \<forall>f \<in> set fs. filter_decides stack tags f = None
      else \<exists>f \<in> set fs. filter_decides stack tags f \<noteq> None)"
    by (rule first_decision_iff) (simp add: dec)
  also have "\<dots> = (if stack then \<forall>f \<in> set (tag_filters filters). tag_holds tags f
     else \<exists>f \<in> set (tag_filters filters). tag_holds tags f)"
  proof (cases stack)
    case True
    then have "(\<forall>f \<in> set fs. filter_decides stack tags f = None) \<longleftrightarrow> (\<forall>f \<in> set (tag_filters filters). tag_holds tags f)"
      using none unfolding tf by blast
    with True show ?thesis by simp
  next
    case False
    have "f \<in> set fs \<and> filter_decides stack tags f \<noteq> None \<longleftrightarrow> f \<in> set (tag_filters filters) \<and> tag_holds tags f" for f
      using none [of f] False unfolding tf mem_Collect_eq by (cases "f \<in> set fs") simp_all
    then have "(\<exists>f \<in> set fs. filter_decides stack tags f \<noteq> None) \<longleftrightarrow> (\<exists>f \<in> set (tag_filters filters). tag_holds tags f)"
      by (simp only: Bex_def)
    with False show ?thesis by simp
  qed
  finally show ?thesis using False by simp
qed (simp add: tags_match_filters_def)

theorem tags_match_filters_reference_witness:
  "tags_match_filters True [[(''tag:env'', PStr ''prod''), (''instance-type'', PStr ''t2'')]]
     [(PStr ''env'', PStr ''prod'')] \<and>
   \<not> tags_match_filters False [[(''instance-type'', PStr ''t2'')]] [(PStr ''env'', PStr ''prod'')]"
  using tags_match_filters_reference [of "[[(''tag:env'', PStr ''prod''), (''instance-type'', PStr ''t2'')]]"
      True "[(PStr ''env'', PStr ''prod'')]"]
    tags_match_filters_reference [of "[[(''instance-type'', PStr ''t2'')]]" False "[(PStr ''env'', PStr ''prod'')]"]
  by (simp add: filter_value_def tag_filters_def tag_holds_def py_startswith_def dict_get_def)

section \<open>Tags in chunks\<close>

lemma chunks_Nil [simp]: "chunks n [] = []"
  by (cases n) (simp_all add: chunks_def)

lemma chunks_step:
  assumes "0 < n" and "xs \<noteq> []"
  shows "chunks n xs = take n xs # chunks n (drop n xs)"
proof -
  let ?k = "\<lambda>m. (m + n - 1) div n"
  have k: "?k (length xs) = Suc (?k (length xs - n))"
  proof (cases "length xs \<le> n")
    case True
    moreover have "(length xs + n - 1) div n = 1"
      using True assms by (intro div_nat_eqI) (auto simp: Suc_le_eq neq_Nil_conv)
    ultimately show ?thesis using assms by simp
  next
    case False
    then have "length xs + n - 1 = length xs - n + n - 1 + n" using assms(1) by simp
    with assms(1) show ?thesis by (simp only: div_add_self2)
  qed
  have "map (\<lambda>i. take n (drop (i * n) xs)) [0..<Suc m] =
      take n xs # map (\<lambda>i. take n (drop (i * n) (drop n xs))) [0..<m]" for m
    by (simp only: upt_conv_Cons zero_less_Suc list.map map_Suc_upt [symmetric] map_map comp_def) (simp add: ac_simps)
  then show ?thesis by (simp only: chunks_def k length_drop)
qed

lemma chunks_concat: "0 < n \<Longrightarrow> concat (chunks n xs) = xs"
proof (induction xs rule: length_induct)
  case (1 xs)
  then show ?case by (cases "xs = []") (simp_all add: chunks_step)
qed

lemma chunks_length: "c \<in> set (chunks n xs) \<Longrightarrow> length c \<le> n"
  by (auto simp: chunks_def)

lemma filter_chunked:
  assumes "distinct (concat css)" and "i \<in> set (concat css)"
  shows "filter (\<lambda>t. r t = i) (concat (map (\<lambda>cs. filter (\<lambda>t. r t \<in> set cs) ts) css)) = filter (\<lambda>t. r t = i) ts"
  using assms
proof (induction css)
  case (Cons cs css)
  have none: "filter (\<lambda>t. r t = i) (concat (map (\<lambda>cs. filter (\<lambda>t. r t \<in> set cs) ts) css)) = []"
    if "i \<notin> set (concat css)" using that by (auto simp: filter_empty_conv)
  show ?case
  proof (cases "i \<in> set cs")
    case True
    with Cons.prems have "i \<notin> set (concat css)" by auto
    moreover have "filter (\<lambda>t. r t \<in> set cs \<and> r t = i) ts = filter (\<lambda>t. r t = i) ts"
      using True by (intro filter_cong) auto
    ultimately show ?thesis by (simp add: none)
  next
    case False
    then have "filter (\<lambda>t. r t \<in> set cs \<and> r t = i) ts = []" by (auto simp: filter_empty_conv)
    with False Cons show ?thesis by simp
  qed
qed simp

text \<open>
  C28. Fetching the tags in chunks of at most 199 ids is the same as one query for all: the requests
  are the ids in order, none too long, and when \<open>get_all_tags\<close> answers with the tags of the resources
  asked for, every instance gets exactly its own tags.
\<close>

theorem tags_fetched_in_chunks:
  assumes "\<And>ids. cl_all_tags cl region ids = Inr (filter (\<lambda>t. tag_res_id t \<in> set ids) ts)"
    and "distinct ids"
  shows "concat (chunks max_filter_value ids) = ids \<and>
    list_all (\<lambda>c. length c \<le> 199) (chunks max_filter_value ids) \<and>
    (\<exists>tags. fetch_tags cl region ids = Inr tags \<and>
      list_all (\<lambda>i. tags_of_instance tags i = tags_of_instance ts i) ids)"
proof -
  let ?cs = "chunks max_filter_value ids"
  have cs: "concat ?cs = ids" by (rule chunks_concat) (simp add: max_filter_value_def)
  have "map_res (cl_all_tags cl region) ?cs = Inr (map (\<lambda>c. filter (\<lambda>t. tag_res_id t \<in> set c) ts) ?cs)"
    by (rule map_res_all_Inr) (rule assms(1))
  then have "fetch_tags cl region ids = Inr (concat (map (\<lambda>c. filter (\<lambda>t. tag_res_id t \<in> set c) ts) ?cs))"
    by (simp add: fetch_tags_def)
  moreover have "tags_of_instance (concat (map (\<lambda>c. filter (\<lambda>t. tag_res_id t \<in> set c) ts) ?cs)) i =
      tags_of_instance ts i" if "i \<in> set ids" for i
    using filter_chunked [of ?cs i tag_res_id ts] that cs assms(2) by (simp add: tags_of_instance_def)
  moreover have "list_all (\<lambda>c. length c \<le> 199) ?cs"
    using chunks_length [of _ max_filter_value ids] by (auto simp: list_all_iff max_filter_value_def)
  ultimately show ?thesis using cs by (simp add: list_all_iff)
qed

definition sample_tags :: "tag list" where
  "sample_tags = [\<lparr>tag_res_id = PStr ''i-1'', tag_name = ''role'', tag_value = PStr ''web''\<rparr>]"

definition sample_cloud :: cloud where
  "sample_cloud = \<lparr>cl_profile_token = (\<lambda>_. None), cl_connect = (\<lambda>_ _ _. Inr True),
     cl_connect_euca = (\<lambda>_. Inr ()), cl_assume_role = (\<lambda>_ _. Inl AttributeError),
     cl_all_instances = (\<lambda>_ _. Inr [PObj [(''instances'', PList [sample_instance]), (''owner_id'', PStr ''7'')] []]),
     cl_all_tags = (\<lambda>_ ids. Inr (filter (\<lambda>t. tag_res_id t \<in> set ids) sample_tags)),
     cl_has_boto3 = True, cl_boto3 = (\<lambda>_ _. Inr ()), cl_describe_db_instances = (\<lambda>_. Inl KeyError),
     cl_db_page = (\<lambda>_ _. Inr ([], PNone)), cl_resource_tags = (\<lambda>_ _. Inl KeyError),
     cl_describe_db_clusters = (\<lambda>_ _. Inl KeyError), cl_account_arn = Inl KeyError,
     cl_describe_cache_clusters = (\<lambda>_. Inl (BotoServerError ''AuthFailure'' ''Unauthorized'' ''no'')),
     cl_describe_replication_groups = (\<lambda>_. Inl (BotoServerError ''AuthFailure'' ''Unauthorized'' ''no'')),
     cl_zones = Inr [], cl_rrsets = (\<lambda>_. Inr []), cl_environ = (\<lambda>_. None), cl_isfile = (\<lambda>_. False)\<rparr>"

theorem tags_fetched_in_chunks_witness:
  "\<exists>tags. fetch_tags sample_cloud ''eu'' [PStr ''i-1'', PStr ''i-2''] = Inr tags \<and>
     tags_of_instance tags (PStr ''i-1'') = [(PStr ''role'', PStr ''web'')] \<and>
     tags_of_instance tags (PStr ''i-2'') = []"
proof -
  have "tags_of_instance sample_tags (PStr ''i-1'') = [(PStr ''role'', PStr ''web'')]"
    "tags_of_instance sample_tags (PStr ''i-2'') = []"
    by (simp_all add: tags_of_instance_def sample_tags_def)
  then show ?thesis
    using tags_fetched_in_chunks [of sample_cloud "''eu''" sample_tags "[PStr ''i-1'', PStr ''i-2'']"]
    by (auto simp: sample_cloud_def)
qed

section \<open>The instances of a region\<close>

text \<open>
  What \<open>add_instance\<close> decides before it touches anything: the name and the address under which it
  will register the instance, or \<open>None\<close> when it skips it.
\<close>

definition registered_name :: "settings \<Rightarrow> pyval \<Rightarrow> (ec2_state, (pyval \<times> pyval) option) py" where
  "registered_name st inst =
     py_bind (py_lift (attr inst ''state'')) (\<lambda>state.
     if state \<notin> PStr ` set (st_ec2_instance_states st) then py_return None else
     py_bind (py_lift (instance_dest st inst)) (\<lambda>dest.
     if \<not> truthy dest then py_return None else
     py_bind (py_lift (hostname_from_variable st inst)) (\<lambda>h0.
     py_bind (route53_hostname st inst h0) (\<lambda>h1.
     py_bind (py_lift (final_hostname st h1 dest)) (\<lambda>hostname.
     py_bind (py_lift (pattern_rejects st hostname)) (\<lambda>rejected.
       py_return (if rejected then None else Some (hostname, dest))))))))"

lemma py_bind_if: "py_bind (if b then m else m') f = (if b then py_bind m f else py_bind m' f)"
  by simp

lemma case_name_if:
  "(case if b then None else Some (x, y) of None \<Rightarrow> m | Some (h, d) \<Rightarrow> f h d) = (if b then m else f x y)"
  by simp

lemma add_instance_alt:
  "add_instance st inst r = py_bind (registered_name st inst) (\<lambda>n.
     case n of None \<Rightarrow> py_return ()
     | Some (hostname, dest) \<Rightarrow> py_bind (py_lift (attr inst ''id'')) (\<lambda>i.
         py_block [add_to_index hostname r i, instance_groups st inst r i hostname,
           publish_host st ''ec2'' inst hostname dest]))"
  by (simp only: add_instance_def registered_name_def py_bind_assoc py_bind_if py_bind_simps option.case
      case_name_if)

text \<open>Naming an instance reads the Route53 records and nothing else.\<close>

definition only_reads :: "('s \<Rightarrow> 'r) \<Rightarrow> ('s, 'a) py \<Rightarrow> bool" where
  "only_reads g m \<longleftrightarrow> (\<forall>s s0. g s = g s0 \<longrightarrow> m s = (fst (m s0), s))"

lemma only_reads_bind: "only_reads g m \<Longrightarrow> (\<And>x. only_reads g (f x)) \<Longrightarrow> only_reads g (py_bind m f)"
proof -
  assume m: "only_reads g m" and f: "\<And>x. only_reads g (f x)"
  have "py_bind m f s = (fst (py_bind m f s0), s)" if "g s = g s0" for s s0
  proof -
    from m that obtain r where r: "m s0 = (r, s0)" "m s = (r, s)"
      unfolding only_reads_def by metis
    have fx: "f x s = (fst (f x s0), s)" for x using f that unfolding only_reads_def by blast
    show ?thesis
    proof (cases r)
      case (Inr x)
      then have "py_bind m f s = f x s" "py_bind m f s0 = f x s0" by (simp_all add: py_bind_def r)
      then show ?thesis by (simp only: fx [of x])
    qed (simp add: py_bind_def r)
  qed
  then show ?thesis unfolding only_reads_def by blast
qed

lemma only_reads_rules:
  "only_reads g (py_return x)" "only_reads g (py_lift r)" "only_reads g (py_raise e)" "only_reads g (py_gets g)"
  by (simp_all add: only_reads_def py_defs)

lemma only_reads_if: "only_reads g m \<Longrightarrow> only_reads g m' \<Longrightarrow> only_reads g (if b then m else m')"
  by simp

lemma only_reads_option:
  "only_reads g m \<Longrightarrow> (\<And>y. only_reads g (f y)) \<Longrightarrow> only_reads g (case x of None \<Rightarrow> m | Some y \<Rightarrow> f y)"
  by (cases x) simp_all

lemma registered_name_records:
  assumes "ei_route53_records s = ei_route53_records s0"
  shows "registered_name st inst s = (fst (registered_name st inst s0), s)"
proof -
  have "only_reads ei_route53_records (registered_name st inst)"
    unfolding registered_name_def route53_hostname_def get_instance_route53_names_def
    by (intro only_reads_bind only_reads_if only_reads_option only_reads_rules)
  with assms show ?thesis unfolding only_reads_def by blast
qed

named_theorems records_steps \<open>the steps that leave the Route53 records alone\<close>

definition records_are :: "(pyval, string set) dict option \<Rightarrow> ec2_state \<Rightarrow> bool" where
  "records_are r s \<longleftrightarrow> ei_route53_records s = r"

lemma on_inventory_records: "keeps (records_are r) (on_inventory f)"
  by (auto simp: keeps_def on_inventory_def records_are_def split: sum.splits)

lemma primitives_keep_records [records_steps]:
  "keeps (records_are r) (push k h)" "keeps (records_are r) (push_group k h)"
  "keeps (records_are r) (set_hostvars h info)" "keeps (records_are r) (set_item k v)"
  "keeps (records_are r) (add_to_index h r' i)" "keeps (records_are r) (fail_with_error m op)"
  unfolding push_def push_group_def set_hostvars_def
  by (rule on_inventory_records | rule fail_keeps |
      simp add: keeps_def set_item_def add_to_index_def py_modify_def records_are_def)+

lemma groups_keep_records [records_steps]:
  "keeps (records_are r) (group_host st p key h)" "keeps (records_are r) (group_by_id st i h)"
  "keeps (records_are r) (group_by_region st r' h)" "keeps (records_are r) (group_by_zone st r' z h)"
  "keeps (records_are r) (group_named st opt p pre v h)" "keeps (records_are r) (group_if_set st opt p pre v h)"
  unfolding group_by_id_def group_by_region_def group_by_zone_def group_if_set_def group_named_def group_host_def
  by (intro keeps_rules records_steps)+

lemma add_instance_records: "keeps (records_are r) (add_instance st inst r')"
  unfolding add_instance_def instance_groups_def group_by_ami_def group_by_type_def group_by_state_def
    group_by_platform_def group_by_security_groups_def group_by_account_def group_by_tags_def
    group_by_tag_value_def Let_def group_by_route53_def group_untagged_def publish_host_def
  by (intro keeps_rules records_steps route53_hostname_keeps route53_names_keeps)

definition listed :: "ec2_state \<Rightarrow> pyval \<Rightarrow> bool" where
  "listed s h \<longleftrightarrow> dict_get (ei_index s) h \<noteq> None \<and> h \<in> set (hosts_in (ei_inventory s) (PStr ''ec2''))"

text \<open>The instance has been registered under the name it has, unless it is skipped.\<close>

definition entered :: "settings \<Rightarrow> ec2_state \<Rightarrow> pyval \<Rightarrow> ec2_state \<Rightarrow> bool" where
  "entered st s0 inst s \<longleftrightarrow> (case fst (registered_name st inst s0) of
     Inl e \<Rightarrow> False
   | Inr None \<Rightarrow> True
   | Inr (Some (hostname, dest)) \<Rightarrow> listed s hostname)"

text \<open>The ids that cannot disturb the group of all instances or the host variables.\<close>

definition plain_ids :: "pyval set" where
  "plain_ids = {i. i \<noteq> PStr ''ec2'' \<and> i \<noteq> PStr ''_meta''}"

lemma entered_kept:
  assumes "id_in plain_ids (attr inst ''id'')"
  shows "keeps (\<lambda>s. good_inventory (ei_inventory s) \<and> entered st s0 inst' s) (add_instance st inst r)"
proof (rule keepsI)
  fix s assume s: "good_inventory (ei_inventory s) \<and> entered st s0 inst' s"
  let ?R = "\<lambda>d. \<forall>h. dict_get (ei_index s) h \<noteq> None \<longrightarrow> dict_get d h \<noteq> None"
  have "stable ?R" by (simp add: stable_def dict_get_set)
  from add_instance_keeps [OF this assms, of False "hosts_in (ei_inventory s)" "{}" st r]
  have "inv_ok False plain_ids (hosts_in (ei_inventory s)) ?R {} (snd (add_instance st inst r s))"
    by (rule keepsD) (use s in \<open>simp add: inv_ok_def inv.grown_def\<close>)
  then have "good_inventory (ei_inventory (snd (add_instance st inst r s)))"
    and "listed s h \<Longrightarrow> listed (snd (add_instance st inst r s)) h" for h
    by (fastforce simp: inv_ok_def inv.grown_def listed_def plain_ids_def dest: spec [of _ "PStr ''ec2''"])+
  with s show "good_inventory (ei_inventory (snd (add_instance st inst r s))) \<and>
      entered st s0 inst' (snd (add_instance st inst r s))"
    by (auto simp: entered_def split: sum.splits option.splits prod.splits)
qed

lemma add_instance_enters:
  assumes "id_in plain_ids (attr inst ''id'')" and "good_inventory (ei_inventory s)"
    and "records_are (ei_route53_records s0) s" and run: "add_instance st inst r s = (Inr (), s')"
  shows "entered st s0 inst s'"
proof -
  have name: "registered_name st inst s = (fst (registered_name st inst s0), s)"
    using assms(3) by (intro registered_name_records) (simp add: records_are_def)
  show ?thesis
  proof (cases "fst (registered_name st inst s0)")
    case (Inl e)
    then show ?thesis using run by (simp add: add_instance_alt py_bind_def name)
  next
    case (Inr n)
    show ?thesis
    proof (cases n)
      case (Some hd)
      then obtain h d where n: "n = Some (h, d)" by (cases hd) simp
      with Inr run obtain i where i: "attr inst ''id'' = Inr i"
        and body: "py_block [add_to_index h r i, instance_groups st inst r i h, publish_host st ''ec2'' inst h d] s
          = (Inr (), s')"
        by (auto simp: add_instance_alt py_bind_def [of "registered_name st inst"] py_bind_def [of "py_lift x" for x]
            py_lift_def name simp del: py_block.simps split: sum.splits)
      have "i \<in> plain_ids" "i \<noteq> PStr ''_meta''" using assms(1) i by (auto simp: id_in_def)
      from listed_after [OF inv_ok_start [OF assms(2)] instance_groups_keeps [OF this] body]
      show ?thesis by (simp add: entered_def Inr n listed_def)
    qed (simp add: entered_def Inr)
  qed
qed

text \<open>Connecting changes the credentials only, and remembering the account the account only.\<close>

definition same_hosts :: "ec2_state \<Rightarrow> ec2_state \<Rightarrow> bool" where
  "same_hosts s0 s \<longleftrightarrow> ei_inventory s = ei_inventory s0 \<and> ei_index s = ei_index s0 \<and>
     ei_route53_records s = ei_route53_records s0"

definition ignores_credentials :: "(ec2_state \<Rightarrow> bool) \<Rightarrow> bool" where
  "ignores_credentials P \<longleftrightarrow> (\<forall>s c. P s \<longrightarrow> P (s\<lparr>ei_credentials := c\<rparr>))"

lemma set_credential_keeps: "ignores_credentials P \<Longrightarrow> keeps P (set_credential k v)"
  by (simp add: set_credential_def keeps_modify ignores_credentials_def)

lemma connect_to_aws_keeps: "ignores_credentials P \<Longrightarrow> keeps P (connect_to_aws st cl m r)"
  unfolding connect_to_aws_def pass_profile_def boto_fix_security_token_in_profile_def assume_iam_role_def
    case_prod_beta
  by (intro keeps_rules set_credential_keeps fail_keeps)

lemma connect_keeps: "ignores_credentials P \<Longrightarrow> keeps P (connect st cl r)"
  unfolding connect_def by (intro keeps_rules connect_to_aws_keeps)

lemma remember_account_keeps:
  "(\<And>s a. P s \<Longrightarrow> P (s\<lparr>ei_aws_account_id := a\<rparr>)) \<Longrightarrow> keeps P (remember_account rs)"
  unfolding remember_account_def
  by (cases rs) (auto intro!: keeps_bind keeps_gets keeps_return keeps_when keeps_lift keeps_modify)

lemma attr_set_attr: "n \<noteq> m \<Longrightarrow> attr (set_attr m x v) n = attr v n"
  by (cases v) (simp_all add: attr_def py_getattr_def attr_of_def set_attr_def)

lemma map_res_mem: "map_res f xs = Inr ys \<Longrightarrow> x \<in> set xs \<Longrightarrow> \<exists>y \<in> set ys. f x = Inr y"
  by (induction xs arbitrary: ys) (auto simp: bind_res_eq_Inr)

lemma instance_ids_mem:
  assumes "instance_ids rs = Inr ids" "r \<in> set rs" "reservation_instances r = Inr is" "inst \<in> set is"
    and "py_getattr inst ''id'' = Inr i"
  shows "i \<in> set ids"
proof -
  from assms(1) obtain iss where iss: "ids = concat iss"
    "map_res (\<lambda>r. bind_res (reservation_instances r) (map_res (\<lambda>i. py_getattr i ''id''))) rs = Inr iss"
    by (auto simp: instance_ids_def bind_res_eq_Inr)
  from map_res_mem [OF iss(2) assms(2)] assms(3) obtain js where
    "js \<in> set iss" "map_res (\<lambda>i. py_getattr i ''id'') is = Inr js" by auto
  with map_res_mem [OF this(2) assms(4)] assms(5) iss(1) show ?thesis by auto
qed

lemma fail_not_returns: "fail_with_error m op s \<noteq> (Inr x, s')"
  by (auto simp: fail_with_error_def py_raise_def split: option.splits)

lemma instances_error_not_returns: "instances_error st cl e s \<noteq> (Inr x, s')"
  by (cases e) (simp_all add: instances_error_def fail_not_returns py_raise_def)

lemma py_block_returns:
  "py_block (m # ms) s = (Inr (), s') \<longleftrightarrow> (\<exists>s1. m s = (Inr (), s1) \<and> py_block ms s1 = (Inr (), s'))"
  by (auto simp: py_bind_def split: prod.splits sum.splits)

lemma py_bind_lift_returns:
  "py_bind (py_lift r) f s = (Inr y, s') \<longleftrightarrow> (\<exists>x. r = Inr x \<and> f x s = (Inr y, s'))"
  by (auto simp: py_bind_def py_lift_def split: sum.splits)

definition fit :: "ec2_state \<Rightarrow> ec2_state \<Rightarrow> bool" where
  "fit s0 s \<longleftrightarrow> good_inventory (ei_inventory s) \<and> records_are (ei_route53_records s0) s"

lemma fit_kept:
  assumes "id_in plain_ids (attr inst ''id'')"
  shows "keeps (fit s0) (add_instance st inst region)"
    "keeps (\<lambda>s. fit s0 s \<and> entered st s0 x s) (add_instance st inst region)"
proof -
  have good: "keeps (\<lambda>s. good_inventory (ei_inventory s)) (add_instance st inst region)"
  proof (rule keepsI)
    fix s :: ec2_state assume "good_inventory (ei_inventory s)"
    then have "inv_ok False plain_ids (hosts_in (ei_inventory s)) (\<lambda>_. True) {} s" by (rule inv_ok_start)
    with add_instance_keeps [OF _ assms] keepsD show "good_inventory (ei_inventory (snd (add_instance st inst region s)))"
      by (fastforce simp: stable_def inv_ok_def inv.grown_def)
  qed
  with entered_kept [OF assms, of st s0 x region] add_instance_records [of "ei_route53_records s0" st inst region]
  show "keeps (fit s0) (add_instance st inst region)"
    "keeps (\<lambda>s. fit s0 s \<and> entered st s0 x s) (add_instance st inst region)"
    by (simp_all add: keeps_def fit_def)
qed

lemma keeps_all:
  "keeps I m \<Longrightarrow> (\<And>i. keeps (\<lambda>s. I s \<and> E i s) m) \<Longrightarrow> keeps (\<lambda>s. I s \<and> (\<forall>i. P i \<longrightarrow> E i s)) m"
  unfolding keeps_def by blast

lemma keeps_all2:
  "keeps I m \<Longrightarrow> (\<And>x. keeps (\<lambda>s. I s \<and> Q x s) m) \<Longrightarrow>
   keeps (\<lambda>s. I s \<and> (\<forall>xs. P xs \<longrightarrow> (\<forall>x \<in> set xs. Q x s))) m"
  unfolding keeps_def by blast

lemma add_reservations_enter:
  assumes ids: "instance_ids rs = Inr ids" "PStr ''ec2'' \<notin> set ids" "PStr ''_meta'' \<notin> set ids"
    and fit: "fit s0 s"
    and run: "add_reservations st tags region rs s = (Inr (), s')"
  shows "\<forall>r \<in> set rs. \<forall>is. reservation_instances r = Inr is \<longrightarrow> (\<forall>inst \<in> set is. \<forall>i. py_getattr inst ''id'' = Inr i \<longrightarrow>
    entered st s0 (set_attr ''tags'' (PDict (tags_of_instance tags i)) inst) s')"
proof -
  let ?tag = "\<lambda>inst i. set_attr ''tags'' (PDict (tags_of_instance tags i)) inst"
  let ?Q = "\<lambda>inst s. \<forall>i. py_getattr inst ''id'' = Inr i \<longrightarrow> entered st s0 (?tag inst i) s"
  let ?Q' = "\<lambda>r s. \<forall>is. reservation_instances r = Inr is \<longrightarrow> (\<forall>inst \<in> set is. ?Q inst s)"
  have plain: "id_in plain_ids (attr (?tag inst i) ''id'')"
    if "r \<in> set rs" "reservation_instances r = Inr is" "inst \<in> set is" for r "is" inst i
    using instance_ids_mem [OF ids(1) that] ids(2,3)
    by (auto simp: id_in_def plain_ids_def attr_set_attr) (auto simp: attr_def)
  have I: "keeps (fit s0) (add_tagged_instance st tags region inst)"
    and Q: "keeps (\<lambda>s. fit s0 s \<and> ?Q y s) (add_tagged_instance st tags region inst)"
    if "r \<in> set rs" "reservation_instances r = Inr is" "inst \<in> set is" for r "is" inst y
    unfolding add_tagged_instance_def
    using fit_kept [OF plain [OF that]]
    by (auto intro!: keeps_bind keeps_lift keeps_all)
  have enter: "?Q inst s2"
    if "r \<in> set rs" "reservation_instances r = Inr is" "inst \<in> set is" "fit s0 s1"
      "add_tagged_instance st tags region inst s1 = (Inr (), s2)" for r "is" inst s1 s2
    using that(4,5) add_instance_enters [OF plain [OF that(1-3)]]
    by (auto simp: fit_def add_tagged_instance_def py_bind_lift_returns)
  let ?body = "\<lambda>r. py_bind (py_lift (reservation_instances r)) (\<lambda>is. py_for is (add_tagged_instance st tags region))"
  have I': "keeps (fit s0) (?body r)" and Q': "keeps (\<lambda>s. fit s0 s \<and> ?Q' y s) (?body r)" if "r \<in> set rs" for r y
    using I [OF that] Q [OF that] by (auto intro!: keeps_lift_bind keeps_for keeps_all2)
  have "fit s0 s' \<and> (\<forall>r \<in> set rs. ?Q' r s')"
  proof (rule py_for_all [where I = "fit s0" and Q = ?Q' and f = ?body])
    show "?Q' r s2" if r: "r \<in> set rs" and I1: "fit s0 s1" and run: "?body r s1 = (Inr (), s2)" for r s1 s2
    proof (intro allI impI)
      fix "is" assume "is": "reservation_instances r = Inr is"
      with run have "py_for is (add_tagged_instance st tags region) s1 = (Inr (), s2)" by simp
      with I [OF r "is"] Q [OF r "is"] enter [OF r "is"] I1
      have "fit s0 s2 \<and> (\<forall>inst \<in> set is. ?Q inst s2)"
        by (intro py_for_all [where I = "fit s0" and Q = ?Q]) blast+
      then show "\<forall>inst \<in> set is. ?Q inst s2" by blast
    qed
  qed (use I' Q' fit run in \<open>simp_all add: add_reservations_def\<close>)
  then show ?thesis by blast
qed

lemma query_of_region_returns:
  "get_instances_by_region st cl region s = (Inr (), s') \<Longrightarrow> query_instances st cl region s = (Inr (), s')"
  by (auto simp: get_instances_by_region_def py_except_def instances_error_not_returns
      split: prod.splits sum.splits if_splits)

text \<open>
  C29. Every addressable instance of a region gets in.  When \<open>get_instances_by_region\<close> returns, each
  instance of each reservation, with the tags fetched for it, has been skipped by the rules of
  \<open>add_instance\<close> or stands in the index and in the group \<open>ec2\<close> under the name those rules give it; none
  of the names is lost to a later instance.
\<close>

theorem region_instances_entered:
  assumes "good_inventory (ei_inventory s)"
    and "fetch_reservations st cl region = Inr reservations" and "instance_ids reservations = Inr ids"
    and "PStr ''ec2'' \<notin> set ids" and "PStr ''_meta'' \<notin> set ids"
    and "fetch_tags cl region ids = Inr tags"
    and "get_instances_by_region st cl region s = (Inr (), s')"
  shows "\<forall>r \<in> set reservations. \<forall>is. reservation_instances r = Inr is \<longrightarrow>
    (\<forall>inst \<in> set is. \<forall>i. py_getattr inst ''id'' = Inr i \<longrightarrow>
      entered st s (set_attr ''tags'' (PDict (tags_of_instance tags i)) inst) s')"
proof -
  have "query_instances st cl region s = (Inr (), s')" by (rule query_of_region_returns [OF assms(7)])
  then obtain s1 s2 where 1: "connect st cl region s = (Inr (), s1)" "remember_account reservations s1 = (Inr (), s2)"
    and run: "add_reservations st tags region reservations s2 = (Inr (), s')"
    by (auto simp: query_instances_def py_block_returns py_bind_lift_returns assms(2,3,6) py_return_def
        simp del: py_block.simps(2))
  have "fit s s" using assms(1) by (simp add: fit_def records_are_def)
  moreover have "ignores_credentials (fit s)" by (simp add: ignores_credentials_def fit_def records_are_def)
  ultimately have "fit s s1" using keepsD [OF connect_keeps, of "fit s" s st cl region] 1(1) by simp
  moreover have "keeps (fit s) (remember_account reservations)"
    by (rule remember_account_keeps) (simp add: fit_def records_are_def)
  ultimately have "fit s s2" using keepsD [of "fit s" "remember_account reservations" s1] 1(2) by simp
  from add_reservations_enter [OF assms(3-5) this run] show ?thesis .
qed

theorem region_instances_entered_witness:
  "\<exists>s'. get_instances_by_region sample_settings sample_cloud ''eu'' sample_state = (Inr (), s') \<and>
     entered sample_settings sample_state
       (set_attr ''tags'' (PDict [(PStr ''role'', PStr ''web'')]) sample_instance) s'"
proof -
  let ?r = "PObj [(''instances'', PList [sample_instance]), (''owner_id'', PStr ''7'')] []"
  have fetch: "fetch_reservations sample_settings sample_cloud ''eu'' = Inr [?r]"
    by (simp add: fetch_reservations_def sample_settings_def sample_cloud_def)
  have insts: "reservation_instances ?r = Inr [sample_instance]"
    by (simp add: reservation_instances_def py_getattr_def attr_of_def py_elements_def)
  have id: "py_getattr sample_instance ''id'' = Inr (PStr ''i-1'')"
    by (simp add: sample_instance_def py_getattr_def attr_of_def)
  have ids: "instance_ids [?r] = Inr [PStr ''i-1'']" by (simp add: instance_ids_def insts id)
  have tags: "fetch_tags sample_cloud ''eu'' [PStr ''i-1''] = Inr sample_tags" by code_simp
  have "fst (get_instances_by_region sample_settings sample_cloud ''eu'' sample_state) = Inr ()" by code_simp
  then obtain s' where run: "get_instances_by_region sample_settings sample_cloud ''eu'' sample_state = (Inr (), s')"
    by (metis prod.collapse)
  have "tags_of_instance sample_tags (PStr ''i-1'') = [(PStr ''role'', PStr ''web'')]"
    by (simp add: tags_of_instance_def sample_tags_def)
  with region_instances_entered [OF _ fetch ids _ _ tags run] insts id run show ?thesis
    by (auto simp: sample_state_def good_empty)
qed

end
