(* ===== verification/Refresh.thy ===== *)
theory Refresh
  imports Ec2RegionInv
begin

text \<open>
  A whole refresh of ops/ansible/ec2.py, every region and every service: the inventory stays well-formed
  and keeps its hosts however the refresh ends.  Then the ARNs of the RDS pages, and what the boto
  errors of a query turn into.
\<close>

section \<open>Values a statement can return\<close>

definition yields :: "('s, 'a) py \<Rightarrow> ('a \<Rightarrow> bool) \<Rightarrow> bool" where
  "yields m V \<longleftrightarrow> (\<forall>s x s'. m s = (Inr x, s') \<longrightarrow> V x)"

lemma keeps_bind_yields:
  "keeps P m \<Longrightarrow> yields m V \<Longrightarrow> (\<And>x. V x \<Longrightarrow> keeps P (f x)) \<Longrightarrow> keeps P (py_bind m f)"
  unfolding keeps_def yields_def py_bind_def by (fastforce split: prod.splits sum.splits)

lemma yields_bind: "(\<And>x. yields (f x) V) \<Longrightarrow> yields (py_bind m f) V"
  by (auto simp: yields_def py_bind_def split: prod.splits sum.splits)

lemma yields_lift: "yields (py_lift r) (\<lambda>x. r = Inr x)"
  by (simp add: yields_def py_lift_def)

lemma yields_except: "yields m V \<Longrightarrow> (\<And>e. yields (h e) V) \<Longrightarrow> yields (py_except m p h) V"
  unfolding yields_def py_except_def by (fastforce split: prod.splits sum.splits if_splits)

lemma yields_raise: "yields (py_raise e) V"
  by (simp add: yields_def py_raise_def)

lemma yields_fail: "yields (fail_with_error m op) V"
  by (simp add: yields_def fail_not_returns)

lemma map_res_rev_mem: "map_res f xs = Inr ys \<Longrightarrow> y \<in> set ys \<Longrightarrow> \<exists>x \<in> set xs. f x = Inr y"
  by (induction xs arbitrary: ys) (auto simp: bind_res_eq_Inr)

section \<open>The ids a cloud answers with\<close>

definition ec2_ids_in :: "pyval set \<Rightarrow> cloud \<Rightarrow> string \<Rightarrow> bool" where
  "ec2_ids_in K cl region \<longleftrightarrow> (\<forall>f rs r is inst. cl_all_instances cl region f = Inr rs \<longrightarrow> r \<in> set rs \<longrightarrow>
     reservation_instances r = Inr is \<longrightarrow> inst \<in> set is \<longrightarrow> id_in K (attr inst ''id''))"

definition rds_ids_in :: "pyval set \<Rightarrow> cloud \<Rightarrow> string \<Rightarrow> bool" where
  "rds_ids_in K cl region \<longleftrightarrow> (\<forall>m p n inst. cl_db_page cl region m = Inr (p, n) \<longrightarrow> inst \<in> set p \<longrightarrow>
     id_in K (attr inst ''id''))"

definition cache_ids_in :: "pyval set \<Rightarrow> settings \<Rightarrow> cloud \<Rightarrow> string \<Rightarrow> bool" where
  "cache_ids_in K st cl region \<longleftrightarrow> (\<forall>resp v cs c. cl_describe_cache_clusters cl region = Inr resp \<longrightarrow>
     cache_clusters_in resp = Inr v \<longrightarrow> py_elements v = Inr cs \<longrightarrow> c \<in> set cs \<longrightarrow>
     id_in K (py_key c ''CacheClusterId'') \<and>
     (\<forall>nodes node. bind_res (py_key c ''CacheNodes'') py_elements = Inr nodes \<longrightarrow> node \<in> set nodes \<longrightarrow>
       id_in K (node_id_of st node c)))"

definition replication_ids_in :: "pyval set \<Rightarrow> cloud \<Rightarrow> string \<Rightarrow> bool" where
  "replication_ids_in K cl region \<longleftrightarrow> (\<forall>resp v gs g. cl_describe_replication_groups cl region = Inr resp \<longrightarrow>
     replication_groups_in resp = Inr v \<longrightarrow> py_elements v = Inr gs \<longrightarrow> g \<in> set gs \<longrightarrow>
     id_in K (py_key g ''ReplicationGroupId''))"

definition ids_in :: "pyval set \<Rightarrow> settings \<Rightarrow> cloud \<Rightarrow> string \<Rightarrow> bool" where
  "ids_in K st cl region \<longleftrightarrow> ec2_ids_in K cl region \<and> rds_ids_in K cl region \<and>
     cache_ids_in K st cl region \<and> replication_ids_in K cl region"

section \<open>The invariant over a refresh\<close>

definition hosts_kept :: "pyval set \<Rightarrow> (pyval \<Rightarrow> pyval list) \<Rightarrow> ec2_state \<Rightarrow> bool" where
  "hosts_kept K h0 = inv_ok False K h0 (\<lambda>_. True) {}"

lemma hosts_kept_iff: "hosts_kept K h0 s \<longleftrightarrow> good_inventory (ei_inventory s) \<and>
    (\<forall>k. k \<notin> K \<longrightarrow> (\<exists>hs. hosts_in (ei_inventory s) k = h0 k @ hs))"
  by (simp add: hosts_kept_def inv_ok_def inv.grown_def)

lemma stable_True: "stable (\<lambda>_. True)"
  by (simp add: stable_def)

lemma hosts_kept_ignores: "ignores_credentials (hosts_kept K h0)"
  by (simp add: ignores_credentials_def hosts_kept_iff)

lemmas connect_steps = connect_keeps [OF hosts_kept_ignores] connect_to_aws_keeps [OF hosts_kept_ignores]

lemma error_keeps: "keeps P (instances_error st cl e)" "keeps P (service_error cl d oi p e)"
    "keeps P (replication_error cl e)"
  by (cases e; simp add: instances_error_def service_error_def replication_error_def Let_def fail_keeps keeps_raise)+

lemma fetched_from:
  "fetch_reservations st cl region = Inr rs \<Longrightarrow> r \<in> set rs \<Longrightarrow> \<exists>f rs'. cl_all_instances cl region f = Inr rs' \<and> r \<in> set rs'"
  by (auto simp: fetch_reservations_def bind_res_eq_Inr split: if_splits) (metis map_res_rev_mem)

lemma tagged_id: "attr (set_attr ''tags'' x (set_attr ''arn'' y v)) ''id'' = attr v ''id''"
    "attr (set_attr ''tags'' x v) ''id'' = attr v ''id''"
  by (simp_all add: attr_set_attr)

lemma get_instances_keeps:
  assumes "ec2_ids_in K cl region"
  shows "keeps (hosts_kept K h0) (get_instances_by_region st cl region)"
  unfolding get_instances_by_region_def query_instances_def add_reservations_def add_tagged_instance_def
proof (intro keeps_except keeps_block_Cons keeps_block_Nil connect_steps error_keeps keeps_lift_bind keeps_for)
  fix rs ids tags r "is" inst i
  assume "fetch_reservations st cl region = Inr rs" "r \<in> set rs"
    "reservation_instances r = Inr is" "inst \<in> set is"
  with fetched_from [of st cl region rs r] assms have "id_in K (attr inst ''id'')"
    unfolding ec2_ids_in_def by blast
  then show "keeps (hosts_kept K h0)
      (add_instance st (set_attr ''tags'' (PDict (tags_of_instance tags i)) inst) region)"
    unfolding hosts_kept_def by (intro add_instance_keeps [OF stable_True]) (simp add: tagged_id)
next
  show "keeps (hosts_kept K h0) (remember_account rs)" for rs
    by (rule remember_account_keeps) (simp add: hosts_kept_iff)
qed

lemma rds_pages_keep:
  assumes "rds_ids_in K cl region"
  shows "keeps (hosts_kept K h0) (rds_pages st cl region dbs fuel marker)"
proof (induction fuel arbitrary: marker)
  case (Suc fuel)
  have "keeps (hosts_kept K h0) (add_tagged_rds st cl region dbs (n, inst))" if "id_in K (attr inst ''id'')" for n inst
    using that unfolding add_tagged_rds_def hosts_kept_def
    by (intro keeps_rules add_rds_instance_keeps [OF stable_True]) (simp add: attr_set_attr)
  then have "keeps (hosts_kept K h0) (add_tagged_rds st cl region dbs ii)"
    if "cl_db_page cl region marker = Inr (p, n)" "ii \<in> set (zip [0..<length p] p)" for p n ii
    using assms that unfolding rds_ids_in_def by (cases ii) (blast dest: set_zip_rightD)
  then show ?case
    by (auto simp: case_prod_beta intro!: keeps_lift_bind keeps_block_Cons keeps_block_Nil keeps_for keeps_when Suc
        simp del: py_block.simps)
qed (simp add: keeps_raise)

lemma get_rds_keeps:
  assumes "rds_ids_in K cl region"
  shows "keeps (hosts_kept K h0) (get_rds_instances_by_region fuel st cl region)"
  unfolding get_rds_instances_by_region_def rds_error_def
  by (intro keeps_rules fail_keeps connect_steps error_keeps rds_pages_keep [OF assms])

lemma key_error_as_keeps: "keeps P (key_error_as msg r)"
  unfolding key_error_as_def by (intro keeps_rules fail_keeps)

lemma key_error_as_yields: "yields (key_error_as msg r) (\<lambda>x. r = Inr x)"
  unfolding key_error_as_def by (intro yields_except yields_lift yields_fail)

lemma get_cache_clusters_keeps:
  assumes "cache_ids_in K st cl region"
  shows "keeps (hosts_kept K h0) (get_elasticache_clusters_by_region st cl region)"
  unfolding get_elasticache_clusters_by_region_def elasticache_error_def
proof (rule keeps_bind_yields [OF _ yields_except [OF yields_bind [OF yields_lift] yields_bind [OF yields_raise]]],
    (intro keeps_rules connect_steps error_keeps)[1],
    rule keeps_bind_yields [OF key_error_as_keeps key_error_as_yields], rule keeps_lift_bind, rule keeps_for)
  fix resp v cs c
  assume "cl_describe_cache_clusters cl region = Inr resp" "cache_clusters_in resp = Inr v"
    "py_elements v = Inr cs" "c \<in> set cs"
  with assms show "keeps (hosts_kept K h0) (add_elasticache_cluster st c region)"
    unfolding cache_ids_in_def hosts_kept_def by (intro add_elasticache_cluster_keeps [OF stable_True]) blast+
qed

lemma get_replication_groups_keeps:
  assumes "replication_ids_in K cl region"
  shows "keeps (hosts_kept K h0) (get_elasticache_replication_groups_by_region st cl region)"
  unfolding get_elasticache_replication_groups_by_region_def
proof (rule keeps_bind_yields [OF _ yields_except [OF yields_bind [OF yields_lift] yields_bind [OF yields_raise]]],
    (intro keeps_rules connect_steps error_keeps)[1],
    rule keeps_bind_yields [OF key_error_as_keeps key_error_as_yields], rule keeps_lift_bind, rule keeps_for)
  fix resp v gs g
  assume "cl_describe_replication_groups cl region = Inr resp" "replication_groups_in resp = Inr v"
    "py_elements v = Inr gs" "g \<in> set gs"
  with assms show "keeps (hosts_kept K h0) (add_elasticache_replication_group st g region)"
    unfolding replication_ids_in_def hosts_kept_def by (intro add_replication_group_keeps [OF stable_True]) blast
qed

lemma route53_keeps: "keeps (hosts_kept K h0) (get_route53_records st cl)"
  unfolding get_route53_records_def
  by (intro keeps_lift_bind keeps_block_Cons keeps_block_Nil keeps_modify keeps_for) (simp_all add: hosts_kept_iff)

text \<open>
  C30. A refresh never spoils the inventory.  Whatever the cloud answers and wherever the refresh stops,
  also by an exception or an exit, the inventory is well-formed and every group still has the hosts it
  had, in order, with new ones after them; only the one-host groups of the ids that are registered are
  replaced.  RDS clusters, which are stored as a group of their own, are left out here.
\<close>

theorem refresh_keeps_hosts:
  assumes "good_inventory (ei_inventory s)" and "\<not> st_include_rds_clusters st"
    and "\<forall>region \<in> set (st_regions st). ids_in K st cl region"
  shows "good_inventory (ei_inventory (snd (do_api_calls fuel st cl s))) \<and>
    (\<forall>k. k \<notin> K \<longrightarrow> (\<exists>hs. hosts_in (ei_inventory (snd (do_api_calls fuel st cl s))) k = hosts_in (ei_inventory s) k @ hs))"
proof -
  have "keeps (hosts_kept K h0) (query_region fuel st cl region)" if "region \<in> set (st_regions st)" for region h0
    using that assms(2,3) unfolding query_region_def ids_in_def
    by (intro keeps_block_Cons keeps_block_Nil keeps_when get_instances_keeps get_rds_keeps
        get_cache_clusters_keeps get_replication_groups_keeps) auto
  then have "keeps (hosts_kept K h0) (do_api_calls fuel st cl)" for h0
    unfolding do_api_calls_def
    by (intro keeps_block_Cons keeps_block_Nil keeps_when keeps_for route53_keeps)
  from keepsD [OF this, of "hosts_in (ei_inventory s)" s] assms(1) show ?thesis by (simp add: hosts_kept_iff)
qed

lemma sample_ids: "ids_in {PStr ''i-1''} st sample_cloud region"
  by (auto simp: ids_in_def ec2_ids_in_def rds_ids_in_def cache_ids_in_def replication_ids_in_def sample_cloud_def
      reservation_instances_def py_getattr_def attr_of_def py_elements_def id_in_def attr_def sample_instance_def)

theorem refresh_keeps_hosts_witness:
  "good_inventory (ei_inventory (snd (do_api_calls 1 sample_settings sample_cloud sample_state))) \<and>
   fst (do_api_calls 1 sample_settings sample_cloud sample_state) \<noteq> Inr ()"
proof -
  have "fst (do_api_calls 1 sample_settings sample_cloud sample_state) \<noteq> Inr ()" by code_simp
  moreover have "\<forall>region \<in> set (st_regions sample_settings). ids_in {PStr ''i-1''} sample_settings sample_cloud region"
    by (simp add: sample_ids)
  ultimately show ?thesis
    using refresh_keeps_hosts [of sample_state sample_settings "{PStr ''i-1''}" sample_cloud 1]
    by (simp add: sample_state_def good_empty sample_settings_def)
qed

section \<open>The ARNs of the RDS pages\<close>

text \<open>The instances of a page, each with the tags of the ARN at its own place of \<open>arns\<close>.\<close>

definition add_rds_page :: "settings \<Rightarrow> cloud \<Rightarrow> string \<Rightarrow> pyval list \<Rightarrow> pyval list \<Rightarrow> ec2" where
  "add_rds_page st cl region arns instances =
     py_for (zip arns instances) (\<lambda>(arn, inst).
       py_bind (py_lift (resource_tags cl region arn)) (\<lambda>tags.
         py_when (tags_match_filters (st_stack_filters st) (st_instance_filters st) tags)
           (add_rds_instance st (set_attr ''tags'' (PDict tags) (set_attr ''arn'' arn inst)) region)))"

lemma rds_page_arns:
  assumes "\<forall>k < length arns. db_arn dbs k = Inr (arns ! k)" and "length p \<le> length arns"
  shows "py_for (zip [0..<length p] p) (add_tagged_rds st cl region dbs) = add_rds_page st cl region arns p"
proof -
  have z: "zip arns p = map (\<lambda>ii. (arns ! fst ii, snd ii)) (zip [0..<length p] p)"
    using assms(2) by (intro nth_equalityI) simp_all
  have e: "add_tagged_rds st cl region dbs ii = py_bind (py_lift (resource_tags cl region (arns ! fst ii))) (\<lambda>tags.
      py_when (tags_match_filters (st_stack_filters st) (st_instance_filters st) tags)
        (add_rds_instance st (set_attr ''tags'' (PDict tags) (set_attr ''arn'' (arns ! fst ii) (snd ii))) region))"
    if "ii \<in> set (zip [0..<length p] p)" for ii
    using that assms set_zip_leftD [of "fst ii" "snd ii" "[0..<length p]" p] by (auto simp: add_tagged_rds_def)
  show ?thesis unfolding add_rds_page_def z py_for_map prod.case by (rule py_for_cong) (rule e)
qed

text \<open>The pages \<open>get_all_dbinstances\<close> answers with, from a marker on: the last has no marker any more.\<close>

primrec db_pages_from :: "cloud \<Rightarrow> string \<Rightarrow> pyval \<Rightarrow> pyval list list \<Rightarrow> bool" where
  "db_pages_from cl region marker [] \<longleftrightarrow> False"
| "db_pages_from cl region marker (page # pages) \<longleftrightarrow>
     (\<exists>next_marker. cl_db_page cl region marker = Inr (page, next_marker) \<and>
        (if truthy next_marker then db_pages_from cl region next_marker pages else pages = []))"

lemma rds_pages_eq:
  assumes "\<forall>k < length arns. db_arn dbs k = Inr (arns ! k)"
  shows "db_pages_from cl region marker pages \<Longrightarrow> length pages \<le> fuel \<Longrightarrow>
    (\<And>p. p \<in> set pages \<Longrightarrow> length p \<le> length arns) \<Longrightarrow>
    rds_pages st cl region dbs fuel marker = py_for pages (add_rds_page st cl region arns)"
proof (induction pages arbitrary: marker fuel)
  case (Cons page pages)
  then obtain f where f: "fuel = Suc f" "length pages \<le> f" by (cases fuel) auto
  have page: "py_for (zip [0..<length page] page) (add_tagged_rds st cl region dbs) = add_rds_page st cl region arns page"
    by (rule rds_page_arns [OF assms]) (simp add: Cons.prems(3))
  from Cons.prems(1) obtain nm where nm: "cl_db_page cl region marker = Inr (page, nm)"
    and more: "if truthy nm then db_pages_from cl region nm pages else pages = []" by auto
  show ?case
  proof (cases "truthy nm")
    case True
    with more Cons.IH [of nm f] f(2) Cons.prems(3) have
      "rds_pages st cl region dbs f nm = py_for pages (add_rds_page st cl region arns)" by simp
    with True nm page show ?thesis by (simp add: f(1))
  next
    case False
    with more nm page show ?thesis by (simp add: f(1))
  qed
qed simp

text \<open>
  C31. Only the first page of RDS instances gets its own ARNs.  \<open>describe_db_instances\<close> is asked once and
  lists the ARNs of one page, \<open>arns\<close>; \<open>get_all_dbinstances\<close> then answers in any number of pages, none
  longer than that.  Whatever they hold, the \<open>k\<close>-th instance of every page is given the \<open>k\<close>-th of these
  ARNs, and is tagged, filtered and added by the tags of that ARN: from the second page on it is the ARN,
  and the tags, of an instance of the first page.  No page is left out and none is fetched twice.
\<close>

theorem rds_second_page:
  assumes "\<forall>k < length arns. db_arn dbs k = Inr (arns ! k)"
    and "db_pages_from cl region PNone pages" and "\<forall>page \<in> set pages. length page \<le> length arns"
    and "length pages \<le> fuel"
  shows "rds_pages st cl region dbs fuel PNone =
    py_for pages (\<lambda>page. py_for (zip arns page) (\<lambda>(arn, inst).
      py_bind (py_lift (resource_tags cl region arn)) (\<lambda>tags.
        py_when (tags_match_filters (st_stack_filters st) (st_instance_filters st) tags)
          (add_rds_instance st (set_attr ''tags'' (PDict tags) (set_attr ''arn'' arn inst)) region))))"
  using rds_pages_eq [OF assms(1,2,4)] assms(3) unfolding add_rds_page_def by simp

definition two_pages :: cloud where
  "two_pages = sample_cloud\<lparr>cl_db_page := (\<lambda>_ m. if m = PNone then Inr ([PObj [(''id'', PStr ''db-1'')] []], PStr ''next'')
     else Inr ([PObj [(''id'', PStr ''db-2'')] []], PNone))\<rparr>"

definition one_arn :: pyval where
  "one_arn = PDict [(PStr ''DBInstances'', PList [PDict [(PStr ''DBInstanceArn'', PStr ''arn-1'')]])]"

theorem rds_second_page_witness:
  "rds_pages sample_settings two_pages ''eu'' one_arn 2 PNone =
     py_block [add_rds_page sample_settings two_pages ''eu'' [PStr ''arn-1''] [PObj [(''id'', PStr ''db-1'')] []],
       add_rds_page sample_settings two_pages ''eu'' [PStr ''arn-1''] [PObj [(''id'', PStr ''db-2'')] []]]"
proof -
  have arn: "\<forall>k < length [PStr ''arn-1'']. db_arn one_arn k = Inr ([PStr ''arn-1''] ! k)"
    by (simp add: db_arn_def one_arn_def py_key_def py_item_def dict_index_def)
  have pages: "db_pages_from two_pages ''eu'' PNone
      [[PObj [(''id'', PStr ''db-1'')] []], [PObj [(''id'', PStr ''db-2'')] []]]"
    by (simp add: two_pages_def)
  show ?thesis
    using rds_second_page [OF arn pages, of 2 sample_settings] by (simp flip: add_rds_page_def)
qed

section \<open>Error reports\<close>

text \<open>What \<open>fail_with_error\<close> prints for an operation.\<close>

definition while_doing :: "string \<Rightarrow> string \<Rightarrow> py_exn" where
  "while_doing msg op = SystemExit (''ERROR: '' @ [CHR 34] @ msg @ [CHR 34] @ '', while: '' @ op)"

text \<open>
  C32. A boto error ends the run with a report.  An EC2 query that fails exits with the authentication
  help or with the message of the backend, and leaves the hosts that were added before it; the same
  authentication failure is reported as such for ElastiCache clusters, but for replication groups the
  report says that the service is down, unless the reason is \<open>Forbidden\<close>.
\<close>

theorem boto_error_reports:
  assumes "query_instances st cl region s = (Inl (BotoServerError code reason msg), s1)"
    and "connect_to_aws st cl ''elasticache'' region s2 = (Inr (), s3)"
    and "cl_describe_cache_clusters cl region = Inl (BotoServerError ''AuthFailure'' reason2 msg2)"
    and "cl_describe_replication_groups cl region = Inl (BotoServerError ''AuthFailure'' reason2 msg2)"
  shows "get_instances_by_region st cl region s =
      (Inl (while_doing (if code = ''AuthFailure'' then get_auth_error_message cl
         else ''Error connecting to '' @ (if st_eucalyptus st then ''Eucalyptus'' else ''AWS'') @ '' backend.'' @
           newline @ msg) ''getting EC2 instances''), s1) \<and>
    get_elasticache_clusters_by_region st cl region s2 =
      (Inl (while_doing (get_auth_error_message cl) ''getting ElastiCache clusters''), s3) \<and>
    get_elasticache_replication_groups_by_region st cl region s2 =
      (Inl (while_doing (if reason2 = ''Forbidden'' then get_auth_error_message cl
         else ''Looks like AWS ElastiCache [Replication Groups] is down:'' @ newline @ msg2)
       ''getting ElastiCache clusters''), s3)"
  using assms
  by (simp add: get_instances_by_region_def get_elasticache_clusters_by_region_def
      get_elasticache_replication_groups_by_region_def py_except_def py_bind_def py_lift_def is_boto_error_def
      instances_error_def elasticache_error_def service_error_def replication_error_def fail_with_error_def
      py_raise_def while_doing_def Let_def)

theorem boto_error_reports_witness:
  "fst (get_elasticache_replication_groups_by_region sample_settings (sample_cloud\<lparr>cl_all_instances :=
      (\<lambda>_ _. Inl (BotoServerError ''AuthFailure'' ''Unauthorized'' ''no''))\<rparr>) ''eu'' sample_state) =
   Inl (while_doing (''Looks like AWS ElastiCache [Replication Groups] is down:'' @ newline @ ''no'')
     ''getting ElastiCache clusters'')"
proof -
  let ?cl = "sample_cloud\<lparr>cl_all_instances := (\<lambda>_ _. Inl (BotoServerError ''AuthFailure'' ''Unauthorized'' ''no''))\<rparr>"
  have conn: "connect_to_aws sample_settings ?cl m ''eu'' sample_state = (Inr (), sample_state)" for m
    by (simp add: connect_to_aws_def pass_profile_def assume_iam_role_def truthy_opt_def sample_settings_def
        sample_cloud_def py_defs)
  then have "query_instances sample_settings ?cl ''eu'' sample_state =
      (Inl (BotoServerError ''AuthFailure'' ''Unauthorized'' ''no''), sample_state)"
    by (simp add: query_instances_def connect_def fetch_reservations_def sample_settings_def py_defs)
  from boto_error_reports [OF this conn] show ?thesis by (simp add: sample_cloud_def)
qed

end
