(* ===== verification/FileSystem.thy ===== *)
theory FileSystem
  imports PyStr PyDict
begin

text \<open>
  The file system as the scripts of process_manager/ and the cache of ops/ansible/ec2.py use it: absolute,
  normalised paths that name directories, files with their text, and FIFOs, and the functions of \<open>os\<close>
  with the errors they raise on Linux.
\<close>

section \<open>Paths\<close>

definition strip_end :: "(char \<Rightarrow> bool) \<Rightarrow> string \<Rightarrow> string" where
  "strip_end P s = rev (dropWhile P (rev s))"

lemma strip_end_split: "\<exists>r. s = strip_end P s @ r"
  unfolding strip_end_def by (metis rev_append rev_rev_ident takeWhile_dropWhile_id)

text \<open>\<open>os.path.dirname\<close> and \<open>os.path.join\<close>\<close>

definition dirname :: "string \<Rightarrow> string" where
  "dirname p =
     (let head = strip_end (\<lambda>c. c \<noteq> CHR ''/'') p; t = strip_end (\<lambda>c. c = CHR ''/'') head
      in if t = [] then head else t)"

definition path_join :: "string \<Rightarrow> string \<Rightarrow> string" where
  "path_join a b =
     (if py_startswith b ''/'' then b
      else if a = [] \<or> py_endswith a ''/'' then a @ b
      else a @ ''/'' @ b)"

section \<open>The state\<close>

datatype inode = Dir | File (file_text: string) | Fifo

text \<open>\<open>fs_refused\<close> are the paths at which the user may not create or remove an entry.\<close>

record fsys =
  fs_inodes :: "(string, inode) dict"
  fs_refused :: "string \<Rightarrow> bool"

text \<open>The root and the working directory are always there.\<close>

definition fs_lookup :: "fsys \<Rightarrow> string \<Rightarrow> inode option" where
  "fs_lookup fs p = (if p = ''/'' \<or> p = [] then Some Dir else dict_get (fs_inodes fs) p)"

definition fs_put :: "string \<Rightarrow> inode \<Rightarrow> fsys \<Rightarrow> fsys" where
  "fs_put p n fs = fs\<lparr>fs_inodes := dict_set (fs_inodes fs) p n\<rparr>"

definition fs_drop :: "string \<Rightarrow> fsys \<Rightarrow> fsys" where
  "fs_drop p fs = fs\<lparr>fs_inodes := dict_del (fs_inodes fs) p\<rparr>"

text \<open>What creating an entry at \<open>p\<close> raises, if anything, when \<open>p\<close> is free.\<close>

definition parent_error :: "fsys \<Rightarrow> string \<Rightarrow> py_exn option" where
  "parent_error fs p =
     (case fs_lookup fs (dirname p) of
        None \<Rightarrow> Some FileNotFoundError
      | Some Dir \<Rightarrow> if fs_refused fs p then Some OSError else None
      | Some _ \<Rightarrow> Some NotADirectoryError)"

section \<open>Operations\<close>

definition os_path_exists :: "string \<Rightarrow> (fsys, bool) py" where
  "os_path_exists p = py_gets (\<lambda>fs. fs_lookup fs p \<noteq> None)"

definition os_path_isfile :: "string \<Rightarrow> (fsys, bool) py" where
  "os_path_isfile p = py_gets (\<lambda>fs. case fs_lookup fs p of Some (File text) \<Rightarrow> True | _ \<Rightarrow> False)"

definition create_entry :: "string \<Rightarrow> inode \<Rightarrow> (fsys, unit) py" where
  "create_entry p n fs =
     (case parent_error fs p of Some e \<Rightarrow> (Inl e, fs) | None \<Rightarrow> (Inr (), fs_put p n fs))"

definition os_mkdir :: "string \<Rightarrow> (fsys, unit) py" where
  "os_mkdir p = py_bind (os_path_exists p) (\<lambda>ex. if ex then py_raise FileExistsError else create_entry p Dir)"

definition os_mkfifo :: "string \<Rightarrow> (fsys, unit) py" where
  "os_mkfifo p = py_bind (os_path_exists p) (\<lambda>ex. if ex then py_raise FileExistsError else create_entry p Fifo)"

definition os_remove :: "string \<Rightarrow> (fsys, unit) py" where
  "os_remove p fs =
     (case fs_lookup fs p of
        None \<Rightarrow> (Inl FileNotFoundError, fs)
      | Some Dir \<Rightarrow> (Inl IsADirectoryError, fs)
      | Some _ \<Rightarrow> if fs_refused fs p then (Inl OSError, fs) else (Inr (), fs_drop p fs))"

text \<open>
  \<open>with open(p, 'w') as f: f.write(text)\<close>; opening a FIFO for writing blocks until it has a reader.
\<close>

definition write_text :: "string \<Rightarrow> string \<Rightarrow> (fsys, unit) py" where
  "write_text p text fs =
     (case fs_lookup fs p of
        None \<Rightarrow> create_entry p (File text) fs
      | Some Dir \<Rightarrow> (Inl IsADirectoryError, fs)
      | Some Fifo \<Rightarrow> (Inl NotReturned, fs)
      | Some (File _) \<Rightarrow> if fs_refused fs p then (Inl OSError, fs) else (Inr (), fs_put p (File text) fs))"

definition read_text :: "string \<Rightarrow> (fsys, string) py" where
  "read_text p fs =
     (case fs_lookup fs p of
        None \<Rightarrow> (Inl FileNotFoundError, fs)
      | Some Dir \<Rightarrow> (Inl IsADirectoryError, fs)
      | Some Fifo \<Rightarrow> (Inl NotReturned, fs)
      | Some (File text) \<Rightarrow> (Inr text, fs))"

definition is_os_error :: "py_exn \<Rightarrow> bool" where
  "is_os_error e \<longleftrightarrow> e \<in> {OSError, FileNotFoundError, FileExistsError, IsADirectoryError, NotADirectoryError}"

text \<open>\<open>os.makedirs\<close>: the missing parents first.\<close>

lemma dirname_split: "\<exists>r. p = dirname p @ r"
proof -
  define h where "h = strip_end (\<lambda>c. c \<noteq> CHR ''/'') p"
  define t where "t = strip_end (\<lambda>c. c = CHR ''/'') h"
  obtain r q where "p = h @ r" "h = t @ q" using strip_end_split h_def t_def by metis
  moreover have "dirname p = (if t = [] then h else t)" by (simp add: dirname_def h_def t_def)
  ultimately show ?thesis by (metis append_assoc)
qed

lemma length_dirname: "dirname p \<noteq> p \<Longrightarrow> length (dirname p) < length p"
proof -
  assume ne: "dirname p \<noteq> p"
  obtain r where "p = dirname p @ r" using dirname_split by blast
  moreover from this ne have "r \<noteq> []" by auto
  ultimately show ?thesis by (metis length_append length_greater_0_conv less_add_same_cancel1)
qed

function os_makedirs :: "string \<Rightarrow> (fsys, unit) py" where
  "os_makedirs p =
     (if dirname p = p \<or> p = ''/'' \<or> p = [] then os_mkdir p
      else py_bind (os_path_exists (dirname p)) (\<lambda>ex.
        py_block
          [py_when (\<not> ex) (py_except (os_makedirs (dirname p)) (\<lambda>e. e = FileExistsError) (\<lambda>_. py_return ())),
           os_mkdir p]))"
  by pat_completeness auto
termination
  by (relation "measure length") (auto intro: length_dirname)

declare os_makedirs.simps [simp del]

end
