(* ===== verification/FileSystemProps.thy ===== *)
theory FileSystemProps
  imports FileSystem
begin

text \<open>
  How the calls of \<open>os\<close> change what is looked up, that they keep the file system a tree, and that the
  entries of directories and files stay.
\<close>

section \<open>Lookups\<close>

definition proper :: "string \<Rightarrow> bool" where
  "proper p \<longleftrightarrow> p \<noteq> ''/'' \<and> p \<noteq> []"

lemma lookup_put: "proper p \<Longrightarrow> fs_lookup (fs_put p n fs) = (fs_lookup fs)(p \<mapsto> n)"
  by (auto simp: fs_lookup_def fs_put_def proper_def dict_get_def fun_eq_iff)

lemma lookup_drop: "proper p \<Longrightarrow> fs_lookup (fs_drop p fs) = (fs_lookup fs)(p := None)"
  by (auto simp: fs_lookup_def fs_drop_def proper_def dict_get_def fun_eq_iff)

lemma refused_put [simp]: "fs_refused (fs_put p n fs) = fs_refused fs" "fs_refused (fs_drop p fs) = fs_refused fs"
  by (simp_all add: fs_put_def fs_drop_def)

lemma proper_None: "fs_lookup fs p = None \<Longrightarrow> proper p"
  by (auto simp: fs_lookup_def proper_def split: if_splits)

section \<open>The tree\<close>

text \<open>The parent of every entry is a directory.\<close>

definition fs_tree :: "fsys \<Rightarrow> bool" where
  "fs_tree fs \<longleftrightarrow> (\<forall>p. fs_lookup fs p \<noteq> None \<longrightarrow> fs_lookup fs (dirname p) = Some Dir)"

lemma tree_put:
  assumes "fs_tree fs" "proper p" "fs_lookup fs (dirname p) = Some Dir" "fs_lookup fs p = Some Dir \<Longrightarrow> n = Dir"
    "dirname p \<noteq> p"
  shows "fs_tree (fs_put p n fs)"
  using assms by (auto simp: fs_tree_def lookup_put)

lemma tree_drop:
  assumes "fs_tree fs" "proper p" "fs_lookup fs p \<noteq> Some Dir"
  shows "fs_tree (fs_drop p fs)"
  using assms by (auto simp: fs_tree_def lookup_drop)

lemma create_entry_tree:
  assumes "fs_tree fs" and "fs_lookup fs p = None"
  shows "fs_tree (snd (create_entry p n fs))"
proof (cases "parent_error fs p")
  case None
  then have "fs_lookup fs (dirname p) = Some Dir"
    by (auto simp: parent_error_def split: option.splits inode.splits if_splits)
  moreover from this assms(2) have "dirname p \<noteq> p" by auto
  ultimately have "fs_tree (fs_put p n fs)"
    by (intro tree_put [OF assms(1) proper_None [OF assms(2)]]) (use assms(2) in auto)
  with None show ?thesis by (simp add: create_entry_def)
qed (use assms in \<open>simp add: create_entry_def\<close>)

named_theorems tree_steps \<open>the calls that keep the tree\<close>

lemma exists_keeps [tree_steps]: "keeps P (os_path_exists p)"
  unfolding os_path_exists_def by (rule keeps_gets)

lemma make_tree [tree_steps]: "keeps fs_tree (os_mkdir p)" "keeps fs_tree (os_mkfifo p)"
  by (auto simp: keeps_def os_mkdir_def os_mkfifo_def os_path_exists_def py_defs create_entry_tree)

lemma remove_tree [tree_steps]: "keeps fs_tree (os_remove p)"
proof (rule keepsI)
  fix fs assume t: "fs_tree fs"
  have "proper p" if "fs_lookup fs p \<noteq> Some Dir" using that by (auto simp: proper_def fs_lookup_def)
  with t tree_drop show "fs_tree (snd (os_remove p fs))"
    by (auto simp: os_remove_def split: option.splits inode.splits)
qed

lemma write_tree [tree_steps]: "keeps fs_tree (write_text p text)"
proof (rule keepsI)
  fix fs assume t: "fs_tree fs"
  have "fs_tree (fs_put p (File text) fs)" if "fs_lookup fs p = Some (File u)" for u
  proof -
    have "fs_lookup fs (dirname p) = Some Dir" using t that by (auto simp: fs_tree_def)
    with that t show ?thesis by (intro tree_put) (auto simp: proper_def fs_lookup_def split: if_splits)
  qed
  with t create_entry_tree show "fs_tree (snd (write_text p text fs))"
    by (auto simp: write_text_def split: option.splits inode.splits)
qed

lemma makedirs_tree [tree_steps]: "keeps fs_tree (os_makedirs p)"
proof (induction p rule: os_makedirs.induct)
  case (1 p)
  then show ?case unfolding os_makedirs.simps [of p] by (intro keeps_rules tree_steps) auto
qed

lemma read_keeps [tree_steps]: "keeps P (read_text p)"
  by (auto simp: keeps_def read_text_def split: option.splits inode.splits)

section \<open>Calls that return\<close>

lemma create_entry_eq_Inr: "create_entry p n fs = (Inr (), fs') \<Longrightarrow> fs' = fs_put p n fs"
  by (auto simp: create_entry_def split: option.splits)

lemma os_mkdir_there: "os_mkdir p fs = (Inr (), fs') \<Longrightarrow> fs_lookup fs' p \<noteq> None"
  using proper_None [of fs p]
  by (auto simp: os_mkdir_def os_path_exists_def py_defs lookup_put dest!: create_entry_eq_Inr split: if_splits)

lemma os_makedirs_there: "os_makedirs p fs = (Inr (), fs') \<Longrightarrow> fs_lookup fs' p \<noteq> None"
  unfolding os_makedirs.simps [of p]
  by (auto simp: py_bind_eq_Inr py_return_def split: if_splits dest: os_mkdir_there)

lemma write_text_eq_Inr:
  assumes "write_text p text fs = (Inr (), fs')"
  shows "fs_lookup fs' = (fs_lookup fs)(p \<mapsto> File text)"
proof -
  have "fs' = fs_put p (File text) fs" using assms create_entry_eq_Inr
    by (auto simp: write_text_def split: option.splits inode.splits if_splits)
  moreover have "proper p" using assms
    by (auto simp: write_text_def proper_def fs_lookup_def split: option.splits inode.splits if_splits)
  ultimately show ?thesis by (simp add: lookup_put)
qed

text \<open>A path the user may write a file to.\<close>

definition writable :: "fsys \<Rightarrow> string \<Rightarrow> bool" where
  "writable fs p \<longleftrightarrow> \<not> fs_refused fs p \<and>
     (case fs_lookup fs p of None \<Rightarrow> fs_lookup fs (dirname p) = Some Dir | Some (File t) \<Rightarrow> True | _ \<Rightarrow> False)"

lemma writable_proper: "writable fs p \<Longrightarrow> proper p"
  by (auto simp: writable_def proper_def fs_lookup_def split: if_splits)

lemma write_text_ok: "writable fs p \<Longrightarrow> write_text p t fs = (Inr (), fs_put p (File t) fs)"
  by (auto simp: writable_def write_text_def create_entry_def parent_error_def split: option.splits inode.splits)

lemma writable_put:
  assumes "writable fs p" "writable fs q"
  shows "writable (fs_put p (File t) fs) q"
  using assms lookup_put [OF writable_proper [OF assms(1)]]
  by (auto simp: writable_def split: option.splits inode.splits)

text \<open>The text of a file, if there is one at the path; making directories leaves all of them.\<close>

definition text_at :: "fsys \<Rightarrow> string \<Rightarrow> string option" where
  "text_at fs p = (case fs_lookup fs p of Some (File t) \<Rightarrow> Some t | _ \<Rightarrow> None)"

lemma isfile_text: "os_path_isfile p fs = (Inr (text_at fs p \<noteq> None), fs)"
  by (auto simp: os_path_isfile_def py_gets_def text_at_def split: option.splits inode.splits)

lemma read_text_at: "text_at fs p = Some t \<Longrightarrow> read_text p fs = (Inr t, fs)"
  by (auto simp: read_text_def text_at_def split: option.splits inode.splits)

lemma mkdir_texts: "keeps (\<lambda>fs. text_at fs q = x) (os_mkdir p)"
proof (rule keepsI)
  fix fs assume x: "text_at fs q = x"
  have "text_at (snd (create_entry p Dir fs)) q = x" if "fs_lookup fs p = None"
    using x that by (auto simp: create_entry_def text_at_def lookup_put [OF proper_None] split: option.splits)
  with x show "text_at (snd (os_mkdir p fs)) q = x"
    by (auto simp: os_mkdir_def os_path_exists_def py_defs)
qed

lemma makedirs_texts: "keeps (\<lambda>fs. text_at fs q = x) (os_makedirs p)"
proof (induction p rule: os_makedirs.induct)
  case (1 p)
  then show ?case unfolding os_makedirs.simps [of p] by (intro keeps_rules tree_steps mkdir_texts) auto
qed

section \<open>Files as a store of texts\<close>

locale text_store =
  fixes save :: "string \<Rightarrow> string \<Rightarrow> ('s, unit) py"
    and load :: "string \<Rightarrow> ('s, string) py"
    and holds :: "'s \<Rightarrow> string \<Rightarrow> string \<Rightarrow> bool"
  assumes write_holds: "save p t s = (Inr (), s') \<Longrightarrow> holds s' p t"
    and write_others: "save p t s = (Inr (), s') \<Longrightarrow> q \<noteq> p \<Longrightarrow> holds s' q u \<longleftrightarrow> holds s q u"
    and read_held: "holds s p t \<Longrightarrow> load p s = (Inr t, s)"
begin

lemma read_written: "save p t s = (Inr (), s') \<Longrightarrow> load p s' = (Inr t, s')"
  by (intro read_held write_holds)

lemma held_once: "holds s p t \<Longrightarrow> holds s p u \<Longrightarrow> t = u"
  using read_held [of s p t] read_held [of s p u] by simp

lemma two_written:
  assumes "save p t s = (Inr (), s1)" and "save q u s1 = (Inr (), s2)" and "p \<noteq> q"
  shows "load p s2 = (Inr t, s2) \<and> load q s2 = (Inr u, s2)"
  using write_holds [OF assms(1)] write_others [OF assms(2,3)] read_held read_written [OF assms(2)] by blast

end

interpretation files: text_store write_text read_text "\<lambda>fs p t. fs_lookup fs p = Some (File t)"
  by unfold_locales (auto simp: write_text_eq_Inr, simp add: read_text_def)

end
