(* ===== verification/Ini.thy ===== *)
theory Ini
  imports FileSystem
begin

text \<open>
  Python's \<open>configparser\<close> as ops/ansible/ec2.py uses it: one \<open>ConfigParser\<close> with default values, which reads
  one file, gets the two sections it is asked for, and hands out options with their interpolation.  This
  is the parser of Python 3.6 with its default syntax; what it raises is named by its class.
\<close>

section \<open>A configuration\<close>

type_synonym options = "(string, string option) dict"

record config =
  cfg_defaults :: options
  cfg_sections :: "(string, options) dict"

definition add_section :: "string \<Rightarrow> config \<Rightarrow> config res" where
  "add_section name cfg =
     (if name = ''DEFAULT'' then Inl ValueError
      else if dict_get (cfg_sections cfg) name \<noteq> None then Inl (ConfigParserError ''DuplicateSectionError'')
      else Inr (cfg\<lparr>cfg_sections := dict_set (cfg_sections cfg) name []\<rparr>))"

section \<open>Reading a file\<close>

text \<open>The file iterates over lines after all line ends have become line feeds.\<close>

fun universal_newlines :: "string \<Rightarrow> string" where
  "universal_newlines [] = []"
| "universal_newlines [c] = (if c = CHR 13 then newline else [c])"
| "universal_newlines (c # d # s) =
     (if c \<noteq> CHR 13 then c # universal_newlines (d # s)
      else newline @ (if d = CHR 10 then universal_newlines s else universal_newlines (d # s)))"

definition text_lines :: "string \<Rightarrow> string list" where
  "text_lines s = (let ls = py_split (CHR 10) (universal_newlines s) in if last ls = [] then butlast ls else ls)"

text \<open>
  What the parser holds while it reads.  A value of the file is the list of its lines; a default is whole
  from the start.  \<open>rd_cursect\<close> and \<open>rd_optname\<close> are the section and option that are open, the latter
  empty when there is none, \<open>rd_indent\<close> the indentation that a continuation line has to exceed.
\<close>

datatype raw_value = Whole "string option" | Lines "string list"

record reader =
  rd_defaults :: "(string, raw_value) dict"
  rd_sections :: "(string, (string, raw_value) dict) dict"
  rd_cursect :: "string option"
  rd_optname :: string
  rd_indent :: nat
  rd_bogus :: bool

definition cur_options :: "reader \<Rightarrow> (string, raw_value) dict" where
  "cur_options r = (case rd_cursect r of
     None \<Rightarrow> []
   | Some s \<Rightarrow> if s = ''DEFAULT'' then rd_defaults r
       else (case dict_get (rd_sections r) s of None \<Rightarrow> [] | Some d \<Rightarrow> d))"

definition set_option :: "string \<Rightarrow> raw_value \<Rightarrow> reader \<Rightarrow> reader" where
  "set_option opt v r = (case rd_cursect r of
     None \<Rightarrow> r
   | Some s \<Rightarrow> if s = ''DEFAULT'' then r\<lparr>rd_defaults := dict_set (rd_defaults r) opt v\<rparr>
       else r\<lparr>rd_sections := dict_set (rd_sections r) s (dict_set (cur_options r) opt v)\<rparr>)"

definition add_line :: "string \<Rightarrow> reader \<Rightarrow> reader" where
  "add_line v r = (case dict_get (cur_options r) (rd_optname r) of
     Some (Lines ls) \<Rightarrow> set_option (rd_optname r) (Lines (ls @ [v])) r
   | _ \<Rightarrow> r)"

text \<open>Comments, section headers \<open>\[([^]]+)\]\<close>, and options, which end at the first \<open>=\<close> or \<open>:\<close>.\<close>

definition is_comment :: "string \<Rightarrow> bool" where
  "is_comment line = (case py_strip line of [] \<Rightarrow> False | c # s \<Rightarrow> c = CHR ''#'' \<or> c = CHR '';'')"

definition section_header :: "string \<Rightarrow> string option" where
  "section_header v = (case v of
     [] \<Rightarrow> None
   | c # s \<Rightarrow> (let h = takeWhile (\<lambda>x. x \<noteq> CHR '']'') s in
       if c = CHR ''['' \<and> h \<noteq> [] \<and> CHR '']'' \<in> set s then Some h else None))"

definition is_delim :: "char \<Rightarrow> bool" where
  "is_delim c \<longleftrightarrow> c = CHR ''='' \<or> c = CHR '':''"

definition option_line :: "string \<Rightarrow> (string \<times> string) option" where
  "option_line v =
     (if \<exists>c \<in> set v. is_delim c
      then Some (strip_end is_space (takeWhile (\<lambda>c. \<not> is_delim c) v), py_strip (tl (dropWhile (\<lambda>c. \<not> is_delim c) v)))
      else None)"

definition open_section :: "string \<Rightarrow> reader \<Rightarrow> reader res" where
  "open_section name r =
     (if dict_get (rd_sections r) name \<noteq> None then Inl (ConfigParserError ''DuplicateSectionError'')
      else Inr (r\<lparr>rd_sections := (if name = ''DEFAULT'' then rd_sections r else dict_set (rd_sections r) name []),
        rd_cursect := Some name, rd_optname := []\<rparr>))"

text \<open>A second value for an option is an error; a line that is no option is one at the end of the file.\<close>

definition read_option :: "string \<Rightarrow> reader \<Rightarrow> reader res" where
  "read_option v r = (case option_line v of
     None \<Rightarrow> Inr (r\<lparr>rd_bogus := True\<rparr>)
   | Some (name, optval) \<Rightarrow>
       (case dict_get (cur_options r) (py_lower name) of
          Some (Lines ls) \<Rightarrow> Inl (ConfigParserError ''DuplicateOptionError'')
        | _ \<Rightarrow> Inr (set_option (py_lower name) (Lines [optval])
            (r\<lparr>rd_optname := py_lower name, rd_bogus := rd_bogus r \<or> name = []\<rparr>))))"

definition read_line :: "string \<Rightarrow> reader \<Rightarrow> reader res" where
  "read_line line r =
     (let v = py_strip line;
          indent = length (takeWhile is_space line);
          in_value = rd_cursect r \<noteq> None \<and> rd_optname r \<noteq> []
      in if is_comment line then Inr r
         else if v = [] then Inr (if in_value then add_line [] r else r)
         else if in_value \<and> rd_indent r < indent then Inr (add_line v r)
         else (case section_header v of
             Some name \<Rightarrow> open_section name (r\<lparr>rd_indent := indent\<rparr>)
           | None \<Rightarrow>
               if rd_cursect r = None then Inl (ConfigParserError ''MissingSectionHeaderError'')
               else read_option v (r\<lparr>rd_indent := indent\<rparr>)))"

definition joined :: "(string, raw_value) dict \<Rightarrow> options" where
  "joined d = map (map_prod id (\<lambda>v. case v of
     Whole w \<Rightarrow> w
   | Lines ls \<Rightarrow> Some (strip_end is_space (py_join newline ls)))) d"

definition start_reader :: "config \<Rightarrow> reader" where
  "start_reader cfg = \<lparr>rd_defaults = map (map_prod id Whole) (cfg_defaults cfg), rd_sections = [],
     rd_cursect = None, rd_optname = [], rd_indent = 0, rd_bogus = False\<rparr>"

text \<open>The parser has no sections of its own when it reads its file.\<close>

definition read_ini :: "config \<Rightarrow> string \<Rightarrow> config res" where
  "read_ini cfg s =
     bind_res (fold_res read_line (start_reader cfg) (text_lines s)) (\<lambda>r.
       if rd_bogus r then Inl (ConfigParserError ''ParsingError'')
       else Inr \<lparr>cfg_defaults = joined (rd_defaults r), cfg_sections = map (map_prod id joined) (rd_sections r)\<rparr>)"

text \<open>\<open>config.read(path)\<close> skips a file that it cannot open.\<close>

definition config_read :: "string \<Rightarrow> config \<Rightarrow> (fsys, config) py" where
  "config_read path cfg =
     py_bind (py_except (py_bind (read_text path) (\<lambda>s. py_return (Some s))) is_os_error (\<lambda>_. py_return None)) (\<lambda>s.
       py_lift (case s of None \<Rightarrow> Inr cfg | Some s \<Rightarrow> read_ini cfg s))"

section \<open>Options\<close>

text \<open>
  \<open>%(name)s\<close> stands for another option of the section or the defaults and \<open>%%\<close> for a percent sign.  The
  first argument is how deep references may still go, ten levels in all.
\<close>

definition key_reference :: "string \<Rightarrow> (string \<times> string) option" where
  "key_reference s =
     (let name = takeWhile (\<lambda>c. c \<noteq> CHR '')'') s; after = dropWhile (\<lambda>c. c \<noteq> CHR '')'') s
      in if name \<noteq> [] \<and> py_startswith after '')s'' then Some (name, drop 2 after) else None)"

lemma key_reference_shorter: "key_reference s = Some (n, t) \<Longrightarrow> length t < length s"
  using length_dropWhile_le [of "\<lambda>c. c \<noteq> CHR '')''" s]
  by (cases "dropWhile (\<lambda>c. c \<noteq> CHR '')'') s")
    (auto simp: key_reference_def Let_def py_startswith_def split: if_splits)

function interpolate :: "nat \<Rightarrow> (string \<Rightarrow> string option option) \<Rightarrow> string \<Rightarrow> string res" where
  "interpolate 0 get s = Inl (ConfigParserError ''InterpolationDepthError'')"
| "interpolate (Suc n) get [] = Inr []"
| "interpolate (Suc n) get (c # s) =
     (if c \<noteq> CHR ''%'' then bind_res (interpolate (Suc n) get s) (\<lambda>t. Inr (c # t))
      else case s of
        [] \<Rightarrow> Inl (ConfigParserError ''InterpolationSyntaxError'')
      | d # t \<Rightarrow>
          if d = CHR ''%'' then bind_res (interpolate (Suc n) get t) (\<lambda>t. Inr (CHR ''%'' # t))
          else if d = CHR ''('' then
            (case key_reference t of
               None \<Rightarrow> Inl (ConfigParserError ''InterpolationSyntaxError'')
             | Some (name, rest) \<Rightarrow>
                 (case get (py_lower name) of
                    None \<Rightarrow> Inl (ConfigParserError ''InterpolationMissingOptionError'')
                  | Some None \<Rightarrow> Inl TypeError
                  | Some (Some v) \<Rightarrow>
                      bind_res (if CHR ''%'' \<in> set v then interpolate n get v else Inr v) (\<lambda>v.
                      bind_res (interpolate (Suc n) get rest) (\<lambda>t. Inr (v @ t)))))
          else Inl (ConfigParserError ''InterpolationSyntaxError''))"
  by pat_completeness auto
termination
  by (relation "measures [\<lambda>(n, get, s). n, \<lambda>(n, get, s). length s]") (auto dest: key_reference_shorter)

definition max_interpolation_depth :: nat where
  "max_interpolation_depth = 10"

definition config_lookup :: "config \<Rightarrow> options \<Rightarrow> string \<Rightarrow> string option option" where
  "config_lookup cfg d opt = (case dict_get d opt of None \<Rightarrow> dict_get (cfg_defaults cfg) opt | Some v \<Rightarrow> Some v)"

definition config_get :: "config \<Rightarrow> string \<Rightarrow> string \<Rightarrow> string option res" where
  "config_get cfg sec opt = (case dict_get (cfg_sections cfg) sec of
     None \<Rightarrow> Inl (ConfigParserError ''NoSectionError'')
   | Some d \<Rightarrow> (case config_lookup cfg d opt of
       None \<Rightarrow> Inl (ConfigParserError ''NoOptionError'')
     | Some None \<Rightarrow> Inr None
     | Some (Some v) \<Rightarrow> bind_res (interpolate max_interpolation_depth (config_lookup cfg d) v) (\<lambda>s. Inr (Some s))))"

definition config_has_option :: "config \<Rightarrow> string \<Rightarrow> string \<Rightarrow> bool" where
  "config_has_option cfg sec opt = (case dict_get (cfg_sections cfg) sec of
     None \<Rightarrow> False
   | Some d \<Rightarrow> config_lookup cfg d opt \<noteq> None)"

end
