(* ===== verification/Settings.thy ===== *)
theory Settings
  imports Ec2Api Ini
begin

text \<open>
  \<open>read_settings\<close> of ops/ansible/ec2.py: the ini file with its defaults, the regions, the destination, the
  states, the profile and credentials, the cache files, and the instance filters.  What the environment,
  the user database, boto, \<open>re.compile\<close> and \<open>str.format\<close> contribute is a parameter.  The defaults that are
  \<open>None\<close> are taken as they are, as \<open>ConfigParser(DEFAULTS)\<close> does up to Python 3.6; later versions refuse them.
\<close>

section \<open>The configuration\<close>

definition DEFAULTS :: options where
  "DEFAULTS =
     [(''all_elasticache_clusters'', Some ''False''), (''all_elasticache_nodes'', Some ''False''),
      (''all_elasticache_replication_groups'', Some ''False''), (''all_instances'', Some ''False''),
      (''all_rds_instances'', Some ''False''), (''aws_access_key_id'', None), (''aws_secret_access_key'', None),
      (''aws_security_token'', None), (''boto_profile'', None), (''cache_max_age'', Some ''300''),
      (''cache_path'', Some ''~/.ansible/tmp''), (''destination_variable'', Some ''public_dns_name''),
      (''elasticache'', Some ''True''), (''eucalyptus'', Some ''False''), (''eucalyptus_host'', None),
      (''expand_csv_tags'', Some ''False''), (''group_by_ami_id'', Some ''True''),
      (''group_by_availability_zone'', Some ''True''), (''group_by_aws_account'', Some ''False''),
      (''group_by_elasticache_cluster'', Some ''True''), (''group_by_elasticache_engine'', Some ''True''),
      (''group_by_elasticache_parameter_group'', Some ''True''),
      (''group_by_elasticache_replication_group'', Some ''True''), (''group_by_instance_id'', Some ''True''),
      (''group_by_instance_state'', Some ''False''), (''group_by_instance_type'', Some ''True''),
      (''group_by_key_pair'', Some ''True''), (''group_by_platform'', Some ''True''),
      (''group_by_rds_engine'', Some ''True''), (''group_by_rds_parameter_group'', Some ''True''),
      (''group_by_region'', Some ''True''), (''group_by_route53_names'', Some ''True''),
      (''group_by_security_group'', Some ''True''), (''group_by_tag_keys'', Some ''True''),
      (''group_by_tag_none'', Some ''True''), (''group_by_vpc_id'', Some ''True''), (''hostname_variable'', None),
      (''iam_role'', None), (''include_rds_clusters'', Some ''False''), (''nested_groups'', Some ''False''),
      (''pattern_exclude'', None), (''pattern_include'', None), (''rds'', Some ''False''), (''regions'', Some ''all''),
      (''regions_exclude'', Some ''us-gov-west-1, cn-north-1''), (''replace_dash_in_groups'', Some ''True''),
      (''route53'', Some ''False''), (''route53_excluded_zones'', Some []), (''route53_hostnames'', None),
      (''stack_filters'', Some ''False''), (''vpc_destination_variable'', Some ''ip_address'')]"

definition default_config :: config where
  "default_config = \<lparr>cfg_defaults = DEFAULTS, cfg_sections = []\<rparr>"

text \<open>An option that has to be a string.\<close>

definition config_str :: "config \<Rightarrow> string \<Rightarrow> string res" where
  "config_str ini opt =
     bind_res (config_get ini ''ec2'' opt) (\<lambda>v. case v of None \<Rightarrow> Inl AttributeError | Some s \<Rightarrow> Inr s)"

text \<open>\<open>getboolean\<close>: the eight spellings, in any case.\<close>

definition boolean_states :: "(string, bool) dict" where
  "boolean_states =
     [(''1'', True), (''yes'', True), (''true'', True), (''on'', True),
      (''0'', False), (''no'', False), (''false'', False), (''off'', False)]"

definition config_getboolean :: "config \<Rightarrow> string \<Rightarrow> bool res" where
  "config_getboolean ini opt =
     bind_res (config_str ini opt) (\<lambda>s.
       case dict_get boolean_states (py_lower s) of None \<Rightarrow> Inl ValueError | Some b \<Rightarrow> Inr b)"

section \<open>The world around the script\<close>

text \<open>
  \<open>wo_file\<close> is \<open>__file__\<close>; \<open>wo_pwd\<close> is the user database, which gives the home directory of a name, and
  \<open>wo_pwd_self\<close> that of the user.
\<close>

record world =
  wo_environ :: "string \<Rightarrow> string option"
  wo_ec2_regions :: "string list"
  wo_euca_region :: "string \<Rightarrow> string res"
  wo_pwd :: "string \<Rightarrow> string option"
  wo_pwd_self :: string
  wo_file :: string
  wo_file_hash :: int
  wo_compile :: "string \<Rightarrow> (string \<Rightarrow> bool) res"
  wo_format :: "string \<Rightarrow> pyval list \<Rightarrow> string res"
  wo_set_order :: "string set \<Rightarrow> string list"
  wo_args_profile :: "string option"

text \<open>\<open>os.path.expanduser\<close> and \<open>os.path.expandvars\<close>\<close>

definition expanduser :: "world \<Rightarrow> string \<Rightarrow> string" where
  "expanduser w path =
     (if \<not> py_startswith path ''~'' then path
      else
        let user = takeWhile (\<lambda>c. c \<noteq> CHR ''/'') (tl path);
            home = (if user \<noteq> [] then wo_pwd w user
                    else case wo_environ w ''HOME'' of Some h \<Rightarrow> Some h | None \<Rightarrow> Some (wo_pwd_self w))
        in case home of
             None \<Rightarrow> path
           | Some h \<Rightarrow>
               (let p = strip_end (\<lambda>c. c = CHR ''/'') h @ drop (Suc (length user)) path
                in if p = [] then ''/'' else p))"

definition is_word :: "char \<Rightarrow> bool" where
  "is_word c \<longleftrightarrow> is_AZ c \<or> is_az c \<or> is_09 c \<or> c = CHR ''_''"

text \<open>The name of \<open>$name\<close> or \<open>${name}\<close>, with how many characters it takes after the dollar sign.\<close>

definition variable_name :: "string \<Rightarrow> (string \<times> nat) option" where
  "variable_name s =
     (let name = takeWhile is_word s;
          braced = takeWhile (\<lambda>c. c \<noteq> CHR ''}'') (tl s)
      in if name \<noteq> [] then Some (name, length name)
         else if py_startswith s ''{'' \<and> CHR ''}'' \<in> set s then Some (braced, length braced + 2)
         else None)"

function expandvars :: "(string \<Rightarrow> string option) \<Rightarrow> string \<Rightarrow> string" where
  "expandvars env [] = []"
| "expandvars env (c # s) =
     (if c \<noteq> CHR ''$'' then c # expandvars env s
      else case variable_name s of
        None \<Rightarrow> c # expandvars env s
      | Some (name, n) \<Rightarrow>
          (case env name of None \<Rightarrow> c # take n s | Some v \<Rightarrow> v) @ expandvars env (drop n s))"
  by pat_completeness auto
termination
  by (relation "measure (length \<circ> snd)") auto

section \<open>Finding the ini file\<close>

text \<open>\<open>scriptbasename.replace('.py', '')\<close>\<close>

fun delete_py :: "string \<Rightarrow> string" where
  "delete_py (a # b # c # s) =
     (if [a, b, c] = ''.py'' then delete_py s else a # delete_py (b # c # s))"
| "delete_py s = s"

definition default_ini_path :: "world \<Rightarrow> string" where
  "default_ini_path w = path_join (dirname (wo_file w)) (delete_py (basename (wo_file w)) @ ''.ini'')"

definition ini_fallback :: "world \<Rightarrow> string" where
  "ini_fallback w = path_join (dirname (wo_file w)) ''ec2.ini''"

definition ec2_ini_path :: "world \<Rightarrow> string" where
  "ec2_ini_path w = expanduser w (expandvars (wo_environ w)
     (case wo_environ w ''EC2_INI_PATH'' of Some p \<Rightarrow> p | None \<Rightarrow> default_ini_path w))"

definition ensure_section :: "string \<Rightarrow> config \<Rightarrow> (fsys, config) py" where
  "ensure_section name cfg =
     py_except (py_lift (add_section name cfg)) (\<lambda>e. e = ConfigParserError ''DuplicateSectionError'')
       (\<lambda>_. py_return cfg)"

definition read_config :: "world \<Rightarrow> (fsys, config) py" where
  "read_config w =
     py_bind (os_path_isfile (ec2_ini_path w)) (\<lambda>found.
     let path = (if found then ec2_ini_path w else expanduser w (ini_fallback w)) in
     py_bind (os_path_isfile path) (\<lambda>readable.
     py_bind (if readable then config_read path default_config else py_return default_config) (\<lambda>cfg.
     py_bind (ensure_section ''ec2'' cfg) (ensure_section ''credentials''))))"

section \<open>Regions\<close>

text \<open>A region that is \<open>None\<close> goes by the text that \<open>%s\<close> makes of it; boto knows no such region.\<close>

definition env_region :: "world \<Rightarrow> string" where
  "env_region w =
     (case wo_environ w ''AWS_REGION'' of
        Some r \<Rightarrow> r
      | None \<Rightarrow> (case wo_environ w ''AWS_DEFAULT_REGION'' of Some r \<Rightarrow> r | None \<Rightarrow> ''None''))"

definition read_regions :: "world \<Rightarrow> config \<Rightarrow> string list res" where
  "read_regions w ini =
     bind_res (config_get ini ''ec2'' ''eucalyptus_host'') (\<lambda>euca_host.
     bind_res (config_str ini ''regions'') (\<lambda>configRegions.
     bind_res
       (if configRegions = ''all'' then
          if truthy_opt euca_host then bind_res (wo_euca_region w (the euca_host)) (\<lambda>r. Inr [r])
          else bind_res (config_str ini ''regions_exclude'') (\<lambda>configRegions_exclude.
            Inr (filter (\<lambda>r. \<not> py_contains r configRegions_exclude) (wo_ec2_regions w)))
        else Inr (py_split CHR '','' configRegions)) (\<lambda>regions.
       Inr (if ''auto'' \<in> set regions then [env_region w] else regions))))"

section \<open>States, formats, filters\<close>

definition ec2_valid_instance_states :: "string list" where
  "ec2_valid_instance_states =
     [''pending'', ''running'', ''shutting-down'', ''terminated'', ''stopping'', ''stopped'']"

definition read_instance_states :: "config \<Rightarrow> string list res" where
  "read_instance_states ini =
     bind_res (config_getboolean ini ''all_instances'') (\<lambda>all_instances.
       if all_instances then Inr ec2_valid_instance_states
       else if config_has_option ini ''ec2'' ''instance_states'' then
         bind_res (config_str ini ''instance_states'') (\<lambda>states.
           Inr (filter (\<lambda>s. s \<in> set ec2_valid_instance_states) (map py_strip (py_split CHR '','' states))))
       else Inr [''running''])"

definition read_destination_format ::
  "world \<Rightarrow> config \<Rightarrow> ((pyval list \<Rightarrow> string res) option \<times> string list) res"
where
  "read_destination_format w ini =
     (if config_has_option ini ''ec2'' ''destination_format'' \<and>
         config_has_option ini ''ec2'' ''destination_format_tags'' then
        bind_res (config_str ini ''destination_format'') (\<lambda>fmt.
        bind_res (config_str ini ''destination_format_tags'') (\<lambda>tags.
          Inr (if fmt = [] then None else Some (wo_format w fmt), py_split CHR '','' tags)))
      else Inr (None, []))"

definition read_pattern :: "world \<Rightarrow> config \<Rightarrow> string \<Rightarrow> (string \<Rightarrow> bool) option res" where
  "read_pattern w ini opt =
     bind_res (config_get ini ''ec2'' opt) (\<lambda>p.
       if truthy_opt p then bind_res (wo_compile w (the p)) (\<lambda>m. Inr (Some m)) else Inr None)"

text \<open>One filter of a set: what has no \<open>=\<close> or no name is skipped.\<close>

definition parse_filter :: "(string, pyval) dict \<Rightarrow> string \<Rightarrow> (string, pyval) dict" where
  "parse_filter filters f =
     (let f = py_strip f in
      if f = [] \<or> CHR ''='' \<notin> set f then filters
      else let key = py_strip (py_split1 CHR ''='' f ! 0);
               v = py_strip (py_split1 CHR ''='' f ! 1)
           in if key = [] then filters else dict_set filters key (PStr v))"

definition parse_filter_set :: "string \<Rightarrow> (string, pyval) dict" where
  "parse_filter_set filter_set = foldl parse_filter [] (py_split CHR ''&'' (py_strip filter_set))"

definition parse_filters :: "string \<Rightarrow> (string, pyval) dict list" where
  "parse_filters filters = map parse_filter_set (filter (\<lambda>f. f \<noteq> []) (py_split CHR '','' filters))"

definition read_instance_filters :: "bool \<Rightarrow> config \<Rightarrow> (string, pyval) dict list res" where
  "read_instance_filters stack_filters ini =
     (if config_has_option ini ''ec2'' ''instance_filters'' then
        bind_res (config_str ini ''instance_filters'') (\<lambda>filters.
          if stack_filters \<and> CHR ''&'' \<in> set filters
          then Inl (SystemExit (''AND filters along with stack_filter enabled is not supported.'' @ newline))
          else Inr (parse_filters filters))
      else Inr [])"

section \<open>Profile, credentials, cache\<close>

text \<open>\<open>a or b\<close>\<close>

definition py_or :: "string option \<Rightarrow> string option \<Rightarrow> string option" where
  "py_or a b = (if truthy_opt a then a else b)"

definition read_boto_profile :: "world \<Rightarrow> config \<Rightarrow> string option res" where
  "read_boto_profile w ini =
     (if truthy_opt (py_or (wo_args_profile w) (wo_environ w ''AWS_PROFILE''))
      then Inr (py_or (wo_args_profile w) (wo_environ w ''AWS_PROFILE''))
      else config_get ini ''ec2'' ''boto_profile'')"

definition read_credentials :: "world \<Rightarrow> config \<Rightarrow> string option \<Rightarrow> credentials res" where
  "read_credentials w ini boto_profile =
     (if truthy_opt boto_profile \<or> truthy_opt (wo_environ w ''AWS_ACCESS_KEY_ID'') \<or>
         truthy_opt (wo_environ w ''AWS_PROFILE'') then Inr []
      else
        bind_res (config_get ini ''credentials'' ''aws_access_key_id'') (\<lambda>key.
        bind_res (config_get ini ''credentials'' ''aws_secret_access_key'') (\<lambda>secret.
        bind_res (config_get ini ''credentials'' ''aws_security_token'') (\<lambda>token.
          if \<not> truthy_opt key then Inr []
          else Inr ([(''aws_access_key_id'', key), (''aws_secret_access_key'', secret)] @
                 (if truthy_opt token then [(''security_token'', token)] else []))))))"

record cache_files =
  cf_cache :: string
  cf_index :: string
  cf_max_age :: int

definition cache_id :: "world \<Rightarrow> string option \<Rightarrow> credentials \<Rightarrow> string option" where
  "cache_id w boto_profile creds =
     py_or boto_profile
       (case wo_environ w ''AWS_ACCESS_KEY_ID'' of
          Some k \<Rightarrow> Some k
        | None \<Rightarrow> (case dict_get creds ''aws_access_key_id'' of None \<Rightarrow> None | Some k \<Rightarrow> k))"

definition read_cache_dir :: "world \<Rightarrow> config \<Rightarrow> string option \<Rightarrow> string res" where
  "read_cache_dir w ini boto_profile =
     bind_res (config_str ini ''cache_path'') (\<lambda>path.
       Inr (if truthy_opt boto_profile then path_join (expanduser w path) (''profile_'' @ the boto_profile)
            else expanduser w path))"

definition read_cache_files :: "world \<Rightarrow> config \<Rightarrow> string option \<Rightarrow> credentials \<Rightarrow> string \<Rightarrow> cache_files res" where
  "read_cache_files w ini boto_profile creds dir =
     bind_res (bind_res (config_str ini ''cache_max_age'') py_int) (\<lambda>max_age.
       let i = cache_id w boto_profile creds;
           name = (if truthy_opt i then ''ansible-ec2-'' @ the i else ''ansible-ec2'') @ ''-'' @
             take 6 (drop 1 (int_to_dec (abs (wo_file_hash w))))
       in Inr \<lparr>cf_cache = path_join dir (name @ ''.cache''), cf_index = path_join dir (name @ ''.index''),
            cf_max_age = max_age\<rparr>)"

section \<open>All settings\<close>

definition group_by_options :: "string list" where
  "group_by_options = filter (\<lambda>a. py_startswith a ''group_by'') (dict_keys DEFAULTS)"

definition read_group_by :: "config \<Rightarrow> (string \<times> bool) list res" where
  "read_group_by ini =
     map_res (\<lambda>opt. bind_res (config_getboolean ini opt) (\<lambda>b. Inr (opt, b))) group_by_options"

text \<open>Up to the cache directory; the settings that are read after it hold fixed values until then.\<close>

definition read_settings_head :: "world \<Rightarrow> config \<Rightarrow> (settings \<times> credentials \<times> string) res" where
  "read_settings_head w ini =
     bind_res (config_getboolean ini ''eucalyptus'') (\<lambda>eucalyptus.
     bind_res (read_regions w ini) (\<lambda>regions.
     bind_res (config_str ini ''destination_variable'') (\<lambda>dest_variable.
     bind_res (config_str ini ''vpc_destination_variable'') (\<lambda>vpc_variable.
     bind_res (config_get ini ''ec2'' ''hostname_variable'') (\<lambda>host_variable.
     bind_res (read_destination_format w ini) (\<lambda>(dest_format, dest_tags).
     bind_res (config_getboolean ini ''route53'') (\<lambda>route53.
     bind_res (config_get ini ''ec2'' ''route53_hostnames'') (\<lambda>r53_hostnames.
     bind_res (config_str ini ''route53_excluded_zones'') (\<lambda>r53_excluded.
     bind_res (config_getboolean ini ''rds'') (\<lambda>rds.
     bind_res (config_getboolean ini ''include_rds_clusters'') (\<lambda>rds_clusters.
     bind_res (config_getboolean ini ''elasticache'') (\<lambda>elasticache.
     bind_res (read_instance_states ini) (\<lambda>states.
     bind_res (config_getboolean ini ''all_rds_instances'') (\<lambda>all_rds.
     bind_res (config_getboolean ini ''all_elasticache_replication_groups'') (\<lambda>all_groups.
     bind_res (config_getboolean ini ''all_elasticache_clusters'') (\<lambda>all_clusters.
     bind_res (config_getboolean ini ''all_elasticache_nodes'') (\<lambda>all_nodes.
     bind_res (read_boto_profile w ini) (\<lambda>boto_profile.
     bind_res (read_credentials w ini boto_profile) (\<lambda>creds.
     bind_res (read_cache_dir w ini boto_profile) (\<lambda>cache_dir.
       Inr (\<lparr>st_eucalyptus = eucalyptus, st_regions = regions, st_destination_variable = dest_variable,
           st_vpc_destination_variable = vpc_variable, st_hostname_variable = host_variable,
           st_destination_format = dest_format, st_destination_format_tags = dest_tags,
           st_route53_enabled = route53, st_route53_hostnames = r53_hostnames,
           st_route53_excluded_zones = filter (\<lambda>a. a \<noteq> []) (py_split CHR '','' r53_excluded),
           st_rds_enabled = rds, st_include_rds_clusters = rds_clusters, st_elasticache_enabled = elasticache,
           st_ec2_instance_states = states, st_all_rds_instances = all_rds,
           st_all_elasticache_replication_groups = all_groups, st_all_elasticache_clusters = all_clusters,
           st_all_elasticache_nodes = all_nodes, st_expand_csv_tags = False, st_nested_groups = False,
           st_replace_dash_in_groups = True, st_group_by = (\<lambda>opt. False),
           st_pattern_include = None, st_pattern_exclude = None, st_stack_filters = False,
           st_instance_filters = [], st_set_order = wo_set_order w,
           st_boto_profile = boto_profile, st_iam_role = None\<rparr>, creds, cache_dir)))))))))))))))))))))"

definition read_settings_tail ::
  "world \<Rightarrow> config \<Rightarrow> settings \<times> credentials \<times> string \<Rightarrow> (settings \<times> credentials \<times> cache_files) res"
where
  "read_settings_tail w ini = (\<lambda>(st, creds, cache_dir).
     bind_res (read_cache_files w ini (st_boto_profile st) creds cache_dir) (\<lambda>cache.
     bind_res (config_getboolean ini ''expand_csv_tags'') (\<lambda>csv.
     bind_res (config_getboolean ini ''nested_groups'') (\<lambda>nested.
     bind_res (config_getboolean ini ''replace_dash_in_groups'') (\<lambda>dash.
     bind_res (config_get ini ''ec2'' ''iam_role'') (\<lambda>role.
     bind_res (read_group_by ini) (\<lambda>groups.
     bind_res (read_pattern w ini ''pattern_include'') (\<lambda>include.
     bind_res (read_pattern w ini ''pattern_exclude'') (\<lambda>exclude.
     bind_res (config_getboolean ini ''stack_filters'') (\<lambda>stack.
     bind_res (read_instance_filters stack ini) (\<lambda>filters.
       Inr (st\<lparr>st_expand_csv_tags := csv, st_nested_groups := nested, st_replace_dash_in_groups := dash,
           st_iam_role := role, st_group_by := (\<lambda>opt. map_of groups opt = Some True),
           st_pattern_include := include, st_pattern_exclude := exclude, st_stack_filters := stack,
           st_instance_filters := filters\<rparr>, creds, cache))))))))))))"

text \<open>The values of all settings; the cache directory is made between the two halves.\<close>

definition read_settings :: "world \<Rightarrow> config \<Rightarrow> (settings \<times> credentials \<times> cache_files) res" where
  "read_settings w ini = bind_res (read_settings_head w ini) (read_settings_tail w ini)"

definition read_settings_io :: "world \<Rightarrow> config \<Rightarrow> (fsys, settings \<times> credentials \<times> cache_files) py" where
  "read_settings_io w ini =
     py_bind (py_lift (read_settings_head w ini)) (\<lambda>h.
     py_bind (os_path_exists (snd (snd h))) (\<lambda>ex.
     py_bind (py_when (\<not> ex) (os_makedirs (snd (snd h)))) (\<lambda>_.
       py_lift (read_settings_tail w ini h))))"

end
