(* ===== verification/SettingsProps.thy ===== *)
theory SettingsProps
  imports Settings Refresh
begin

text \<open>
  What \<open>read_settings\<close> guarantees: the filters of the ini file are read back as they were written, and
  whatever the file holds, the settings that come out are well-formed.
\<close>

section \<open>Splitting what was joined\<close>

lemma py_split_append: "c \<notin> set xs \<Longrightarrow> py_split c (xs @ c # ys) = xs # py_split c ys"
  by (induction xs) auto

lemma py_split_join: "xs \<noteq> [] \<Longrightarrow> \<forall>x \<in> set xs. c \<notin> set x \<Longrightarrow> py_split c (py_join [c] xs) = xs"
proof (induction xs)
  case (Cons x xs)
  then show ?case by (cases "xs = []") (simp_all add: py_split_single py_split_append)
qed simp

lemma py_split1_pair: "c \<notin> set k \<Longrightarrow> py_split1 c (k @ c # v) = [k, v]"
  by (induction k) (auto simp: py_split1_def)

lemma last_py_join: "xs \<noteq> [] \<Longrightarrow> \<forall>x \<in> set xs. x \<noteq> [] \<Longrightarrow> last (py_join [c] xs) = last (last xs) \<and> py_join [c] xs \<noteq> []"
  by (induction xs) auto

lemma hd_py_join: "xs \<noteq> [] \<Longrightarrow> hd xs \<noteq> [] \<Longrightarrow> hd (py_join [c] xs) = hd (hd xs)"
  by (cases xs) auto

lemma set_py_join: "set (py_join [c] xs) \<subseteq> insert c (\<Union>x \<in> set xs. set x)"
  by (induction xs) auto

section \<open>Filters as text\<close>

definition show_filter :: "string \<times> string \<Rightarrow> string" where
  "show_filter kv = fst kv @ ''='' @ snd kv"

definition show_filter_set :: "(string \<times> string) list \<Rightarrow> string" where
  "show_filter_set fs = py_join ''&'' (map show_filter fs)"

definition show_filters :: "(string \<times> string) list list \<Rightarrow> string" where
  "show_filters fss = py_join '','' (map show_filter_set fss)"

definition trimmed :: "string \<Rightarrow> bool" where
  "trimmed s \<longleftrightarrow> s = [] \<or> (\<not> is_space (hd s) \<and> \<not> is_space (last s))"

text \<open>A filter that can be written down: a name without \<open>=\<close>, and no separators of the file.\<close>

definition writable :: "string \<times> string \<Rightarrow> bool" where
  "writable kv \<longleftrightarrow> fst kv \<noteq> [] \<and> trimmed (fst kv) \<and> trimmed (snd kv) \<and> CHR ''='' \<notin> set (fst kv) \<and>
     {CHR ''&'', CHR '',''} \<inter> (set (fst kv) \<union> set (snd kv)) = {}"

lemma separators_not_space: "\<not> is_space CHR ''=''" "\<not> is_space CHR ''&''" "\<not> is_space CHR '',''"
  by (simp_all add: is_space_def code_of_def)

lemma strip_trimmed: "trimmed s \<Longrightarrow> py_strip s = s"
  unfolding trimmed_def by (rule py_strip_id)

lemma show_filter_trimmed: "writable kv \<Longrightarrow> trimmed (show_filter kv) \<and> show_filter kv \<noteq> []"
  by (auto simp: writable_def trimmed_def show_filter_def separators_not_space)

lemma parse_filter_show:
  "writable kv \<Longrightarrow> parse_filter d (show_filter kv) = dict_set d (fst kv) (PStr (snd kv))"
proof -
  assume w: "writable kv"
  have "py_strip (show_filter kv) = show_filter kv" using show_filter_trimmed [OF w] by (simp add: strip_trimmed)
  then show ?thesis using w
    by (simp add: parse_filter_def Let_def writable_def strip_trimmed)
      (simp add: show_filter_def py_split1_pair strip_trimmed)
qed

lemma foldl_dict_set_fresh:
  "distinct (map fst d @ map fst fs) \<Longrightarrow>
   foldl (\<lambda>d kv. dict_set d (fst kv) (g (snd kv))) d fs = d @ map (\<lambda>kv. (fst kv, g (snd kv))) fs"
proof (induction fs arbitrary: d)
  case (Cons kv fs)
  have "k \<notin> fst ` set d \<Longrightarrow> dict_set d k v = d @ [(k, v)]" for k v
    by (induction d) auto
  with Cons.prems have "dict_set d (fst kv) (g (snd kv)) = d @ [(fst kv, g (snd kv))]" by simp
  with Cons show ?case by simp
qed simp

lemma show_filter_set_trimmed:
  assumes "fs \<noteq> []" and "\<forall>kv \<in> set fs. writable kv"
  shows "trimmed (show_filter_set fs) \<and> show_filter_set fs \<noteq> []"
proof -
  have t: "trimmed (show_filter kv) \<and> show_filter kv \<noteq> []" if "kv \<in> set fs" for kv
    using that assms(2) show_filter_trimmed by blast
  have "last (show_filter_set fs) = last (show_filter (last fs))" "show_filter_set fs \<noteq> []"
    using last_py_join [of "map show_filter fs" "CHR ''&''"] assms(1) t by (auto simp: show_filter_set_def last_map)
  moreover have "hd (show_filter_set fs) = hd (show_filter (hd fs))"
    using hd_py_join [of "map show_filter fs" "CHR ''&''"] assms(1) t by (auto simp: show_filter_set_def hd_map)
  ultimately show ?thesis using t [of "hd fs"] t [of "last fs"] assms(1) by (auto simp: trimmed_def)
qed

lemma parse_filter_set_show:
  assumes "fs \<noteq> []" and "\<forall>kv \<in> set fs. writable kv" and "distinct (map fst fs)"
  shows "parse_filter_set (show_filter_set fs) = map (\<lambda>kv. (fst kv, PStr (snd kv))) fs"
proof -
  have "\<forall>x \<in> set (map show_filter fs). CHR ''&'' \<notin> set x"
    using assms(2) by (auto simp: writable_def show_filter_def)
  then have "py_split CHR ''&'' (py_strip (show_filter_set fs)) = map show_filter fs"
    using show_filter_set_trimmed [OF assms(1,2)] assms(1)
    by (simp add: strip_trimmed) (simp add: show_filter_set_def py_split_join)
  moreover have "foldl parse_filter d (map show_filter fs) =
      foldl (\<lambda>d kv. dict_set d (fst kv) (PStr (snd kv))) d fs" for d
    using assms(2) by (induction fs arbitrary: d) (simp_all add: parse_filter_show)
  ultimately show ?thesis using foldl_dict_set_fresh [of "[]" fs PStr] assms(3) by (simp add: parse_filter_set_def)
qed

text \<open>
  C35. The \<open>instance_filters\<close> option is read back as it was written: filter sets joined by commas, their
  filters by \<open>&\<close>, names and values by \<open>=\<close>, come out as the same sets in the same order, also when a
  value holds further \<open>=\<close>.
\<close>

theorem filters_roundtrip:
  assumes "\<forall>fs \<in> set fss. fs \<noteq> [] \<and> distinct (map fst fs) \<and> (\<forall>kv \<in> set fs. writable kv)"
  shows "parse_filters (show_filters fss) = map (map (\<lambda>kv. (fst kv, PStr (snd kv)))) fss"
proof (cases "fss = []")
  case False
  have nonempty: "show_filter_set fs \<noteq> []" if "fs \<in> set fss" for fs
    using that assms show_filter_set_trimmed by blast
  have comma: "CHR '','' \<notin> set (show_filter_set fs)" if "fs \<in> set fss" for fs
    using that assms set_py_join [of "CHR ''&''" "map show_filter fs"]
    by (fastforce simp: show_filter_set_def writable_def show_filter_def)
  have "py_split CHR '','' (show_filters fss) = map show_filter_set fss"
    using False comma by (simp add: show_filters_def py_split_join)
  moreover have "filter (\<lambda>f. f \<noteq> []) (map show_filter_set fss) = map show_filter_set fss"
    using nonempty by (simp add: filter_id_conv)
  moreover have "map parse_filter_set (map show_filter_set fss) = map (map (\<lambda>kv. (fst kv, PStr (snd kv)))) fss"
    using assms parse_filter_set_show by simp
  ultimately show ?thesis by (simp only: parse_filters_def)
qed (simp add: show_filters_def parse_filters_def)

theorem filters_roundtrip_witness:
  "parse_filters ''tag:env=prod&type=a=b,x='' = [[(''tag:env'', PStr ''prod''), (''type'', PStr ''a=b'')], [(''x'', PStr [])]]"
  using filters_roundtrip [of "[[(''tag:env'', ''prod''), (''type'', ''a=b'')], [(''x'', '''')]]"]
  by (simp add: writable_def trimmed_def show_filters_def show_filter_set_def show_filter_def is_space_def code_of_def)

section \<open>Well-formed settings\<close>

lemma read_settings_parts:
  assumes "read_settings w ini = Inr (st, creds, cache)"
  shows "read_regions w ini = Inr (st_regions st)" "read_instance_states ini = Inr (st_ec2_instance_states st)"
    "read_instance_filters (st_stack_filters st) ini = Inr (st_instance_filters st)"
    "read_credentials w ini (st_boto_profile st) = Inr creds"
    "\<exists>gs. read_group_by ini = Inr gs \<and> st_group_by st = (\<lambda>opt. map_of gs opt = Some True)"
    "\<exists>z. st_route53_excluded_zones st = filter (\<lambda>a. a \<noteq> []) (py_split CHR '','' z)"
    "\<exists>dir. read_cache_files w ini (st_boto_profile st) creds dir = Inr cache"
  using assms unfolding read_settings_def read_settings_head_def read_settings_tail_def
  by (auto simp only: bind_res_eq_Inr case_prod_beta fst_conv snd_conv sum.inject prod.inject settings.simps)

text \<open>A filter entry as \<open>read_settings\<close> stores it.\<close>

definition stored_filter :: "string \<times> pyval \<Rightarrow> bool" where
  "stored_filter f \<longleftrightarrow> fst f \<noteq> [] \<and> py_strip (fst f) = fst f \<and> CHR ''='' \<notin> set (fst f) \<and>
     (\<exists>s. snd f = PStr s \<and> py_strip s = s)"

lemma set_py_strip: "set (py_strip s) \<subseteq> set s"
  by (auto simp: py_strip_def dest!: set_dropWhileD)

lemma parse_filter_stored:
  assumes "\<forall>f \<in> set d. stored_filter f" shows "\<forall>f \<in> set (parse_filter d s). stored_filter f"
proof
  fix f assume f: "f \<in> set (parse_filter d s)"
  let ?s = "py_strip s"
  let ?k = "takeWhile (\<lambda>x. x \<noteq> CHR ''='') ?s"
  have "CHR ''='' \<notin> set (py_strip ?k)" using set_py_strip [of ?k] by (auto dest: set_takeWhileD)
  with f assms show "stored_filter f"
    by (auto simp: parse_filter_def Let_def py_split1_def stored_filter_def split: if_splits dest!: snd_set_dict_set)
qed

lemma parse_filters_stored: "fs \<in> set (parse_filters s) \<Longrightarrow> f \<in> set fs \<Longrightarrow> stored_filter f"
proof -
  have fold: "\<forall>f \<in> set (foldl parse_filter d xs). stored_filter f" if "\<forall>f \<in> set d. stored_filter f" for d xs
    using that
  proof (induction xs arbitrary: d)
    case (Cons x xs)
    from Cons.IH [OF parse_filter_stored [OF Cons.prems]] show ?case by simp
  qed simp
  show "fs \<in> set (parse_filters s) \<Longrightarrow> f \<in> set fs \<Longrightarrow> stored_filter f"
    using fold [of "[]"] by (auto simp: parse_filters_def parse_filter_set_def)
qed

lemma py_split_subset: "x \<in> set (py_split c u) \<Longrightarrow> set x \<subseteq> set u"
proof (induction u arbitrary: x)
  case (Cons a u)
  obtain y ys where u: "py_split c u = y # ys" by (cases "py_split c u") simp_all
  have "set y \<subseteq> set u" "\<And>z. z \<in> set ys \<Longrightarrow> set z \<subseteq> set u" using Cons.IH by (simp_all add: u)
  with Cons.prems show ?case by (cases "a = c") (auto simp: u)
qed simp

lemma stacked_single: "CHR ''&'' \<notin> set s \<Longrightarrow> fs \<in> set (parse_filters s) \<Longrightarrow> length fs \<le> 1"
proof -
  assume s: "CHR ''&'' \<notin> set s" and "fs \<in> set (parse_filters s)"
  then obtain x where x: "x \<in> set (py_split CHR '','' s)" "fs = parse_filter_set x" by (auto simp: parse_filters_def)
  then have "CHR ''&'' \<notin> set (py_strip x)" using s py_split_subset set_py_strip by blast
  then show ?thesis by (simp add: x(2) parse_filter_set_def py_split_single parse_filter_def Let_def)
qed

lemma read_instance_states_valid: "read_instance_states ini = Inr xs \<Longrightarrow> set xs \<subseteq> set ec2_valid_instance_states"
proof -
  have "''running'' \<in> set ec2_valid_instance_states" by (simp add: ec2_valid_instance_states_def)
  then show "read_instance_states ini = Inr xs \<Longrightarrow> set xs \<subseteq> set ec2_valid_instance_states"
    by (auto simp: read_instance_states_def bind_res_eq_Inr split: if_splits)
qed

lemma read_instance_filters_parsed:
  "read_instance_filters stack ini = Inr fss \<Longrightarrow>
   fss = [] \<or> (\<exists>s. fss = parse_filters s \<and> (stack \<longrightarrow> CHR ''&'' \<notin> set s))"
  by (auto simp: read_instance_filters_def bind_res_eq_Inr split: if_splits)

text \<open>
  C36. Whatever the ini file holds, the settings are well-formed when \<open>read_settings\<close> returns: only
  instance states that EC2 has, filters with trimmed names and text values, single filters when
  filters are stacked, no empty excluded zone, group options that exist, and no credentials next to a profile.
\<close>

theorem settings_well_formed:
  assumes "read_settings w ini = Inr (st, creds, cache)"
  shows "set (st_ec2_instance_states st) \<subseteq> set ec2_valid_instance_states \<and>
    list_all (list_all stored_filter) (st_instance_filters st) \<and>
    (st_stack_filters st \<longrightarrow> list_all (\<lambda>fs. length fs \<le> 1) (st_instance_filters st)) \<and>
    [] \<notin> set (st_route53_excluded_zones st) \<and>
    (\<forall>opt. st_group_by st opt \<longrightarrow> opt \<in> set group_by_options) \<and>
    (truthy_opt (st_boto_profile st) \<longrightarrow> creds = [])"
proof (intro conjI)
  note parts = read_settings_parts [OF assms]
  show "set (st_ec2_instance_states st) \<subseteq> set ec2_valid_instance_states"
    by (rule read_instance_states_valid [OF parts(2)])
  show "list_all (list_all stored_filter) (st_instance_filters st)"
    using read_instance_filters_parsed [OF parts(3)] parse_filters_stored by (force simp: list_all_iff)
  show "st_stack_filters st \<longrightarrow> list_all (\<lambda>fs. length fs \<le> 1) (st_instance_filters st)"
    using read_instance_filters_parsed [OF parts(3)] stacked_single by (force simp: list_all_iff)
  show "[] \<notin> set (st_route53_excluded_zones st)" using parts(6) by auto
  show "truthy_opt (st_boto_profile st) \<longrightarrow> creds = []" using parts(4) by (auto simp: read_credentials_def)
  show "\<forall>opt. st_group_by st opt \<longrightarrow> opt \<in> set group_by_options"
    using parts(5) by (auto simp: read_group_by_def bind_res_eq_Inr dest!: map_of_SomeD map_res_rev_mem)
qed

definition sample_world :: world where
  "sample_world = \<lparr>wo_environ = (\<lambda>_. None), wo_ec2_regions = [''eu-west-1'', ''us-gov-west-1''],
     wo_euca_region = (\<lambda>_. Inl AttributeError), wo_pwd = (\<lambda>_. None), wo_pwd_self = ''/root'', wo_file = ''/src/ec2.py'',
     wo_file_hash = 42,
     wo_compile = (\<lambda>_. Inl ValueError), wo_format = (\<lambda>_ _. Inl ValueError), wo_set_order = (\<lambda>_. []),
     wo_args_profile = None\<rparr>"

definition sample_ini :: config where
  "sample_ini = default_config\<lparr>cfg_sections := [(''ec2'', [(''cache_max_age'', Some ''5''),
     (''instance_states'', Some ''running, asleep''), (''stack_filters'', Some ''Yes''),
     (''instance_filters'', Some ''tag:env = prod'')]), (''credentials'', [])]\<rparr>"

theorem settings_well_formed_witness:
  "\<exists>st creds cache. read_settings sample_world sample_ini = Inr (st, creds, cache) \<and>
     st_regions st = [''eu-west-1''] \<and> st_ec2_instance_states st = [''running''] \<and>
     set (st_ec2_instance_states st) \<subseteq> set ec2_valid_instance_states"
proof -
  let ?r = "read_settings sample_world sample_ini"
  have "(case ?r of Inl e \<Rightarrow> False | Inr (st, creds, cache) \<Rightarrow>
    st_regions st = [''eu-west-1''] \<and> st_ec2_instance_states st = [''running''])" by code_simp
  then obtain st creds cache where "?r = Inr (st, creds, cache)" "st_regions st = [''eu-west-1'']"
    "st_ec2_instance_states st = [''running'']" by (auto split: sum.splits)
  with settings_well_formed [of sample_world sample_ini st creds cache] show ?thesis by simp
qed

end
