(* ===== verification/IniProps.thy ===== *)
theory IniProps
  imports Settings FileSystemProps
begin

text \<open>
  What \<open>read_config\<close> finds: it depends on the texts at two paths only, and a file that was written from
  sections and options gives these options back, with the defaults for all others.
\<close>

section \<open>Which file is read\<close>

definition config_paths :: "world \<Rightarrow> string set" where
  "config_paths w = {ec2_ini_path w, expanduser w (ini_fallback w)}"

lemma config_read_text: "text_at fs p = Some t \<Longrightarrow> config_read p cfg fs = (read_ini cfg t, fs)"
  by (simp add: config_read_def py_bind_def py_except_def py_return_def py_lift_def read_text_at)

definition ensured :: "string \<Rightarrow> config \<Rightarrow> config res" where
  "ensured name cfg = fst (ensure_section name cfg undefined)"

lemma ensure_section_eq: "ensure_section name cfg = py_lift (ensured name cfg)"
  by (auto simp: ensure_section_def ensured_def py_except_def py_lift_def py_return_def split: sum.splits)

text \<open>The text of the ini file, if one is found.\<close>

definition ini_text :: "world \<Rightarrow> fsys \<Rightarrow> string option" where
  "ini_text w fs = (case text_at fs (ec2_ini_path w) of
     Some t \<Rightarrow> Some t | None \<Rightarrow> text_at fs (expanduser w (ini_fallback w)))"

lemma read_config_eq:
  "read_config w fs =
     (bind_res (case ini_text w fs of None \<Rightarrow> Inr default_config | Some t \<Rightarrow> read_ini default_config t) (\<lambda>cfg.
      bind_res (ensured ''ec2'' cfg) (ensured ''credentials'')), fs)"
proof -
  have lift: "py_bind (py_lift r) (\<lambda>x. py_lift (f x)) = py_lift (bind_res r f)" for r and f :: "config \<Rightarrow> config res"
    by (cases r) (simp_all add: fun_eq_iff py_defs)
  let ?rest = "\<lambda>cfg. bind_res (ensured ''ec2'' cfg) (ensured ''credentials'')"
  define path where "path = (if text_at fs (ec2_ini_path w) \<noteq> None then ec2_ini_path w else expanduser w (ini_fallback w))"
  have found: "text_at fs path = ini_text w fs" by (auto simp: ini_text_def path_def)
  have "read_config w fs = py_bind (if text_at fs path \<noteq> None then config_read path default_config
      else py_return default_config) (\<lambda>cfg. py_lift (?rest cfg)) fs"
    unfolding read_config_def ensure_section_eq lift
    by (simp add: py_bind_def isfile_text Let_def path_def)
  then show ?thesis unfolding found
    by (cases "ini_text w fs")
      (auto simp: py_lift_def py_bind_def py_return_def config_read_text found split: sum.splits)
qed

lemma read_config_texts:
  assumes "\<And>p. p \<in> config_paths w \<Longrightarrow> text_at fs' p = text_at fs p"
  shows "snd (read_config w fs) = fs \<and> fst (read_config w fs') = fst (read_config w fs)"
  using assms [of "ec2_ini_path w"] assms [of "expanduser w (ini_fallback w)"]
  by (cases "text_at fs (ec2_ini_path w)") (simp_all add: read_config_eq ini_text_def config_paths_def)

section \<open>Writing an ini file\<close>

text \<open>
  A section is a name with options, an option a name with the lines of its value.  Percent signs are
  doubled and further lines indented.
\<close>

type_synonym ini_section = "string \<times> (string \<times> string list) list"

definition escape :: "string \<Rightarrow> string" where
  "escape s = concat (map (\<lambda>c. if c = CHR ''%'' then ''%%'' else [c]) s)"

definition entry_lines :: "string \<times> string list \<Rightarrow> string list" where
  "entry_lines e = (fst e @ '' = '' @ hd (snd e)) # map (\<lambda>x. CHR '' '' # x) (tl (snd e))"

definition section_lines :: "ini_section \<Rightarrow> string list" where
  "section_lines s = (''['' @ fst s @ '']'') # concat (map entry_lines (snd s))"

definition with_newlines :: "string list \<Rightarrow> string" where
  "with_newlines ls = concat (map (\<lambda>l. l @ newline) ls)"

definition escaped :: "ini_section \<Rightarrow> ini_section" where
  "escaped s = (fst s, map (map_prod id (map escape)) (snd s))"

definition show_ini :: "ini_section list \<Rightarrow> string" where
  "show_ini secs = with_newlines (concat (map (section_lines \<circ> escaped) secs))"

text \<open>What can be written: no line ends, no white space around, and nothing that reads as something else.\<close>

definition plain :: "string \<Rightarrow> bool" where
  "plain s \<longleftrightarrow> CHR 10 \<notin> set s \<and> CHR 13 \<notin> set s \<and> (s = [] \<or> \<not> is_space (hd s) \<and> \<not> is_space (last s))"

definition no_comment :: "string \<Rightarrow> bool" where
  "no_comment s \<longleftrightarrow> s \<noteq> [] \<and> hd s \<noteq> CHR ''#'' \<and> hd s \<noteq> CHR '';''"

definition key_ok :: "string \<Rightarrow> bool" where
  "key_ok k \<longleftrightarrow> plain k \<and> no_comment k \<and> hd k \<noteq> CHR ''['' \<and> list_all (\<lambda>c. \<not> is_delim c) k \<and> py_lower k = k"

definition lines_ok :: "string list \<Rightarrow> bool" where
  "lines_ok ls \<longleftrightarrow> ls \<noteq> [] \<and> list_all plain ls \<and> list_all no_comment (tl ls)"

definition name_ok :: "string \<Rightarrow> bool" where
  "name_ok n \<longleftrightarrow> n \<noteq> [] \<and> n \<noteq> ''DEFAULT'' \<and> CHR '']'' \<notin> set n \<and> CHR 10 \<notin> set n \<and> CHR 13 \<notin> set n"

definition entries_ok :: "(string \<times> string list) list \<Rightarrow> bool" where
  "entries_ok es \<longleftrightarrow> distinct (map fst es) \<and> list_all (\<lambda>e. key_ok (fst e) \<and> lines_ok (snd e)) es"

definition ini_ok :: "ini_section list \<Rightarrow> bool" where
  "ini_ok secs \<longleftrightarrow> distinct (map fst secs) \<and> list_all (\<lambda>s. name_ok (fst s) \<and> entries_ok (snd s)) secs"

section \<open>Lines\<close>

lemma universal_newlines_id: "CHR 13 \<notin> set s \<Longrightarrow> universal_newlines s = s"
  by (induction s rule: universal_newlines.induct) auto

lemma py_split_lines: "\<forall>l \<in> set ls. c \<notin> set l \<Longrightarrow> py_split c (concat (map (\<lambda>l. l @ [c]) ls)) = ls @ [[]]"
proof (induction ls)
  case (Cons l ls)
  have "py_split c (l @ c # s) = l # py_split c s" if "c \<notin> set l" for l s
    using that by (induction l) auto
  with Cons show ?case by simp
qed simp

lemma text_lines_with_newlines:
  assumes "\<forall>l \<in> set ls. CHR 10 \<notin> set l \<and> CHR 13 \<notin> set l"
  shows "text_lines (with_newlines ls) = ls"
proof -
  have "CHR 13 \<notin> set (with_newlines ls)" using assms by (auto simp: with_newlines_def newline_def)
  moreover have "py_split (CHR 10) (with_newlines ls) = ls @ [[]]"
    using assms py_split_lines [of ls "CHR 10"] by (simp add: with_newlines_def newline_def)
  ultimately show ?thesis by (simp add: text_lines_def universal_newlines_id)
qed

lemma strip_plain: "plain s \<Longrightarrow> py_strip s = s"
  by (auto simp: plain_def intro: py_strip_id)

lemma space_chars: "is_space CHR '' ''" "\<not> is_space CHR ''[''" "\<not> is_space CHR '']''" "\<not> is_space CHR ''=''"
  by (simp_all add: is_space_def code_of_def)

section \<open>Reading the lines back\<close>

text \<open>The reader inside a section of the file.\<close>

definition in_section ::
  "(string, raw_value) dict \<Rightarrow> (string, (string, raw_value) dict) dict \<Rightarrow> string \<Rightarrow> string \<Rightarrow> reader"
where
  "in_section D S n k =
     \<lparr>rd_defaults = D, rd_sections = S, rd_cursect = Some n, rd_optname = k, rd_indent = 0, rd_bogus = False\<rparr>"

lemma dict_set_fresh: "k \<notin> fst ` set d \<Longrightarrow> dict_set d k v = d @ [(k, v)]"
  by (induction d) auto

lemma dict_set_last: "k \<notin> fst ` set d \<Longrightarrow> dict_set (d @ [(k, u)]) k v = d @ [(k, v)]"
  by (induction d) auto

lemma dict_get_last: "k \<notin> fst ` set d \<Longrightarrow> dict_get (d @ [(k, u)]) k = Some u"
  by (induction d) (auto simp: dict_get_def)

lemma dict_get_absent: "dict_get d k = None \<longleftrightarrow> k \<notin> fst ` set d"
  by (simp add: dict_get_def map_of_eq_None_iff)

lemma read_header:
  assumes "name_ok n" and "n \<notin> fst ` set (rd_sections r)" and "rd_indent r = 0" "\<not> rd_bogus r"
  shows "read_line (''['' @ n @ '']'') r = Inr (in_section (rd_defaults r) (rd_sections r @ [(n, [])]) n [])"
proof -
  let ?v = "CHR ''['' # n @ '']''"
  have v: "py_strip ?v = ?v" by (rule py_strip_id) (simp add: space_chars)
  have "takeWhile (\<lambda>x. x \<noteq> CHR '']'') (n @ '']'') = n"
    using assms(1) by (auto simp: name_ok_def intro: takeWhile_append2 [THEN trans])
  then have "section_header ?v = Some n" using assms(1) by (simp add: section_header_def name_ok_def Let_def)
  moreover have "open_section n (r\<lparr>rd_indent := 0\<rparr>) =
      Inr (in_section (rd_defaults r) (rd_sections r @ [(n, [])]) n [])"
    using assms by (cases r) (auto simp: open_section_def dict_get_absent in_section_def name_ok_def dict_set_fresh)
  ultimately show ?thesis using v by (simp add: read_line_def Let_def is_comment_def space_chars)
qed

lemma strip_space_end: "py_strip (s @ '' '') = py_strip s"
proof -
  have "dropWhile is_space (s @ '' '') = (if dropWhile is_space s = [] then [] else dropWhile is_space s @ '' '')"
    using space_chars(1) by (induction s) auto
  then show ?thesis
    by (cases "dropWhile is_space s = []") (simp_all add: py_strip_def space_chars del: dropWhile_eq_Nil_conv)
qed

lemma strip_space_start: "py_strip (CHR '' '' # s) = py_strip s"
  by (simp add: py_strip_def space_chars)

lemma key_value_line:
  assumes "key_ok k" and "plain l"
  shows "py_strip (k @ '' = '' @ l) = (if l = [] then k @ '' ='' else k @ '' = '' @ l)"
    and "option_line (py_strip (k @ '' = '' @ l)) = Some (k, l)"
proof -
  have k: "k \<noteq> []" "\<not> is_space (hd k)" "\<not> is_space (last k)" "\<forall>c \<in> set k. \<not> is_delim c"
    using assms(1) by (auto simp: key_ok_def plain_def no_comment_def list_all_iff)
  show line: "py_strip (k @ '' = '' @ l) = (if l = [] then k @ '' ='' else k @ '' = '' @ l)"
  proof (cases "l = []")
    case True
    have "py_strip ((k @ '' ='') @ '' '') = py_strip (k @ '' ='')" by (rule strip_space_end)
    also have "\<dots> = k @ '' =''" by (rule py_strip_id) (use k in \<open>simp add: space_chars hd_append\<close>)
    finally show ?thesis using True by simp
  next
    case False
    have "py_strip (k @ '' = '' @ l) = k @ '' = '' @ l"
      by (rule py_strip_id) (use k False assms(2) in \<open>auto simp: plain_def hd_append\<close>)
    with False show ?thesis by simp
  qed
  have strip: "strip_end is_space (k @ '' '') = k"
    using k by (cases k rule: rev_cases) (simp_all add: strip_end_def space_chars)
  have eq: "is_delim CHR ''=''" "\<not> is_delim CHR '' ''" by (simp_all add: is_delim_def)
  have value_part: "py_strip (if l = [] then [] else CHR '' '' # l) = l"
    using strip_plain [OF assms(2)] by (simp add: strip_space_start)
  have take: "takeWhile (\<lambda>c. \<not> is_delim c) (k @ '' ='' @ s) = k @ '' ''"
    and drop: "dropWhile (\<lambda>c. \<not> is_delim c) (k @ '' ='' @ s) = CHR ''='' # s" for s
    using k(4) eq by simp_all
  have "(if l = [] then k @ '' ='' else k @ '' = '' @ l) = k @ '' ='' @ (if l = [] then [] else CHR '' '' # l)" by simp
  then show "option_line (py_strip (k @ '' = '' @ l)) = Some (k, l)"
    unfolding line using take drop value_part strip eq
    by (simp only: option_line_def) (auto simp: is_delim_def)
qed

lemma read_entry_line:
  assumes "key_ok k" and "plain l" and "n \<noteq> ''DEFAULT''" and "n \<notin> fst ` set S" and "k \<notin> fst ` set es"
  shows "read_line (k @ '' = '' @ l) (in_section D (S @ [(n, es)]) n k0) =
    Inr (in_section D (S @ [(n, es @ [(k, Lines [l])])]) n k)"
proof -
  have k: "k \<noteq> []" "hd k \<noteq> CHR ''#''" "hd k \<noteq> CHR '';''" "hd k \<noteq> CHR ''[''" "py_lower k = k" "\<not> is_space (hd k)"
    using assms(1) by (auto simp: key_ok_def no_comment_def plain_def)
  define line where "line = k @ '' = '' @ l"
  define v where "v = py_strip line"
  obtain c s where cs: "k = c # s" using k(1) by (cases k) auto
  have opt: "option_line v = Some (k, l)" unfolding v_def line_def by (rule key_value_line(2) [OF assms(1,2)])
  have "v = c # tl v" using key_value_line(1) [OF assms(1,2)] by (simp add: v_def line_def cs)
  then have "\<not> is_comment line" "v \<noteq> []" "section_header v = None"
    using k cs by (auto simp: is_comment_def section_header_def Let_def v_def [symmetric] split: list.splits)
  moreover have "takeWhile is_space line = []" using k cs by (simp add: line_def)
  moreover have "read_option v (in_section D (S @ [(n, es)]) n k0\<lparr>rd_indent := 0\<rparr>) =
      Inr (in_section D (S @ [(n, es @ [(k, Lines [l])])]) n k)"
    using assms(3-5) k
    by (simp add: read_option_def opt cur_options_def in_section_def dict_get_last
        dict_get_absent [THEN iffD2] set_option_def dict_set_last dict_set_fresh)
  ultimately show ?thesis unfolding line_def [symmetric] by (simp add: read_line_def Let_def in_section_def v_def [symmetric])
qed

lemma read_continuation:
  assumes "plain x" "no_comment x" and "k \<noteq> []" and "n \<noteq> ''DEFAULT''" and "n \<notin> fst ` set S" and "k \<notin> fst ` set es"
  shows "read_line (CHR '' '' # x) (in_section D (S @ [(n, es @ [(k, Lines ls)])]) n k) =
    Inr (in_section D (S @ [(n, es @ [(k, Lines (ls @ [x]))])]) n k)"
proof -
  obtain c s where cs: "x = c # s" using assms(2) by (cases x) (auto simp: no_comment_def)
  have v: "py_strip (CHR '' '' # x) = x" using strip_plain [OF assms(1)] by (simp add: strip_space_start)
  have "\<not> is_comment (CHR '' '' # x)" using v assms(2) cs by (simp add: is_comment_def no_comment_def)
  moreover have "0 < length (takeWhile is_space (CHR '' '' # x))" by (simp add: space_chars)
  moreover have "add_line x (in_section D (S @ [(n, es @ [(k, Lines ls)])]) n k) =
      in_section D (S @ [(n, es @ [(k, Lines (ls @ [x]))])]) n k"
    using assms(4-6) by (simp add: add_line_def cur_options_def in_section_def dict_get_last set_option_def dict_set_last)
  ultimately show ?thesis using v assms(3) cs by (simp add: read_line_def Let_def in_section_def)
qed

definition raw_entry :: "string \<times> string list \<Rightarrow> string \<times> raw_value" where
  "raw_entry e = (fst e, Lines (snd e))"

lemma raw_entry_pair [simp]: "raw_entry (k, ls) = (k, Lines ls)"
  by (simp add: raw_entry_def)

lemma fold_res_append: "fold_res f a (xs @ ys) = bind_res (fold_res f a xs) (\<lambda>b. fold_res f b ys)"
proof (induction xs arbitrary: a)
  case (Cons x xs)
  then show ?case by (cases "f x a") simp_all
qed simp

lemma read_continuations:
  assumes "k \<noteq> []" and "n \<noteq> ''DEFAULT''" and "n \<notin> fst ` set S" and "k \<notin> fst ` set es"
  shows "list_all (\<lambda>x. plain x \<and> no_comment x) xs \<Longrightarrow>
    fold_res read_line (in_section D (S @ [(n, es @ [(k, Lines ls)])]) n k) (map (\<lambda>x. CHR '' '' # x) xs) =
    Inr (in_section D (S @ [(n, es @ [(k, Lines (ls @ xs))])]) n k)"
proof (induction xs arbitrary: ls)
  case (Cons x xs)
  then have "plain x" "no_comment x" by simp_all
  with Cons show ?case by (simp add: read_continuation [OF _ _ assms])
qed simp

lemma read_entries:
  assumes "n \<noteq> ''DEFAULT''" and "n \<notin> fst ` set S"
  shows "list_all (\<lambda>e. key_ok (fst e) \<and> lines_ok (snd e)) fs \<Longrightarrow> distinct (map fst es @ map fst fs) \<Longrightarrow>
    \<exists>k'. fold_res read_line (in_section D (S @ [(n, es)]) n k0) (concat (map entry_lines fs)) =
      Inr (in_section D (S @ [(n, es @ map raw_entry fs)]) n k')"
proof (induction fs arbitrary: es k0)
  case (Cons f fs)
  obtain k l ls where f: "f = (k, l # ls)" using Cons.prems(1) by (cases f; cases "snd f") (auto simp: lines_ok_def)
  then have ok: "key_ok k" "plain l" "list_all (\<lambda>x. plain x \<and> no_comment x) ls" and k: "k \<notin> fst ` set es"
    using Cons.prems by (auto simp: lines_ok_def list_all_iff)
  then have ne: "k \<noteq> []" by (auto simp: key_ok_def no_comment_def)
  have "fold_res read_line (in_section D (S @ [(n, es)]) n k0) (entry_lines f) =
      Inr (in_section D (S @ [(n, es @ [(k, Lines (l # ls))])]) n k)"
    using read_continuations [OF ne assms k ok(3), of D "[l]"] read_entry_line [OF ok(1,2) assms k, of D k0]
    by (simp add: f entry_lines_def)
  moreover obtain k' where "fold_res read_line (in_section D (S @ [(n, es @ [(k, Lines (l # ls))])]) n k)
      (concat (map entry_lines fs)) = Inr (in_section D (S @ [(n, (es @ [(k, Lines (l # ls))]) @ map raw_entry fs)]) n k')"
    using Cons.IH [of "es @ [(k, Lines (l # ls))]" k] Cons.prems by (auto simp: f)
  ultimately show ?case by (auto simp: fold_res_append f)
qed auto

definition raw_section :: "ini_section \<Rightarrow> string \<times> (string, raw_value) dict" where
  "raw_section s = (fst s, map raw_entry (snd s))"

definition before_section :: "(string, raw_value) dict \<Rightarrow> ini_section list \<Rightarrow> reader \<Rightarrow> bool" where
  "before_section D secs r \<longleftrightarrow> rd_defaults r = D \<and> rd_sections r = map raw_section secs \<and> rd_indent r = 0 \<and> \<not> rd_bogus r"

lemma read_sections:
  "list_all (\<lambda>s. name_ok (fst s) \<and> entries_ok (snd s)) secs' \<Longrightarrow> distinct (map fst secs @ map fst secs') \<Longrightarrow>
   before_section D secs r \<Longrightarrow>
   \<exists>r'. fold_res read_line r (concat (map section_lines secs')) = Inr r' \<and> before_section D (secs @ secs') r'"
proof (induction secs' arbitrary: secs r)
  case (Cons s secs')
  let ?n = "fst s" and ?S = "map raw_section secs"
  have n: "name_ok ?n" "?n \<noteq> ''DEFAULT''" and es: "entries_ok (snd s)"
    using Cons.prems(1) by (auto simp: name_ok_def)
  have fresh: "?n \<notin> fst ` set ?S" using Cons.prems(2) by (force simp: raw_section_def)
  have head: "read_line (''['' @ ?n @ '']'') r = Inr (in_section D (?S @ [(?n, [])]) ?n [])"
    using read_header [OF n(1), of r] fresh Cons.prems(3) by (simp add: before_section_def)
  obtain k' where body: "fold_res read_line (in_section D (?S @ [(?n, [])]) ?n []) (concat (map entry_lines (snd s))) =
      Inr (in_section D (?S @ [(?n, map raw_entry (snd s))]) ?n k')"
    using read_entries [OF n(2) fresh, of "snd s" "[]" D "[]"] es by (auto simp: entries_ok_def)
  let ?r = "in_section D (?S @ [(?n, map raw_entry (snd s))]) ?n k'"
  have "before_section D (secs @ [s]) ?r" by (simp add: before_section_def in_section_def raw_section_def)
  with Cons.IH [of "secs @ [s]" ?r] Cons.prems show ?case
    using head body by (auto simp: section_lines_def fold_res_append)
qed auto

section \<open>Values\<close>

lemma interpolate_escape: "interpolate (Suc n) get (escape s) = Inr s"
  by (induction s) (simp_all add: escape_def)

lemma escape_join: "CHR ''%'' \<notin> set sep \<Longrightarrow> py_join sep (map escape ls) = escape (py_join sep ls)"
proof (induction ls)
  case (Cons l ls)
  have "escape (xs @ ys) = escape xs @ escape ys" for xs ys by (simp add: escape_def)
  moreover have "escape sep = sep" using Cons.prems by (induction sep) (auto simp: escape_def)
  ultimately show ?case using Cons by simp
qed (simp add: escape_def)

lemma escape_props:
  "set (escape s) = set s" "escape s = [] \<longleftrightarrow> s = []" "s \<noteq> [] \<Longrightarrow> hd (escape s) = hd s" "s \<noteq> [] \<Longrightarrow> last (escape s) = last s"
proof -
  show "set (escape s) = set s" by (induction s) (auto simp: escape_def)
  show empty: "escape s = [] \<longleftrightarrow> s = []" for s by (cases s) (simp_all add: escape_def)
  show "s \<noteq> [] \<Longrightarrow> hd (escape s) = hd s" by (cases s) (simp_all add: escape_def)
  show "s \<noteq> [] \<Longrightarrow> last (escape s) = last s" by (cases s rule: rev_cases) (simp_all add: escape_def)
qed

lemma escape_ok: "plain (escape s) = plain s" "no_comment (escape s) = no_comment s"
  using escape_props [of s] by (cases "s = []"; auto simp: plain_def no_comment_def)+

lemma escaped_lines_ok: "lines_ok (map escape ls) = lines_ok ls"
  by (cases ls) (auto simp: lines_ok_def escape_ok list_all_iff)

lemma strip_end_join:
  assumes "lines_ok ls"
  shows "strip_end is_space (py_join newline ls) = py_join newline ls"
proof -
  have "plain xs \<Longrightarrow> strip_end is_space xs = xs" for xs
    by (cases xs rule: rev_cases) (auto simp: plain_def strip_end_def)
  moreover have last: "ls' \<noteq> [] \<Longrightarrow> list_all (\<lambda>x. plain x \<and> no_comment x) ls' \<Longrightarrow>
      py_join newline ls' \<noteq> [] \<and> \<not> is_space (last (py_join newline ls'))" for ls'
    by (induction ls') (auto simp: no_comment_def plain_def)
  moreover obtain x xs where "ls = x # xs" "plain x" "list_all (\<lambda>x. plain x \<and> no_comment x) xs"
    using assms by (cases ls) (auto simp: lines_ok_def list_all_iff)
  moreover have "ys \<noteq> [] \<Longrightarrow> \<not> is_space (last ys) \<Longrightarrow> strip_end is_space ys = ys" for ys
    by (cases ys rule: rev_cases) (simp_all add: strip_end_def)
  ultimately show ?thesis by (cases "xs = []") (auto simp: newline_def)
qed

section \<open>The file read back\<close>

definition value_section :: "ini_section \<Rightarrow> string \<times> options" where
  "value_section s = (fst s, map (\<lambda>e. (fst e, Some (escape (py_join newline (snd e))))) (snd s))"

lemma line_chars:
  assumes "ini_ok secs" and "l \<in> set (concat (map (section_lines \<circ> escaped) secs))"
  shows "CHR 10 \<notin> set l \<and> CHR 13 \<notin> set l"
proof -
  from assms(2) obtain s where s: "s \<in> set secs" and l: "l \<in> set (section_lines (escaped s))" by auto
  have ok: "name_ok (fst s)" "entries_ok (snd s)" using assms(1) s by (auto simp: ini_ok_def list_all_iff)
  show ?thesis
  proof (cases "l = ''['' @ fst s @ '']''")
    case True
    with ok(1) show ?thesis by (simp add: name_ok_def)
  next
    case False
    with l obtain e where e: "e \<in> set (snd s)" and le: "l \<in> set (entry_lines (map_prod id (map escape) e))"
      by (auto simp: section_lines_def escaped_def)
    then have "key_ok (fst e)" "lines_ok (snd e)" using ok(2) by (auto simp: entries_ok_def list_all_iff)
    then have "\<forall>x \<in> set (fst e # map escape (snd e)). CHR 10 \<notin> set x \<and> CHR 13 \<notin> set x" "snd e \<noteq> []"
      by (auto simp: key_ok_def lines_ok_def plain_def list_all_iff escape_props)
    with le show ?thesis by (cases "snd e") (auto simp: entry_lines_def)
  qed
qed

lemma escaped_ok:
  assumes "ini_ok secs"
  shows "list_all (\<lambda>s. name_ok (fst s) \<and> entries_ok (snd s)) (map escaped secs)" "distinct (map fst (map escaped secs))"
  using assms by (auto simp: ini_ok_def escaped_def entries_ok_def list_all_iff escaped_lines_ok comp_def)

lemma joined_section:
  assumes "entries_ok (snd s)"
  shows "map_prod id joined (raw_section (escaped s)) = value_section s"
proof -
  have "strip_end is_space (py_join newline (map escape (snd e))) = escape (py_join newline (snd e))"
    if "e \<in> set (snd s)" for e
    using that assms strip_end_join [of "map escape (snd e)"] escape_join [of newline "snd e"]
    by (auto simp: entries_ok_def list_all_iff escaped_lines_ok newline_def)
  then show ?thesis
    by (auto simp: raw_section_def escaped_def value_section_def joined_def raw_entry_def)
qed

lemma read_show_ini:
  assumes "ini_ok secs"
  shows "read_ini cfg (show_ini secs) = Inr \<lparr>cfg_defaults = cfg_defaults cfg, cfg_sections = map value_section secs\<rparr>"
proof -
  have lines: "text_lines (show_ini secs) = concat (map section_lines (map escaped secs))"
    using text_lines_with_newlines [of "concat (map (section_lines \<circ> escaped) secs)"] line_chars [OF assms]
    by (simp add: show_ini_def comp_def)
  let ?D = "map (map_prod id Whole) (cfg_defaults cfg)"
  have "before_section ?D [] (start_reader cfg)" by (simp add: before_section_def start_reader_def)
  with read_sections [of "map escaped secs" "[]"] escaped_ok [OF assms] obtain r where
    r: "fold_res read_line (start_reader cfg) (concat (map section_lines (map escaped secs))) = Inr r"
      "before_section ?D (map escaped secs) r" by auto
  have "map (map_prod id joined) (map raw_section (map escaped secs)) = map value_section secs"
    using assms joined_section by (auto simp: ini_ok_def list_all_iff)
  moreover have "joined ?D = cfg_defaults cfg" by (simp add: joined_def comp_def prod.map_comp map_idI)
  ultimately show ?thesis using r by (simp add: read_ini_def lines before_section_def)
qed

lemma map_of_member: "distinct (map fst d) \<Longrightarrow> (k, v) \<in> set d \<Longrightarrow> dict_get (map (\<lambda>e. (fst e, f (snd e))) d) k = Some (f v)"
  by (force simp: dict_get_def comp_def intro!: map_of_is_SomeI)

lemma ensured_eq:
  "n \<noteq> ''DEFAULT'' \<Longrightarrow> ensured n cfg = Inr (if dict_get (cfg_sections cfg) n \<noteq> None then cfg
     else cfg\<lparr>cfg_sections := dict_set (cfg_sections cfg) n []\<rparr>)"
  by (auto simp: ensured_def ensure_section_def add_section_def py_defs)

lemma interpolate_plain: "CHR ''%'' \<notin> set s \<Longrightarrow> interpolate (Suc n) get s = Inr s"
proof (induction s)
  case (Cons c s)
  then have "c \<noteq> CHR ''%''" by auto
  with Cons show ?case by simp
qed simp

lemma defaults_plain: "list_all (\<lambda>kv. case snd kv of None \<Rightarrow> True | Some s \<Rightarrow> CHR ''%'' \<notin> set s) DEFAULTS"
  by code_simp

lemma config_get_default:
  assumes "dict_get (cfg_sections cfg) n = Some d" "dict_get d k = None" "cfg_defaults cfg = DEFAULTS" "dict_get DEFAULTS k = Some v"
  shows "config_get cfg n k = Inr v"
proof -
  have "(k, v) \<in> set DEFAULTS" using assms(4) by (simp add: dict_get_def map_of_SomeD)
  then have "case v of None \<Rightarrow> True | Some s \<Rightarrow> CHR ''%'' \<notin> set s" using defaults_plain by (auto simp: list_all_iff)
  with assms show ?thesis
    by (cases v) (simp_all add: config_get_def config_lookup_def max_interpolation_depth_def eval_nat_numeral interpolate_plain)
qed

lemma config_get_escaped:
  assumes "dict_get (cfg_sections cfg) n = Some d" "dict_get d k = Some (Some (escape v))"
  shows "config_get cfg n k = Inr (Some v)"
  using assms by (simp add: config_get_def config_lookup_def max_interpolation_depth_def eval_nat_numeral interpolate_escape)

lemma read_config_written:
  assumes "ini_text w fs = Some (show_ini secs)" and "ini_ok secs"
  shows "\<exists>cfg. read_config w fs = (Inr cfg, fs) \<and> cfg_defaults cfg = DEFAULTS \<and>
    (\<forall>n. dict_get (cfg_sections cfg) n = (case dict_get (map value_section secs) n of Some d \<Rightarrow> Some d
       | None \<Rightarrow> if n = ''ec2'' \<or> n = ''credentials'' then Some [] else None))"
  using assms
  by (auto simp: read_config_eq read_show_ini default_config_def ensured_eq dict_get_set split: option.splits)

text \<open>
  C34. An ini file is read back as it was written, from \<open>EC2_INI_PATH\<close> or the place beside the script where it
  is found: every option has its value, however many lines and percent signs it has, and the
  options of \<open>ec2\<close> and \<open>credentials\<close> that the file does not set have their defaults, whether the file has
  these sections or not.
\<close>

theorem ini_file_read_back:
  assumes "ini_text w fs = Some (show_ini secs)" and "ini_ok secs"
  shows "\<exists>cfg. read_config w fs = (Inr cfg, fs) \<and>
    (\<forall>s \<in> set secs. \<forall>e \<in> set (snd s). config_get cfg (fst s) (fst e) = Inr (Some (py_join newline (snd e)))) \<and>
    (\<forall>n \<in> {''ec2'', ''credentials''}. \<forall>k. (\<forall>s \<in> set secs. fst s = n \<longrightarrow> k \<notin> fst ` set (snd s)) \<longrightarrow>
       (config_has_option cfg n k \<longleftrightarrow> dict_get DEFAULTS k \<noteq> None) \<and>
       (\<forall>v. dict_get DEFAULTS k = Some v \<longrightarrow> config_get cfg n k = Inr v))"
proof -
  obtain cfg where run: "read_config w fs = (Inr cfg, fs)" and D: "cfg_defaults cfg = DEFAULTS"
    and S: "\<And>n. dict_get (cfg_sections cfg) n = (case dict_get (map value_section secs) n of Some d \<Rightarrow> Some d
       | None \<Rightarrow> if n = ''ec2'' \<or> n = ''credentials'' then Some [] else None)"
    using read_config_written [OF assms] by blast
  let ?vals = "\<lambda>es. map (\<lambda>e. (fst e, Some (escape (py_join newline (snd e))))) es"
  have sec: "dict_get (map value_section secs) (fst s) = Some (?vals (snd s))" if "s \<in> set secs" for s
    using map_of_member [of secs "fst s" "snd s" ?vals] that assms(2) by (simp add: ini_ok_def value_section_def [abs_def])
  have "config_get cfg (fst s) (fst e) = Inr (Some (py_join newline (snd e)))" if "s \<in> set secs" "e \<in> set (snd s)" for s e
  proof (rule config_get_escaped)
    show "dict_get (cfg_sections cfg) (fst s) = Some (?vals (snd s))" using sec [OF that(1)] by (simp add: S)
    have "distinct (map fst (snd s))" using assms(2) that(1) by (auto simp: ini_ok_def entries_ok_def list_all_iff)
    with that(2) show "dict_get (?vals (snd s)) (fst e) = Some (Some (escape (py_join newline (snd e))))"
      using map_of_member [of "snd s" "fst e" "snd e" "\<lambda>ls. Some (escape (py_join newline ls))"] by simp
  qed
  moreover have "(config_has_option cfg n k \<longleftrightarrow> dict_get DEFAULTS k \<noteq> None) \<and>
      (\<forall>v. dict_get DEFAULTS k = Some v \<longrightarrow> config_get cfg n k = Inr v)"
    if n: "n \<in> {''ec2'', ''credentials''}" and k: "\<forall>s \<in> set secs. fst s = n \<longrightarrow> k \<notin> fst ` set (snd s)" for n k
  proof -
    obtain d where d: "dict_get (cfg_sections cfg) n = Some d" and "dict_get d k = None"
    proof (cases "dict_get (map value_section secs) n")
      case None
      with n have "dict_get (cfg_sections cfg) n = Some []" by (auto simp: S)
      then show thesis by (rule that) (simp add: dict_get_def)
    next
      case (Some d)
      then have "(n, d) \<in> set (map value_section secs)" unfolding dict_get_def by (rule map_of_SomeD)
      then obtain s where "s \<in> set secs" "fst s = n" "d = ?vals (snd s)" by (auto simp: value_section_def)
      with k have "dict_get d k = None" by (auto simp: dict_get_absent image_iff)
      moreover have "dict_get (cfg_sections cfg) n = Some d" using Some by (simp add: S)
      ultimately show thesis by (rule that [rotated])
    qed
    with D config_get_default [OF d _ D] show ?thesis by (auto simp: config_has_option_def config_lookup_def)
  qed
  ultimately show ?thesis using run by blast
qed

definition sample_secs :: "ini_section list" where
  "sample_secs = [(''ec2'', [(''regions'', [''eu, us'']), (''instance_filters'', [[], ''a=50%,'', ''b = [x]''])])]"

definition ini_world :: world where
  "ini_world = \<lparr>wo_environ = (\<lambda>v. if v = ''EC2_INI_PATH'' then Some ''${HOME}/x.ini'' else if v = ''HOME'' then Some ''/h'' else None),
     wo_ec2_regions = [], wo_euca_region = (\<lambda>_. Inl AttributeError), wo_pwd = (\<lambda>_. None), wo_pwd_self = ''/root'',
     wo_file = ''/s/ec2.py'', wo_file_hash = 42, wo_compile = (\<lambda>_. Inl ValueError), wo_format = (\<lambda>_ _. Inl ValueError),
     wo_set_order = (\<lambda>_. []), wo_args_profile = None\<rparr>"

definition ini_files :: fsys where
  "ini_files = \<lparr>fs_inodes = [(''/h'', Dir), (''/h/x.ini'', File (show_ini sample_secs))], fs_refused = (\<lambda>_. False)\<rparr>"

theorem ini_file_read_back_witness:
  "\<exists>cfg. read_config ini_world ini_files = (Inr cfg, ini_files) \<and>
     config_get cfg ''ec2'' ''instance_filters'' = Inr (Some (newline @ ''a=50%,'' @ newline @ ''b = [x]'')) \<and>
     config_get cfg ''ec2'' ''cache_max_age'' = Inr (Some ''300'')"
proof -
  have found: "ini_text ini_world ini_files = Some (show_ini sample_secs)" by code_simp
  have ok: "ini_ok sample_secs" by code_simp
  from ini_file_read_back [OF found ok] obtain cfg where run: "read_config ini_world ini_files = (Inr cfg, ini_files)"
    and vals: "\<forall>s \<in> set sample_secs. \<forall>e \<in> set (snd s). config_get cfg (fst s) (fst e) = Inr (Some (py_join newline (snd e)))"
    and rest: "\<forall>n \<in> {''ec2'', ''credentials''}. \<forall>k. (\<forall>s \<in> set sample_secs. fst s = n \<longrightarrow> k \<notin> fst ` set (snd s)) \<longrightarrow>
       (config_has_option cfg n k \<longleftrightarrow> dict_get DEFAULTS k \<noteq> None) \<and>
       (\<forall>v. dict_get DEFAULTS k = Some v \<longrightarrow> config_get cfg n k = Inr v)" by blast
  have "dict_get DEFAULTS ''cache_max_age'' = Some (Some ''300'')" by code_simp
  with rest have "config_get cfg ''ec2'' ''cache_max_age'' = Inr (Some ''300'')" by (simp add: sample_secs_def)
  with run vals show ?thesis by (simp add: sample_secs_def)
qed

end
