(* ===== verification/CommandLine.thy ===== *)
theory CommandLine
  imports PyStr
begin

text \<open>
  \<open>parse_cli_args\<close> of ops/ansible/ec2.py with the part of \<open>argparse\<close> that it uses: an argument is classified
  by its looks, abbreviations and \<open>=\<close> included, before any option is carried out; then the options take
  their effect from left to right.  A wrong command line exits with status 2, \<open>--help\<close> with 0.
\<close>

section \<open>The parser\<close>

datatype cli_action = HelpOption | ListOption | HostOption | RefreshOption | ProfileOption

definition option_actions :: "(string \<times> cli_action) list" where
  "option_actions =
     [(''-h'', HelpOption), (''--help'', HelpOption), (''--list'', ListOption), (''--host'', HostOption),
      (''--refresh-cache'', RefreshOption), (''--profile'', ProfileOption), (''--boto-profile'', ProfileOption)]"

definition takes_value :: "cli_action \<Rightarrow> bool" where
  "takes_value a \<longleftrightarrow> a = HostOption \<or> a = ProfileOption"

text \<open>The namespace that \<open>parse_args\<close> fills, with the defaults of \<open>add_argument\<close>.\<close>

record cli_args =
  ar_list :: bool
  ar_host :: "string option"
  ar_refresh_cache :: bool
  ar_boto_profile :: "string option"

definition default_args :: cli_args where
  "default_args = \<lparr>ar_list = True, ar_host = None, ar_refresh_cache = False, ar_boto_profile = None\<rparr>"

section \<open>Looking at an argument\<close>

text \<open>
  An option carries the string it was recognised as and the value given with it.  \<open>None\<close> is an option
  nobody has declared.
\<close>

datatype arg_kind =
    Positional
  | DashDash
  | Declared cli_action string "string option"
  | Unknown

definition is_negative_number :: "string \<Rightarrow> bool" where
  "is_negative_number s =
     (let t = (if py_endswith s newline then butlast s else s); d = tl t; f = dropWhile is_09 d
      in py_startswith t ''-'' \<and> (d \<noteq> [] \<and> f = [] \<or> py_startswith f ''.'' \<and> tl f \<noteq> [] \<and> list_all is_09 (tl f)))"

text \<open>\<open>_get_option_tuples\<close>: what an abbreviation stands for.\<close>

definition option_tuples :: "string \<Rightarrow> (cli_action \<times> string \<times> string option) list" where
  "option_tuples s =
     (if py_startswith s ''--'' then
        (let pre = py_split1 CHR ''='' s ! 0;
             given = (if CHR ''='' \<in> set s then Some (py_split1 CHR ''='' s ! 1) else None)
         in map (\<lambda>(opt, a). (a, opt, given)) (filter (\<lambda>(opt, a). py_startswith opt pre) option_actions))
      else
        map (\<lambda>(opt, a). if opt = take 2 s then (a, opt, Some (drop 2 s)) else (a, opt, None))
          (filter (\<lambda>(opt, a). opt = take 2 s \<or> py_startswith opt s) option_actions))"

definition parse_optional :: "string \<Rightarrow> arg_kind res" where
  "parse_optional s =
     (if \<not> py_startswith s ''-'' then Inr Positional
      else (case map_of option_actions s of
        Some a \<Rightarrow> Inr (Declared a s None)
      | None \<Rightarrow>
          if length s = 1 then Inr Positional
          else (case (if CHR ''='' \<in> set s then map_of option_actions (py_split1 CHR ''='' s ! 0) else None) of
            Some a \<Rightarrow> Inr (Declared a (py_split1 CHR ''='' s ! 0) (Some (py_split1 CHR ''='' s ! 1)))
          | None \<Rightarrow>
              (case option_tuples s of
                 [(a, opt, given)] \<Rightarrow> Inr (Declared a opt given)
               | [] \<Rightarrow> Inr (if is_negative_number s \<or> CHR '' '' \<in> set s then Positional else Unknown)
               | _ \<Rightarrow> Inl (UsageExit 2)))))"

fun classify :: "string list \<Rightarrow> (string \<times> arg_kind) list res" where
  "classify [] = Inr []"
| "classify (s # ss) =
     (if s = ''--'' then Inr ((s, DashDash) # map (\<lambda>t. (t, Positional)) ss)
      else bind_res (parse_optional s) (\<lambda>k. bind_res (classify ss) (\<lambda>ks. Inr ((s, k) # ks))))"

section \<open>Carrying the options out\<close>

text \<open>
  A value \<open>--\<close> is dropped, which leaves the empty list; like the empty string it counts as false
  wherever the script looks at it.
\<close>

definition store_value :: "cli_action \<Rightarrow> string \<Rightarrow> cli_args \<Rightarrow> cli_args" where
  "store_value a v ns =
     (let v = (if v = ''--'' then [] else v)
      in if a = HostOption then ns\<lparr>ar_host := Some v\<rparr> else ns\<lparr>ar_boto_profile := Some v\<rparr>)"

definition set_flag :: "cli_action \<Rightarrow> cli_args \<Rightarrow> cli_args res" where
  "set_flag a ns =
     (case a of
        ListOption \<Rightarrow> Inr (ns\<lparr>ar_list := True\<rparr>)
      | RefreshOption \<Rightarrow> Inr (ns\<lparr>ar_refresh_cache := True\<rparr>)
      | _ \<Rightarrow> Inl (UsageExit 0))"

text \<open>A value that comes with a flag is an error, except that \<open>-h\<close> takes it for more one-letter options.\<close>

definition flag_with_value :: "string \<Rightarrow> string \<Rightarrow> py_exn" where
  "flag_with_value opt v =
     (if opt = ''-h'' then
        if v = [] then IndexError
        else if list_all (\<lambda>c. c = CHR ''h'') v then UsageExit 0 else UsageExit 2
      else UsageExit 2)"

text \<open>The second component says that there are arguments nobody has taken.\<close>

fun consume :: "(string \<times> arg_kind) list \<Rightarrow> cli_args \<times> bool \<Rightarrow> (cli_args \<times> bool) res" where
  "consume [] (ns, extras) = Inr (ns, extras)"
| "consume ((s, k) # args) (ns, extras) =
     (case k of
        Declared a opt given \<Rightarrow>
          (case given of
             Some v \<Rightarrow>
               if takes_value a then consume args (store_value a v ns, extras)
               else Inl (flag_with_value opt v)
           | None \<Rightarrow>
               if takes_value a then
                 (case args of
                    (v, Positional) # args' \<Rightarrow> consume args' (store_value a v ns, extras)
                  | _ \<Rightarrow> Inl (UsageExit 2))
               else bind_res (set_flag a ns) (\<lambda>ns. consume args (ns, extras)))
      | _ \<Rightarrow> consume args (ns, True))"

definition parse_cli_args :: "string list \<Rightarrow> cli_args res" where
  "parse_cli_args argv =
     bind_res (classify argv) (\<lambda>args.
     bind_res (consume args (default_args, False)) (\<lambda>(ns, extras).
       if extras then Inl (UsageExit 2) else Inr ns))"

section \<open>Writing a command line\<close>

text \<open>
  A name of an option is the option in full or the beginning of exactly one.  A value follows as an
  argument of its own or behind \<open>=\<close>.
\<close>

definition names_option :: "string \<Rightarrow> cli_action \<Rightarrow> bool" where
  "names_option n a \<longleftrightarrow> py_startswith n ''--'' \<and> n \<noteq> ''--'' \<and> CHR ''='' \<notin> set n \<and>
     (map_of option_actions n = Some a \<or>
      map_of option_actions n = None \<and> map snd (filter (\<lambda>(opt, b). py_startswith opt n) option_actions) = [a])"

datatype cli_item = Flag cli_action string | Valued cli_action string string | Joined cli_action string string

primrec item_ok :: "cli_item \<Rightarrow> bool" where
  "item_ok (Flag a n) = ((a = ListOption \<or> a = RefreshOption) \<and> names_option n a)"
| "item_ok (Valued a n v) = (takes_value a \<and> names_option n a \<and> \<not> py_startswith v ''-'')"
| "item_ok (Joined a n v) = (takes_value a \<and> names_option n a \<and> v \<noteq> ''--'')"

primrec write_item :: "cli_item \<Rightarrow> string list" where
  "write_item (Flag a n) = [n]"
| "write_item (Valued a n v) = [n, v]"
| "write_item (Joined a n v) = [n @ ''='' @ v]"

definition set_value :: "cli_action \<Rightarrow> string \<Rightarrow> cli_args \<Rightarrow> cli_args" where
  "set_value a v ns = (if a = HostOption then ns\<lparr>ar_host := Some v\<rparr> else ns\<lparr>ar_boto_profile := Some v\<rparr>)"

primrec item_effect :: "cli_item \<Rightarrow> cli_args \<Rightarrow> cli_args" where
  "item_effect (Flag a n) ns = (if a = ListOption then ns\<lparr>ar_list := True\<rparr> else ns\<lparr>ar_refresh_cache := True\<rparr>)"
| "item_effect (Valued a n v) ns = set_value a v ns"
| "item_effect (Joined a n v) ns = set_value a v ns"

lemma options_plain: "list_all (\<lambda>(opt, a). CHR ''='' \<notin> set opt) option_actions"
  by code_simp

lemma option_with_equals: "CHR ''='' \<in> set s \<Longrightarrow> map_of option_actions s = None"
  using options_plain by (auto simp: map_of_eq_None_iff list_all_iff)

lemma split_equals: "CHR ''='' \<notin> set n \<Longrightarrow> py_split1 CHR ''='' (n @ ''='' @ v) = [n, v]"
  by (induction n) (auto simp: py_split1_def)

lemma single_match:
  assumes "map snd (filter P xs) = [a]"
  shows "\<exists>opt. filter P xs = [(opt, a)]"
  using assms by (cases "filter P xs") auto

lemma parse_name:
  assumes "names_option n a"
  shows "\<exists>opt. parse_optional n = Inr (Declared a opt None)"
proof -
  have n: "py_startswith n ''--''" "py_startswith n ''-''" "CHR ''='' \<notin> set n" "length n \<noteq> 1"
    using assms by (auto simp: names_option_def py_startswith_def prefix_def)
  consider "map_of option_actions n = Some a"
    | opt where "map_of option_actions n = None" "filter (\<lambda>(opt, b). py_startswith opt n) option_actions = [(opt, a)]"
    using assms single_match by (auto simp: names_option_def)
  then show ?thesis
  proof cases
    case 2
    have "option_tuples n = [(a, opt, None)]"
      using n 2(2) by (simp add: option_tuples_def py_split1_def)
    with 2 n show ?thesis by (simp add: parse_optional_def)
  qed (use n in \<open>simp add: parse_optional_def\<close>)
qed

lemma parse_joined:
  assumes "names_option n a"
  shows "\<exists>opt. parse_optional (n @ ''='' @ v) = Inr (Declared a opt (Some v))"
proof -
  have n: "py_startswith (n @ ''='' @ v) ''--''" "py_startswith (n @ ''='' @ v) ''-''" "CHR ''='' \<notin> set n"
    "length (n @ ''='' @ v) \<noteq> 1" "map_of option_actions (n @ ''='' @ v) = None" "CHR ''='' \<in> set (n @ ''='' @ v)"
    using assms option_with_equals by (auto simp: names_option_def py_startswith_def prefix_def)
  note split = split_equals [OF n(3)]
  consider "map_of option_actions n = Some a"
    | opt where "map_of option_actions n = None" "filter (\<lambda>(opt, b). py_startswith opt n) option_actions = [(opt, a)]"
    using assms single_match by (auto simp: names_option_def)
  then show ?thesis
  proof cases
    case 1
    with n split show ?thesis by (simp only: parse_optional_def) simp
  next
    case 2
    have "option_tuples (n @ ''='' @ v) = [(a, opt, Some v)]"
      using n(1,6) split 2(2) by (simp only: option_tuples_def) (simp add: Let_def)
    with 2 n split show ?thesis by (simp only: parse_optional_def) simp
  qed
qed

lemma parse_value: "\<not> py_startswith v ''-'' \<Longrightarrow> parse_optional v = Inr Positional \<and> v \<noteq> ''--''"
  by (auto simp: parse_optional_def py_startswith_def prefix_def)

text \<open>What an item is classified as, and what it does.\<close>

lemma classify_item:
  assumes "item_ok i"
  shows "\<exists>ks. classify (write_item i @ ss) = bind_res (classify ss) (\<lambda>rest. Inr (ks @ rest)) \<and>
    (\<forall>rest ns x. consume (ks @ rest) (ns, x) = consume rest (item_effect i ns, x))"
proof -
  have name: "n \<noteq> ''--''" "n @ ''='' @ v \<noteq> ''--''" if "names_option n a" for n a v
    using that by (auto simp: names_option_def py_startswith_def prefix_def)
  show ?thesis
  proof (cases i)
    case (Flag a n)
    then obtain opt where "parse_optional n = Inr (Declared a opt None)" using assms parse_name by auto
    with Flag assms name show ?thesis
      by (intro exI [of _ "[(n, Declared a opt None)]"]) (auto simp: takes_value_def set_flag_def)
  next
    case (Valued a n v)
    then obtain opt where "parse_optional n = Inr (Declared a opt None)" using assms parse_name by auto
    with Valued assms name parse_value [of v] show ?thesis
      by (intro exI [of _ "[(n, Declared a opt None), (v, Positional)]"])
        (cases "classify ss"; auto simp: set_value_def store_value_def)
  next
    case (Joined a n v)
    then obtain opt where "parse_optional (n @ ''='' @ v) = Inr (Declared a opt (Some v))"
      using assms parse_joined by fastforce
    with Joined assms name show ?thesis
      by (intro exI [of _ "[(n @ ''='' @ v, Declared a opt (Some v))]"]) (auto simp: set_value_def store_value_def)
  qed
qed

lemma classify_items:
  "list_all item_ok items \<Longrightarrow> \<exists>ks. classify (concat (map write_item items)) = Inr ks \<and>
     (\<forall>ns x. consume ks (ns, x) = Inr (foldl (\<lambda>ns i. item_effect i ns) ns items, x))"
proof (induction items)
  case (Cons i items)
  then obtain rest where rest: "classify (concat (map write_item items)) = Inr rest"
    "\<forall>ns x. consume rest (ns, x) = Inr (foldl (\<lambda>ns i. item_effect i ns) ns items, x)" by auto
  from Cons.prems have "item_ok i" by simp
  from classify_item [OF this, of "concat (map write_item items)"] obtain ks where
    "classify (write_item i @ concat (map write_item items)) = Inr (ks @ rest)"
    "\<forall>ns x. consume (ks @ rest) (ns, x) = consume rest (item_effect i ns, x)" using rest(1) by auto
  with rest show ?case by (intro exI [of _ "ks @ rest"]) simp
qed simp

text \<open>Nothing turns \<open>--list\<close> off.\<close>

lemma step_list:
  "ar_list (store_value a v ns) = ar_list ns" "set_flag a ns = Inr ns' \<Longrightarrow> ar_list ns \<Longrightarrow> ar_list ns'"
  by (auto simp: store_value_def Let_def set_flag_def split: cli_action.splits)

lemma consume_list: "consume args c = Inr c' \<Longrightarrow> ar_list (fst c) \<Longrightarrow> ar_list (fst c')"
proof (induction args c rule: consume.induct)
  case (2 s k args ns x)
  show ?case
  proof (cases k)
    case (Declared a opt given)
    show ?thesis
    proof (cases "takes_value a")
      case True
      show ?thesis
      proof (cases given)
        case None
        then obtain v rest where "args = (v, Positional) # rest"
          using "2.prems"(1) True Declared None by (cases args) (auto split: arg_kind.splits)
        with 2 True Declared None show ?thesis by (simp add: step_list)
      next
        case (Some v)
        with 2 True Declared show ?thesis by (simp add: step_list)
      qed
    next
      case False
      with "2.IH" "2.prems" Declared show ?thesis
        by (auto simp: bind_res_eq_Inr dest: step_list(2) split: option.splits)
    qed
  qed (use 2 in simp_all)
qed simp

lemma parse_cli_args_list: "parse_cli_args argv = Inr args \<Longrightarrow> ar_list args"
  using consume_list [of _ "(default_args, False)"]
  by (fastforce simp: parse_cli_args_def bind_res_eq_Inr default_args_def split: if_splits)

text \<open>
  C33. The script understands its command line: the four options in any order and number, each in full or as
  the beginning of exactly one option, with values behind \<open>=\<close> or as the next argument, set exactly what
  they name, the last value of an option counting.  A stray word is refused with status 2.
\<close>

theorem command_line_understood:
  assumes "list_all item_ok items"
  shows "parse_cli_args (concat (map write_item items)) =
      Inr (foldl (\<lambda>ns i. item_effect i ns) default_args items) \<and>
    (\<forall>w. \<not> py_startswith w ''-'' \<longrightarrow> parse_cli_args (w # concat (map write_item items)) = Inl (UsageExit 2))"
proof -
  from classify_items [OF assms] obtain ks where
    ks: "classify (concat (map write_item items)) = Inr ks"
      "\<And>ns x. consume ks (ns, x) = Inr (foldl (\<lambda>ns i. item_effect i ns) ns items, x)" by auto
  with parse_value show ?thesis by (simp add: parse_cli_args_def)
qed

theorem command_line_understood_witness:
  "parse_cli_args [''--ref'', ''--h=x'', ''--ho=a=b'', ''--boto'', ''p'', ''--host'', ''h''] = Inl (UsageExit 2) \<and>
   parse_cli_args [''--ref'', ''--ho=a=b'', ''--boto'', ''p'', ''--host'', ''h''] =
     Inr \<lparr>ar_list = True, ar_host = Some ''h'', ar_refresh_cache = True, ar_boto_profile = Some ''p''\<rparr> \<and>
   parse_cli_args [''x'', ''--ref''] = Inl (UsageExit 2)"
proof -
  have "parse_cli_args [''--ref'', ''--h=x'', ''--ho=a=b'', ''--boto'', ''p'', ''--host'', ''h''] = Inl (UsageExit 2)"
    by code_simp
  moreover have "list_all item_ok [Flag RefreshOption ''--ref'', Joined HostOption ''--ho'' ''a=b'',
      Valued ProfileOption ''--boto'' ''p'', Valued HostOption ''--host'' ''h'']"
    "list_all item_ok [Flag RefreshOption ''--ref'']" by code_simp+
  from this [THEN command_line_understood] show ?thesis
    using calculation by (auto simp: default_args_def set_value_def py_startswith_def)
qed

end
