(* ===== verification/Json.thy ===== *)
theory Json
  imports PyVal "HOL-Library.List_Lexorder" "HOL-Library.Char_ord"
begin

text \<open>
  The part of Python's \<open>json\<close> that the scripts use: \<open>json.dumps\<close> and \<open>json.dump\<close>, compact or with
  \<open>sort_keys=True, indent=2\<close>, and \<open>json.loads\<close> and \<open>json.load\<close>, on the values of \<open>pyval\<close>.  Numbers are integers and
  characters are below 256, as everywhere in the model; a document with others is refused.
\<close>

section \<open>Printing\<close>

definition json_escape :: "char \<Rightarrow> string" where
  "json_escape c =
     (let n = code_of c; b = CHR 92 in
      if n = 34 \<or> n = 92 then [b, c]
      else if n = 10 then [b, CHR ''n''] else if n = 13 then [b, CHR ''r'']
      else if n = 9 then [b, CHR ''t''] else if n = 12 then [b, CHR ''f'']
      else if n = 8 then [b, CHR ''b'']
      else if 32 \<le> n \<and> n \<le> 126 then [c]
      else [b, CHR ''u'', CHR ''0'', CHR ''0'', hex_digit (n div 16), hex_digit (n mod 16)])"

definition json_quote :: "string \<Rightarrow> string" where
  "json_quote s = CHR 34 # concat (map json_escape s) @ [CHR 34]"

text \<open>The text of a key that is no string is that of the constant or the number.\<close>

definition json_key :: "pyval \<Rightarrow> string" where
  "json_key k = (case k of
     PStr s \<Rightarrow> s | PInt i \<Rightarrow> int_to_dec i | PBool b \<Rightarrow> if b then ''true'' else ''false'' | _ \<Rightarrow> ''null'')"

definition json_nl :: "bool \<Rightarrow> nat \<Rightarrow> string" where
  "json_nl pretty level = (if pretty then CHR 10 # replicate (2 * level) CHR '' '' else [])"

definition json_sep :: "bool \<Rightarrow> nat \<Rightarrow> string" where
  "json_sep pretty level = '','' @ (if pretty then json_nl True level else '' '')"

definition json_block :: "bool \<Rightarrow> nat \<Rightarrow> string \<Rightarrow> string list \<Rightarrow> string \<Rightarrow> string" where
  "json_block pretty level opening items closing =
     (if items = [] then opening @ closing
      else opening @ json_nl pretty (level + 1) @ py_join (json_sep pretty (level + 1)) items @
        json_nl pretty level @ closing)"

function json_text :: "bool \<Rightarrow> nat \<Rightarrow> pyval \<Rightarrow> string" where
  "json_text pretty level PNone = ''null''"
| "json_text pretty level (PBool b) = (if b then ''true'' else ''false'')"
| "json_text pretty level (PInt i) = int_to_dec i"
| "json_text pretty level (PStr s) = json_quote s"
| "json_text pretty level (PList xs) =
     json_block pretty level ''['' (map (json_text pretty (level + 1)) xs) '']''"
| "json_text pretty level (PDict kvs) =
     json_block pretty level ''{''
       (map (\<lambda>kv. json_quote (json_key (fst kv)) @ '': '' @ json_text pretty (level + 1) (snd kv)) kvs) ''}''"
| "json_text pretty level (PObj attrs props) = []"
  by pat_completeness auto

termination json_text
  by (relation "measure (\<lambda>(pretty, level, v). size v)") (auto simp del: pyval.size dest: size_elem size_entry)

text \<open>What \<open>json.dumps\<close> accepts: no objects, and keys that are strings, numbers or constants.\<close>

definition json_key_ok :: "pyval \<Rightarrow> bool" where
  "json_key_ok k \<longleftrightarrow> (case k of PList xs \<Rightarrow> False | PDict d \<Rightarrow> False | PObj a p \<Rightarrow> False | _ \<Rightarrow> True)"

function json_ok :: "pyval \<Rightarrow> bool" where
  "json_ok (PList xs) = (\<forall>x \<in> set xs. json_ok x)"
| "json_ok (PDict kvs) = (\<forall>kv \<in> set kvs. json_key_ok (fst kv) \<and> json_ok (snd kv))"
| "json_ok (PObj attrs props) = False"
| "json_ok PNone = True"
| "json_ok (PBool b) = True"
| "json_ok (PInt i) = True"
| "json_ok (PStr s) = True"
  by pat_completeness auto
termination json_ok
  by (relation "measure size") (auto simp del: pyval.size dest: size_elem size_entry)

text \<open>\<open>sort_keys\<close>: the keys must be comparable, so all strings or all numbers.\<close>

definition is_PStr :: "pyval \<Rightarrow> bool" where
  "is_PStr v \<longleftrightarrow> (case v of PStr s \<Rightarrow> True | _ \<Rightarrow> False)"

definition is_PInt :: "pyval \<Rightarrow> bool" where
  "is_PInt v \<longleftrightarrow> (case v of PInt i \<Rightarrow> True | _ \<Rightarrow> False)"

definition sortable_keys :: "(pyval \<times> pyval) list \<Rightarrow> bool" where
  "sortable_keys kvs \<longleftrightarrow> length kvs \<le> 1 \<or> list_all (is_PStr \<circ> fst) kvs \<or> list_all (is_PInt \<circ> fst) kvs"

definition sort_items :: "(pyval \<times> pyval) list \<Rightarrow> (pyval \<times> pyval) list" where
  "sort_items kvs =
     (if list_all (is_PInt \<circ> fst) kvs then sort_key (\<lambda>kv. case fst kv of PInt i \<Rightarrow> i | _ \<Rightarrow> 0) kvs
      else sort_key (\<lambda>kv. json_key (fst kv)) kvs)"

function json_sorted :: "pyval \<Rightarrow> pyval" where
  "json_sorted (PList xs) = PList (map json_sorted xs)"
| "json_sorted (PDict kvs) = PDict (sort_items (map (\<lambda>kv. (fst kv, json_sorted (snd kv))) kvs))"
| "json_sorted (PObj attrs props) = PObj attrs props"
| "json_sorted PNone = PNone"
| "json_sorted (PBool b) = PBool b"
| "json_sorted (PInt i) = PInt i"
| "json_sorted (PStr s) = PStr s"
  by pat_completeness auto
termination json_sorted
  by (relation "measure size") (auto simp del: pyval.size dest: size_elem size_entry)

function json_sortable :: "pyval \<Rightarrow> bool" where
  "json_sortable (PList xs) = (\<forall>x \<in> set xs. json_sortable x)"
| "json_sortable (PDict kvs) = (sortable_keys kvs \<and> (\<forall>kv \<in> set kvs. json_sortable (snd kv)))"
| "json_sortable (PObj attrs props) = True"
| "json_sortable PNone = True"
| "json_sortable (PBool b) = True"
| "json_sortable (PInt i) = True"
| "json_sortable (PStr s) = True"
  by pat_completeness auto
termination json_sortable
  by (relation "measure size") (auto simp del: pyval.size dest: size_elem size_entry)

text \<open>\<open>json.dumps(v)\<close>, and \<open>json.dumps(v, sort_keys=True, indent=2)\<close>\<close>

definition json_dumps :: "pyval \<Rightarrow> string res" where
  "json_dumps v = (if json_ok v then Inr (json_text False 0 v) else Inl TypeError)"

definition json_dumps_pretty :: "pyval \<Rightarrow> string res" where
  "json_dumps_pretty v =
     (if json_ok v \<and> json_sortable v then Inr (json_text True 0 (json_sorted v)) else Inl TypeError)"

section \<open>Parsing\<close>

definition json_ws :: "char \<Rightarrow> bool" where
  "json_ws c \<longleftrightarrow> c = CHR '' '' \<or> code_of c = 9 \<or> code_of c = 10 \<or> code_of c = 13"

definition skip_ws :: "string \<Rightarrow> string" where
  "skip_ws s = dropWhile json_ws s"

definition hex_value :: "char \<Rightarrow> nat option" where
  "hex_value c =
     (let n = code_of c in
      if 48 \<le> n \<and> n \<le> 57 then Some (n - 48)
      else if 97 \<le> n \<and> n \<le> 102 then Some (n - 87)
      else if 65 \<le> n \<and> n \<le> 70 then Some (n - 55)
      else None)"

definition json_unescape :: "char \<Rightarrow> char option" where
  "json_unescape c =
     (if code_of c = 34 \<or> code_of c = 92 \<or> c = CHR ''/'' then Some c
      else if c = CHR ''n'' then Some (CHR 10) else if c = CHR ''r'' then Some (CHR 13)
      else if c = CHR ''t'' then Some (CHR 9) else if c = CHR ''f'' then Some (CHR 12)
      else if c = CHR ''b'' then Some (CHR 8) else None)"

text \<open>The four hex digits of an escape, as far as a character below 256 can stand for them.\<close>

definition json_hex4 :: "char \<Rightarrow> char \<Rightarrow> char \<Rightarrow> char \<Rightarrow> char res" where
  "json_hex4 a b c d =
     (case (hex_value a, hex_value b, hex_value c, hex_value d) of
        (Some 0, Some 0, Some m, Some n) \<Rightarrow> Inr (char_of (16 * m + n))
      | _ \<Rightarrow> Inl ValueError)"

text \<open>The rest of a string literal, after its opening quote.\<close>

fun json_string :: "string \<Rightarrow> (string \<times> string) res" where
  "json_string [] = Inl ValueError"
| "json_string (c # s) =
     (if code_of c = 34 then Inr ([], s)
      else if code_of c = 92 then
        (case s of
           [] \<Rightarrow> Inl ValueError
         | e # s1 \<Rightarrow>
             if e = CHR ''u'' then
               (case s1 of
                  h1 # h2 # h3 # h4 # s2 \<Rightarrow>
                    bind_res (json_hex4 h1 h2 h3 h4) (\<lambda>x.
                    bind_res (json_string s2) (\<lambda>p. Inr (x # fst p, snd p)))
                | _ \<Rightarrow> Inl ValueError)
             else (case json_unescape e of
                 None \<Rightarrow> Inl ValueError
               | Some x \<Rightarrow> bind_res (json_string s1) (\<lambda>p. Inr (x # fst p, snd p))))
      else if code_of c < 32 then Inl ValueError
      else bind_res (json_string s) (\<lambda>p. Inr (c # fst p, snd p)))"

text \<open>\<open>-?(0|[1-9][0-9]*)\<close>; a fraction or an exponent makes it a float, which is no value here.\<close>

definition json_nat :: "string \<Rightarrow> (nat \<times> string) res" where
  "json_nat s =
     (case s of
        [] \<Rightarrow> Inl ValueError
      | c # t \<Rightarrow>
          if \<not> is_09 c then Inl ValueError
          else
            let ds = (if c = CHR ''0'' then [c] else takeWhile is_09 s); r = drop (length ds) s in
            if r \<noteq> [] \<and> hd r \<in> {CHR ''.'', CHR ''e'', CHR ''E''} then Inl ValueError
            else Inr (dec_value ds, r))"

definition json_number :: "string \<Rightarrow> (pyval \<times> string) res" where
  "json_number s =
     (case s of
        c # t \<Rightarrow>
          if c = CHR ''-'' then bind_res (json_nat t) (\<lambda>p. Inr (PInt (- int (fst p)), snd p))
          else bind_res (json_nat s) (\<lambda>p. Inr (PInt (int (fst p)), snd p))
      | [] \<Rightarrow> Inl ValueError)"

definition json_word :: "string \<Rightarrow> (pyval \<times> string) res" where
  "json_word s =
     (if py_startswith s ''null'' then Inr (PNone, drop 4 s)
      else if py_startswith s ''true'' then Inr (PBool True, drop 4 s)
      else if py_startswith s ''false'' then Inr (PBool False, drop 5 s)
      else json_number s)"

text \<open>A later entry of an object replaces an earlier one with the same key.\<close>

definition json_object :: "(string \<times> pyval) list \<Rightarrow> pyval" where
  "json_object kvs = PDict (foldl (\<lambda>d kv. dict_set d (PStr (fst kv)) (snd kv)) [] kvs)"

text \<open>The fuel bounds the nesting; the length of the text is always enough.\<close>

fun json_value :: "nat \<Rightarrow> string \<Rightarrow> (pyval \<times> string) res"
  and json_elems :: "nat \<Rightarrow> string \<Rightarrow> (pyval list \<times> string) res"
  and json_members :: "nat \<Rightarrow> string \<Rightarrow> ((string \<times> pyval) list \<times> string) res"
where
  "json_value 0 s = Inl NotReturned"
| "json_value (Suc n) s =
     (case s of
        [] \<Rightarrow> Inl ValueError
      | c # t \<Rightarrow>
          if code_of c = 34 then bind_res (json_string t) (\<lambda>p. Inr (PStr (fst p), snd p))
          else if c = CHR ''['' then
            (let u = skip_ws t in
             if u \<noteq> [] \<and> hd u = CHR '']'' then Inr (PList [], tl u)
             else bind_res (json_elems n u) (\<lambda>p. Inr (PList (fst p), snd p)))
          else if c = CHR ''{'' then
            (let u = skip_ws t in
             if u \<noteq> [] \<and> hd u = CHR ''}'' then Inr (PDict [], tl u)
             else bind_res (json_members n u) (\<lambda>p. Inr (json_object (fst p), snd p)))
          else json_word s)"
| "json_elems 0 s = Inl NotReturned"
| "json_elems (Suc n) s =
     bind_res (json_value n s) (\<lambda>p.
       let u = skip_ws (snd p) in
       if u = [] then Inl ValueError
       else if hd u = CHR '']'' then Inr ([fst p], tl u)
       else if hd u = CHR '','' then
         bind_res (json_elems n (skip_ws (tl u))) (\<lambda>q. Inr (fst p # fst q, snd q))
       else Inl ValueError)"
| "json_members 0 s = Inl NotReturned"
| "json_members (Suc n) s =
     (if s = [] \<or> code_of (hd s) \<noteq> 34 then Inl ValueError
      else bind_res (json_string (tl s)) (\<lambda>k.
        let t = skip_ws (snd k) in
        if t = [] \<or> hd t \<noteq> CHR '':'' then Inl ValueError
        else bind_res (json_value n (skip_ws (tl t))) (\<lambda>p.
          let u = skip_ws (snd p) in
          if u = [] then Inl ValueError
          else if hd u = CHR ''}'' then Inr ([(fst k, fst p)], tl u)
          else if hd u = CHR '','' then
            bind_res (json_members n (skip_ws (tl u))) (\<lambda>q. Inr ((fst k, fst p) # fst q, snd q))
          else Inl ValueError)))"

definition json_loads :: "string \<Rightarrow> pyval res" where
  "json_loads s =
     bind_res (json_value (Suc (length s)) (skip_ws s)) (\<lambda>p.
       if skip_ws (snd p) = [] then Inr (fst p) else Inl ValueError)"

end
