(* ===== verification/JsonRoundtrip.thy ===== *)
theory JsonRoundtrip
  imports Json "HOL-Library.Multiset"
begin

text \<open>
  Reading back what was printed: \<open>json.loads\<close> after \<open>json.dumps\<close>, in either layout, gives the value
  again, with its keys sorted when the printer sorts them.
\<close>

section \<open>Characters and strings\<close>

lemma code_of_inject: "code_of c = code_of d \<longleftrightarrow> c = d"
  by (simp add: code_of_def)

lemma code_of_char: "n < 256 \<Longrightarrow> code_of (char_of n) = n"
  by (simp add: code_of_def)

lemma char_of_code: "char_of (code_of c) = c"
  by (simp add: code_of_def)

lemma hex_value_digit: "n < 16 \<Longrightarrow> hex_value (hex_digit n) = Some n"
  by (auto simp: hex_value_def hex_digit_def code_of_char Let_def)

lemma json_string_hex:
  "json_string (CHR 92 # CHR ''u'' # CHR ''0'' # CHR ''0'' # hex_digit (code_of c div 16) # hex_digit (code_of c mod 16) # t) =
   bind_res (json_string t) (\<lambda>p. Inr (c # fst p, snd p))"
proof -
  have "code_of c div 16 < 16" using code_of_less [of c] by (simp add: less_mult_imp_div_less)
  then have "json_hex4 CHR ''0'' CHR ''0'' (hex_digit (code_of c div 16)) (hex_digit (code_of c mod 16)) = Inr c"
    using char_of_code [of c]
    by (simp add: json_hex4_def hex_value_digit hex_value_def [of "CHR ''0''"] code_of_def [of "CHR ''0''"] Let_def)
  then show ?thesis by (simp add: code_of_def [of "CHR 92"])
qed

lemma json_string_short:
  "json_unescape e = Some c \<Longrightarrow> e \<noteq> CHR ''u'' \<Longrightarrow>
   json_string (CHR 92 # e # t) = bind_res (json_string t) (\<lambda>p. Inr (c # fst p, snd p))"
  by (simp add: code_of_def [of "CHR 92"])

lemma json_unescape_short:
  "json_unescape CHR 34 = Some CHR 34" "json_unescape CHR 92 = Some CHR 92" "json_unescape CHR ''n'' = Some CHR 10"
  "json_unescape CHR ''r'' = Some CHR 13" "json_unescape CHR ''t'' = Some CHR 9"
  "json_unescape CHR ''f'' = Some CHR 12" "json_unescape CHR ''b'' = Some CHR 8"
  by (simp_all add: json_unescape_def code_of_def)

lemma code_of_eqs:
  "code_of c = 34 \<longleftrightarrow> c = CHR 34" "code_of c = 92 \<longleftrightarrow> c = CHR 92" "code_of c = 10 \<longleftrightarrow> c = CHR 10"
  "code_of c = 13 \<longleftrightarrow> c = CHR 13" "code_of c = 9 \<longleftrightarrow> c = CHR 9" "code_of c = 12 \<longleftrightarrow> c = CHR 12"
  "code_of c = 8 \<longleftrightarrow> c = CHR 8"
  using code_of_inject [of c "CHR 34"] code_of_inject [of c "CHR 92"] code_of_inject [of c "CHR 10"]
    code_of_inject [of c "CHR 13"] code_of_inject [of c "CHR 9"] code_of_inject [of c "CHR 12"]
    code_of_inject [of c "CHR 8"]
  by (simp_all add: code_of_def)

lemma json_escape_cases:
  "json_escape c = (if c = CHR 34 \<or> c = CHR 92 then [CHR 92, c] else if c = CHR 10 then [CHR 92, CHR ''n'']
     else if c = CHR 13 then [CHR 92, CHR ''r''] else if c = CHR 9 then [CHR 92, CHR ''t'']
     else if c = CHR 12 then [CHR 92, CHR ''f''] else if c = CHR 8 then [CHR 92, CHR ''b'']
     else if 32 \<le> code_of c \<and> code_of c \<le> 126 then [c]
     else [CHR 92, CHR ''u'', CHR ''0'', CHR ''0'', hex_digit (code_of c div 16), hex_digit (code_of c mod 16)])"
  by (simp add: json_escape_def Let_def code_of_eqs)

lemma json_string_plain:
  "c \<noteq> CHR 34 \<Longrightarrow> c \<noteq> CHR 92 \<Longrightarrow> 32 \<le> code_of c \<Longrightarrow>
   json_string (c # t) = bind_res (json_string t) (\<lambda>p. Inr (c # fst p, snd p))"
  by (simp add: code_of_eqs)

lemma json_string_escape:
  "json_string (json_escape c @ t) = bind_res (json_string t) (\<lambda>p. Inr (c # fst p, snd p))"
  unfolding json_escape_cases
  by (simp only: append_Cons append_Nil json_string_hex json_string_short json_unescape_short json_string_plain
      if_distrib [of "\<lambda>s. json_string (s @ t)"] simp_thms split: if_split)
    (auto simp: json_string_plain json_string_short json_unescape_short simp del: json_string.simps)

lemma json_string_quote: "json_string (concat (map json_escape s) @ CHR 34 # rest) = Inr (s, rest)"
proof (induction s)
  case Nil
  then show ?case by (simp add: code_of_def)
next
  case (Cons c s)
  then show ?case by (simp add: json_string_escape del: json_string.simps)
qed

declare json_string.simps [simp del]

section \<open>Numbers\<close>

text \<open>What may follow a number without being read as part of it.\<close>

definition json_end :: "string \<Rightarrow> bool" where
  "json_end rest \<longleftrightarrow> rest = [] \<or> (\<not> is_09 (hd rest) \<and> hd rest \<notin> {CHR ''.'', CHR ''e'', CHR ''E''})"

lemma nat_to_dec_no_zero: "0 < n \<Longrightarrow> hd (nat_to_dec n) \<noteq> CHR ''0''"
proof (induction n rule: nat_to_dec.induct)
  case (1 n)
  have "digit_char n \<noteq> CHR ''0''" if "n < 10"
  proof
    assume "digit_char n = CHR ''0''"
    with that 1 have "digit_value CHR ''0'' = n" using digit_char_props(2) by metis
    with 1(2) show False by (simp add: digit_value_def code_of_def)
  qed
  then show ?case using 1 by (simp add: nat_to_dec.simps [of n])
qed

lemma takeWhile_digits: "\<forall>c \<in> set ds. is_09 c \<Longrightarrow> json_end rest \<Longrightarrow> takeWhile is_09 (ds @ rest) = ds"
  by (induction ds) (auto simp: json_end_def, cases rest, auto)

lemma json_nat_text: "json_end rest \<Longrightarrow> json_nat (nat_to_dec n @ rest) = Inr (n, rest)"
proof -
  assume e: "json_end rest"
  have digits: "\<forall>c \<in> set (nat_to_dec n). is_09 c" using nat_to_dec_digits by blast
  obtain c t where ct: "nat_to_dec n = c # t" by (cases "nat_to_dec n") simp_all
  have c: "is_09 c" using digits ct by simp
  have zero: "c = CHR ''0'' \<Longrightarrow> t = []"
    using nat_to_dec_no_zero [of n] ct by (cases "n = 0") (simp_all add: nat_to_dec.simps)
  have ds: "(if c = CHR ''0'' then [c] else takeWhile is_09 (c # t @ rest)) = c # t"
    using zero takeWhile_digits [of "nat_to_dec n" rest] digits e ct by (auto simp del: takeWhile.simps)
  have "dec_value (c # t) = n" using dec_value_nat_to_dec [of n] ct by simp
  with c e show ?thesis by (auto simp: json_nat_def ct Let_def ds json_end_def simp del: takeWhile.simps)
qed

lemma first_of_int: "\<exists>c t. int_to_dec i = c # t \<and> (c = CHR ''-'' \<or> is_09 c)"
proof -
  obtain d u where du: "nat_to_dec (nat i) = d # u" by (cases "nat_to_dec (nat i)") simp_all
  then have "is_09 d" using nat_to_dec_digits [of d "nat i"] by simp
  with du show ?thesis by (auto simp: int_to_dec_def)
qed

lemma json_word_int: "json_end rest \<Longrightarrow> json_word (int_to_dec i @ rest) = Inr (PInt i, rest)"
proof -
  assume e: "json_end rest"
  obtain c t where ct: "int_to_dec i = c # t" "c = CHR ''-'' \<or> is_09 c" using first_of_int by blast
  then have "c \<notin> {CHR ''n'', CHR ''t'', CHR ''f''}" by (auto simp: is_09_def code_of_def)
  then have "json_word (int_to_dec i @ rest) = json_number (int_to_dec i @ rest)"
    by (auto simp: json_word_def ct py_startswith_def)
  also have "\<dots> = Inr (PInt i, rest)"
  proof (cases "i < 0")
    case True
    then show ?thesis by (simp add: json_number_def int_to_dec_def json_nat_text [OF e])
  next
    case False
    then have "int_to_dec i = nat_to_dec (nat i)" by (simp add: int_to_dec_def)
    moreover obtain d u where du: "nat_to_dec (nat i) = d # u" by (cases "nat_to_dec (nat i)") simp_all
    then have "is_09 d" using nat_to_dec_digits [of d "nat i"] by simp
    then have "d \<noteq> CHR ''-''" by (auto simp: is_09_def code_of_def)
    ultimately show ?thesis using json_nat_text [OF e, of "nat i"] False by (simp add: json_number_def du)
  qed
  finally show ?thesis .
qed

section \<open>Values\<close>

text \<open>A value that has a text of its own: string keys, each once, and no objects.\<close>

function json_plain :: "pyval \<Rightarrow> bool" where
  "json_plain (PList xs) = (\<forall>x \<in> set xs. json_plain x)"
| "json_plain (PDict kvs) = (list_all (is_PStr \<circ> fst) kvs \<and> distinct (map fst kvs) \<and> (\<forall>kv \<in> set kvs. json_plain (snd kv)))"
| "json_plain (PObj attrs props) = False"
| "json_plain PNone = True"
| "json_plain (PBool b) = True"
| "json_plain (PInt i) = True"
| "json_plain (PStr s) = True"
  by pat_completeness auto
termination json_plain
  by (relation "measure size") (auto simp del: pyval.size dest: size_elem size_entry)

text \<open>The fuel a value needs: one for itself, and one for each entry before the next one is read.\<close>

primrec chain_need :: "nat list \<Rightarrow> nat" where
  "chain_need [] = 0"
| "chain_need (m # ms) = Suc (max m (chain_need ms))"

function json_need :: "pyval \<Rightarrow> nat" where
  "json_need (PList xs) = Suc (chain_need (map json_need xs))"
| "json_need (PDict kvs) = Suc (chain_need (map (\<lambda>kv. json_need (snd kv)) kvs))"
| "json_need (PObj attrs props) = 1"
| "json_need PNone = 1"
| "json_need (PBool b) = 1"
| "json_need (PInt i) = 1"
| "json_need (PStr s) = 1"
  by pat_completeness auto
termination json_need
  by (relation "measure size") (auto simp del: pyval.size dest: size_elem size_entry)

text \<open>A text that a value can start with.\<close>

definition json_start :: "string \<Rightarrow> bool" where
  "json_start s \<longleftrightarrow> s \<noteq> [] \<and> \<not> json_ws (hd s) \<and> hd s \<noteq> CHR '']'' \<and> hd s \<noteq> CHR ''}''"

lemma json_start_quote: "json_start (json_quote s @ t)"
  by (simp add: json_start_def json_quote_def json_ws_def code_of_def)

lemma json_start_text: "json_plain v \<Longrightarrow> json_start (json_text p l v @ t)"
proof (cases v)
  case (PInt i)
  obtain c u where "int_to_dec i = c # u" "c = CHR ''-'' \<or> is_09 c" using first_of_int by blast
  with PInt show ?thesis by (auto simp: json_start_def json_ws_def is_09_def code_of_def)
qed (auto simp: json_start_def json_ws_def code_of_def json_block_def json_quote_def)

lemma skip_ws_start: "json_start s \<Longrightarrow> skip_ws s = s"
  by (cases s) (auto simp: skip_ws_def json_start_def)

lemma skip_ws_nl: "skip_ws (json_nl p l @ s) = skip_ws s"
proof -
  have "\<forall>c \<in> set (json_nl p l). json_ws c"
    by (auto simp: json_nl_def json_ws_def code_of_def)
  then show ?thesis unfolding skip_ws_def by (induction "json_nl p l" arbitrary: s rule: list.induct) (simp_all add: dropWhile_append)
qed

lemma skip_ws_block: "json_start s \<Longrightarrow> skip_ws (json_nl p l @ s) = s"
  by (simp add: skip_ws_nl skip_ws_start)

lemma json_sep_ws: "\<exists>w. json_sep p l = CHR '','' # w \<and> (json_start s \<longrightarrow> skip_ws (w @ s) = s)"
proof -
  have "json_start s \<Longrightarrow> skip_ws (CHR '' '' # s) = s"
    using skip_ws_start by (simp add: skip_ws_def json_ws_def)
  then show ?thesis by (cases p) (auto simp: json_sep_def skip_ws_block [of s True l])
qed

lemma json_end_nl: "c \<in> {CHR '']'', CHR ''}''} \<Longrightarrow> json_end (json_nl p l @ c # r)"
  by (auto simp: json_end_def json_nl_def is_09_def code_of_def)

lemma skip_ws_close: "c \<in> {CHR '']'', CHR ''}''} \<Longrightarrow> skip_ws (json_nl p l @ c # r) = c # r"
  unfolding skip_ws_nl by (auto simp: skip_ws_def json_ws_def code_of_def)

lemma json_end_sep: "json_end (json_sep p l @ r)"
  by (simp add: json_sep_def json_end_def is_09_def code_of_def)

lemma skip_ws_sep: "skip_ws (json_sep p l @ r) = json_sep p l @ r"
  by (simp add: skip_ws_def json_sep_def json_ws_def code_of_def)

text \<open>One lemma for the entries of a list and one for those of an object.\<close>

lemma json_elems_text:
  assumes "\<forall>x \<in> set xs. (\<forall>n r. json_need x \<le> n \<longrightarrow> json_end r \<longrightarrow> json_value n (tx x @ r) = Inr (x, r)) \<and>
      (\<forall>t. json_start (tx x @ t))"
    and "xs \<noteq> []" and "chain_need (map json_need xs) \<le> n"
  shows "json_elems n (py_join (json_sep p l) (map tx xs) @ json_nl p l' @ CHR '']'' # rest) = Inr (xs, rest)"
  using assms
proof (induction xs arbitrary: n)
  case (Cons x xs)
  from Cons.prems(3) obtain m where n: "n = Suc m" "json_need x \<le> m" "chain_need (map json_need xs) \<le> m"
    by (cases n) auto
  have x: "json_end r \<Longrightarrow> json_value m (tx x @ r) = Inr (x, r)" for r
    using Cons.prems(1) n(2) by simp
  show ?case
  proof (cases "xs = []")
    case True
    then show ?thesis using n x [OF json_end_nl] by (simp add: skip_ws_close Let_def)
  next
    case False
    let ?tail = "py_join (json_sep p l) (map tx xs) @ json_nl p l' @ CHR '']'' # rest"
    have "json_start ?tail" using Cons.prems(1) False by (cases xs) auto
    with json_sep_ws [of p l ?tail] obtain w where w: "json_sep p l = CHR '','' # w" "skip_ws (w @ ?tail) = ?tail"
      by blast
    have "json_elems m ?tail = Inr (xs, rest)" using Cons.IH Cons.prems(1) False n(3) by simp
    with False n x [OF json_end_sep, of p l ?tail] skip_ws_sep [of p l ?tail] w show ?thesis
      by (simp add: Let_def)
  qed
qed simp

lemma json_members_text:
  assumes "\<forall>kv \<in> set kvs. (\<forall>n r. json_need (snd kv) \<le> n \<longrightarrow> json_end r \<longrightarrow> json_value n (tx (snd kv) @ r) = Inr (snd kv, r)) \<and>
      (\<forall>t. json_start (tx (snd kv) @ t)) \<and> is_PStr (fst kv)"
    and "kvs \<noteq> []" and "chain_need (map (\<lambda>kv. json_need (snd kv)) kvs) \<le> n"
  shows "json_members n (py_join (json_sep p l)
      (map (\<lambda>kv. json_quote (json_key (fst kv)) @ '': '' @ tx (snd kv)) kvs) @ json_nl p l' @ CHR ''}'' # rest) =
    Inr (map (\<lambda>kv. (json_key (fst kv), snd kv)) kvs, rest)"
  using assms
proof (induction kvs arbitrary: n)
  case (Cons kv kvs)
  let ?tx = "\<lambda>kv. json_quote (json_key (fst kv)) @ '': '' @ tx (snd kv)"
  from Cons.prems(3) obtain m where n: "n = Suc m" "json_need (snd kv) \<le> m"
      "chain_need (map (\<lambda>kv. json_need (snd kv)) kvs) \<le> m"
    by (cases n) auto
  have v: "json_end r \<Longrightarrow> json_value m (tx (snd kv) @ r) = Inr (snd kv, r)" for r
    using Cons.prems(1) n(2) by simp
  have colon: "skip_ws (CHR '':'' # CHR '' '' # s) = CHR '':'' # CHR '' '' # s" "skip_ws (CHR '' '' # tx (snd kv) @ s) = tx (snd kv) @ s" for s
    using Cons.prems(1) skip_ws_start [of "tx (snd kv) @ s"] by (simp_all add: skip_ws_def json_ws_def code_of_def)
  have q: "code_of CHR 34 = 34" by (simp add: code_of_def)
  show ?case
  proof (cases "kvs = []")
    case True
    then show ?thesis using n v [OF json_end_nl]
      by (simp add: json_quote_def q json_string_quote colon skip_ws_close Let_def)
  next
    case False
    let ?tail = "py_join (json_sep p l) (map ?tx kvs) @ json_nl p l' @ CHR ''}'' # rest"
    have "json_start ?tail" using False json_start_quote by (cases kvs) auto
    with json_sep_ws [of p l ?tail] obtain w where w: "json_sep p l = CHR '','' # w" "skip_ws (w @ ?tail) = ?tail"
      by blast
    have "json_members m ?tail = Inr (map (\<lambda>kv. (json_key (fst kv), snd kv)) kvs, rest)"
      using Cons.IH Cons.prems(1) False n(3) by simp
    with False n v [OF json_end_sep, of p l ?tail] skip_ws_sep [of p l ?tail] w show ?thesis
      by (simp add: json_quote_def q json_string_quote colon Let_def)
  qed
qed simp

lemma json_object_keys:
  assumes "list_all (is_PStr \<circ> fst) kvs" and "distinct (map fst kvs)"
  shows "json_object (map (\<lambda>kv. (json_key (fst kv), snd kv)) kvs) = PDict kvs"
proof -
  have "foldl (\<lambda>d kv. dict_set d (PStr (fst kv)) (snd kv)) d (map (\<lambda>kv. (json_key (fst kv), snd kv)) kvs) = d @ kvs"
    if "distinct (map fst (d @ kvs))" for d
    using that assms(1)
  proof (induction kvs arbitrary: d)
    case (Cons kv kvs)
    have fresh: "k \<notin> fst ` set d \<Longrightarrow> dict_set d k v = d @ [(k, v)]" for k v
      by (induction d) auto
    from Cons.prems(2) have "PStr (json_key (fst kv)) = fst kv"
      by (cases "fst kv") (simp_all add: is_PStr_def json_key_def)
    with Cons.prems(1) fresh have "dict_set d (PStr (json_key (fst kv))) (snd kv) = d @ [kv]" by simp
    with Cons.IH [of "d @ [kv]"] Cons.prems show ?case by simp
  qed simp
  from this [of "[]"] assms(2) show ?thesis by (simp add: json_object_def)
qed

lemma json_value_text:
  "json_plain v \<Longrightarrow> json_need v \<le> n \<Longrightarrow> json_end rest \<Longrightarrow> json_value n (json_text p l v @ rest) = Inr (v, rest)"
proof (induction p l v arbitrary: n rest rule: json_text.induct)
  case (3 p l i)
  then obtain m where n: "n = Suc m" by (cases n) auto
  obtain c t where ct: "int_to_dec i = c # t" "c = CHR ''-'' \<or> is_09 c" using first_of_int by blast
  then have "code_of c \<noteq> 34" "c \<noteq> CHR ''[''" "c \<noteq> CHR ''{''" by (auto simp: is_09_def code_of_def)
  with json_word_int [OF 3(3), of i] ct show ?case by (simp add: n)
next
  case (4 p l s)
  then obtain m where n: "n = Suc m" by (cases n) auto
  have "code_of CHR 34 = 34" by (simp add: code_of_def)
  then show ?case by (simp add: n json_quote_def json_string_quote)
next
  case (5 p l xs)
  then obtain m where n: "n = Suc m" "chain_need (map json_need xs) \<le> m" by (cases n) auto
  have c: "code_of CHR ''['' \<noteq> 34" by (simp add: code_of_def)
  show ?case
  proof (cases "xs = []")
    case True
    have "skip_ws (CHR '']'' # rest) = CHR '']'' # rest" by (simp add: skip_ws_def json_ws_def code_of_def)
    with True c show ?thesis by (simp add: n json_block_def)
  next
    case False
    let ?items = "py_join (json_sep p (l + 1)) (map (json_text p (l + 1)) xs)"
    have els: "json_elems m (?items @ json_nl p l @ CHR '']'' # rest) = Inr (xs, rest)"
      using 5 n(2) False json_start_text by (intro json_elems_text) auto
    have start: "json_start (?items @ json_nl p l @ CHR '']'' # rest)"
      using 5(2) False json_start_text by (cases xs) auto
    with skip_ws_block [OF this, of p "l + 1"] els c False show ?thesis
      by (simp add: n json_block_def json_start_def Let_def)
  qed
next
  case (6 p l kvs)
  then obtain m where n: "n = Suc m" "chain_need (map (\<lambda>kv. json_need (snd kv)) kvs) \<le> m" by (cases n) auto
  have c: "code_of CHR ''{'' \<noteq> 34" by (simp add: code_of_def)
  have keys: "\<forall>kv \<in> set kvs. is_PStr (fst kv)" using 6(2) by (simp add: list_all_iff)
  show ?case
  proof (cases "kvs = []")
    case True
    have "skip_ws (CHR ''}'' # rest) = CHR ''}'' # rest" by (simp add: skip_ws_def json_ws_def code_of_def)
    with True c show ?thesis by (simp add: n json_block_def)
  next
    case False
    let ?items = "py_join (json_sep p (l + 1))
      (map (\<lambda>kv. json_quote (json_key (fst kv)) @ '': '' @ json_text p (l + 1) (snd kv)) kvs)"
    have els: "json_members m (?items @ json_nl p l @ CHR ''}'' # rest) =
        Inr (map (\<lambda>kv. (json_key (fst kv), snd kv)) kvs, rest)"
      using 6 n(2) False json_start_text keys by (intro json_members_text) auto
    have start: "json_start (?items @ json_nl p l @ CHR ''}'' # rest)"
      using False json_start_quote by (cases kvs) auto
    with skip_ws_block [OF this, of p "l + 1"] els c False json_object_keys [of kvs] 6(2) show ?thesis
      by (simp add: n json_block_def json_start_def Let_def)
  qed
qed (auto simp: json_word_def py_startswith_def code_of_def elim!: le_SucE dest!: Suc_le_D)

section \<open>Enough fuel\<close>

lemma chain_need_join:
  assumes "\<forall>x \<in> set xs. f x \<le> length (tx x)" and "2 \<le> length sep"
  shows "chain_need (map f xs) \<le> Suc (length (py_join sep (map tx xs)))"
  using assms(1)
proof (induction xs)
  case (Cons x xs)
  then show ?case using assms(2) by (cases "xs = []") auto
qed simp

lemma json_sep_length: "2 \<le> length (json_sep p l)"
  by (simp add: json_sep_def json_nl_def)

lemma json_need_length: "json_plain v \<Longrightarrow> json_need v \<le> length (json_text p l v)"
proof (induction p l v rule: json_text.induct)
  case (3 p l i)
  then show ?case using first_of_int [of i] by auto
next
  case (5 p l xs)
  then have "chain_need (map json_need xs) \<le> Suc (length (py_join (json_sep p (l + 1)) (map (json_text p (l + 1)) xs)))"
    by (intro chain_need_join json_sep_length) auto
  then show ?case by (auto simp: json_block_def)
next
  case (6 p l kvs)
  let ?tx = "\<lambda>kv. json_quote (json_key (fst kv)) @ '': '' @ json_text p (l + 1) (snd kv)"
  have "\<forall>kv \<in> set kvs. json_need (snd kv) \<le> length (?tx kv)" using 6 by (fastforce intro: trans_le_add2)
  then have "chain_need (map (\<lambda>kv. json_need (snd kv)) kvs) \<le> Suc (length (py_join (json_sep p (l + 1)) (map ?tx kvs)))"
    by (rule chain_need_join) (rule json_sep_length)
  then show ?case by (auto simp: json_block_def)
qed (auto simp: json_quote_def)

lemma json_loads_text: "json_plain v \<Longrightarrow> json_loads (json_text p 0 v) = Inr v"
proof -
  assume v: "json_plain v"
  have "skip_ws (json_text p 0 v) = json_text p 0 v"
    using skip_ws_start [OF json_start_text [OF v, of p 0 "[]"]] by simp
  moreover have "json_value (Suc (length (json_text p 0 v))) (json_text p 0 v @ []) = Inr (v, [])"
    using json_need_length [OF v, of p 0] by (intro json_value_text v) (auto simp: json_end_def)
  ultimately show ?thesis by (simp add: json_loads_def skip_ws_def)
qed

section \<open>Sorted keys\<close>

lemma sort_items_mset: "mset (sort_items kvs) = mset kvs"
  by (simp add: sort_items_def)

lemma sort_items_set: "set (sort_items kvs) = set kvs"
  by (metis sort_items_mset set_mset_mset)

lemma sort_items_distinct: "distinct (map fst (sort_items kvs)) \<longleftrightarrow> distinct (map fst kvs)"
  by (metis sort_items_mset mset_map mset_eq_imp_distinct_iff)

lemma json_plain_sorted: "json_plain v \<Longrightarrow> json_plain (json_sorted v)"
  by (induction v rule: json_sorted.induct)
    (auto simp: sort_items_set sort_items_distinct list_all_iff comp_def)

lemma json_plain_ok: "json_plain v \<Longrightarrow> json_ok v \<and> json_sortable v"
  by (induction v rule: json_plain.induct)
    (fastforce simp: sortable_keys_def list_all_iff is_PStr_def json_key_ok_def split: pyval.splits)+

lemma sort_items_get:
  assumes "distinct (map fst kvs)"
  shows "dict_get (sort_items (map (\<lambda>kv. (fst kv, f (snd kv))) kvs)) k = map_option f (dict_get kvs k)"
proof -
  let ?m = "map (\<lambda>kv. (fst kv, f (snd kv))) kvs"
  have "distinct (map fst ?m)" using assms by (simp add: comp_def)
  then have s: "map_of (sort_items ?m) = map_of ?m"
    by (intro map_of_inject_set [THEN iffD2]) (simp_all add: sort_items_distinct sort_items_set)
  have "map_of ?m k = map_option f (map_of kvs k)" by (induction kvs) auto
  with s show ?thesis by (simp add: dict_get_def)
qed

text \<open>
  The JSON round trip.  A value with string keys and no objects is printed without an error in both
  layouts; \<open>json.loads\<close> reads the compact text back to the same value, and the sorted and indented text
  to the value with sorted keys, which has the same entry under every key.
\<close>

lemma json_roundtrip:
  assumes "json_plain v"
  shows "(\<exists>text. json_dumps v = Inr text \<and> json_loads text = Inr v) \<and>
    (\<exists>text. json_dumps_pretty v = Inr text \<and> json_loads text = Inr (json_sorted v)) \<and>
    (\<forall>d k. v = PDict d \<longrightarrow> (\<exists>d'. json_sorted v = PDict d' \<and> dict_get d' k = map_option json_sorted (dict_get d k)))"
  using assms json_plain_ok [OF assms] json_loads_text [OF assms] json_loads_text [OF json_plain_sorted [OF assms]]
  by (auto simp: json_dumps_def json_dumps_pretty_def sort_items_get)

end
