(* ===== verification/ProcessManager.thy ===== *)
theory ProcessManager
  imports FileSystem JsonRoundtrip
begin

text \<open>
  The scripts of process_manager/: \<open>init_configs\<close> lays out the directories, configuration files and FIFOs of a
  node, \<open>pipe_controller\<close> makes the FIFO of a chain again from those files, \<open>manager\<close> makes two test FIFOs,
  and \<open>send_signal\<close> signals a process.  What they log and print is left out.
\<close>

section \<open>init_configs\<close>

definition NODE_DIR :: string where
  "NODE_DIR = ''/tmp/node''"

definition CHAINS_CONF_DIR :: string where
  "CHAINS_CONF_DIR = path_join NODE_DIR ''m_chains''"

definition NODE_CONF_PATH :: string where
  "NODE_CONF_PATH = path_join NODE_DIR ''node_conf.json''"

definition PIPES_DIR :: string where
  "PIPES_DIR = path_join NODE_DIR ''pipes''"

definition LOCAL_PORT :: int where
  "LOCAL_PORT = 1122"

definition NODE_CONF :: pyval where
  "NODE_CONF = PDict
     [(PStr ''id'', PInt 1), (PStr ''ip'', PStr ''127.0.0.1''), (PStr ''port'', PInt 1401),
      (PStr ''localPort'', PInt LOCAL_PORT), (PStr ''chainConfigDir'', PStr CHAINS_CONF_DIR),
      (PStr ''pipesDir'', PStr PIPES_DIR)]"

definition CHAIN_CONF :: "(string, pyval) dict" where
  "CHAIN_CONF =
     [(''chain_1'', PDict
        [(PStr ''mChainHash'', PStr ''1234''),
         (PStr ''nodes'', PList
           [PDict [(PStr ''id'', PInt 0), (PStr ''host'', PStr ''127.0.0.1''), (PStr ''port'', PInt 1400)],
            PDict [(PStr ''id'', PInt 1), (PStr ''host'', PStr ''127.0.0.1''), (PStr ''port'', PInt 1401)]])])]"

definition create_dir :: "string \<Rightarrow> (fsys, unit) py" where
  "create_dir path = py_bind (os_path_exists path) (\<lambda>ex. py_when (\<not> ex) (os_makedirs path))"

definition remove_existing :: "string \<Rightarrow> (fsys, unit) py" where
  "remove_existing path = py_bind (os_path_exists path) (\<lambda>ex. py_when ex (os_remove path))"

text \<open>\<open>open\<close> with mode \<open>w\<close> makes an empty file before \<open>json.dump\<close> writes to it.\<close>

definition write_json :: "string \<Rightarrow> pyval \<Rightarrow> (fsys, unit) py" where
  "write_json path data =
     py_block
       [remove_existing path,
        py_except (py_block [write_text path [], py_bind (py_lift (json_dumps data)) (write_text path)])
          is_os_error (\<lambda>_. py_return ())]"

definition make_skale_fifo :: "string \<Rightarrow> (fsys, unit) py" where
  "make_skale_fifo path =
     py_block
       [remove_existing path,
        py_except (os_mkfifo path) is_os_error (\<lambda>_. py_return ())]"

definition init_chain :: "string \<times> pyval \<Rightarrow> (fsys, unit) py" where
  "init_chain fc =
     py_bind (py_lift (bind_res (py_key (snd fc) ''mChainHash'') (py_string TypeError))) (\<lambda>h.
     py_block
       [make_skale_fifo (path_join PIPES_DIR h),
        write_json (path_join CHAINS_CONF_DIR (fst fc) @ ''.json'') (snd fc)])"

definition init_configs :: "(fsys, unit) py" where
  "init_configs =
     py_block
       [create_dir NODE_DIR,
        create_dir PIPES_DIR,
        create_dir CHAINS_CONF_DIR,
        write_json NODE_CONF_PATH NODE_CONF,
        py_for CHAIN_CONF init_chain]"

section \<open>pipe_controller\<close>

definition load_json :: "string \<Rightarrow> (fsys, pyval) py" where
  "load_json path = py_bind (read_text path) (\<lambda>text. py_lift (json_loads text))"

definition pipe_controller :: "string list \<Rightarrow> (fsys, unit) py" where
  "pipe_controller argv =
     (if length argv < 3 then py_raise (PyException ''Path to configs not passed'')
      else
        py_bind (load_json (argv ! 1)) (\<lambda>node_conf.
        py_bind (load_json (argv ! 2)) (\<lambda>chain_conf.
        py_bind (py_lift (py_key node_conf ''pipesDir'')) (\<lambda>pipes_dir.
        py_bind (py_lift (bind_res (py_key chain_conf ''mChainHash'') py_str)) (\<lambda>h.
        py_bind (py_lift (py_string TypeError pipes_dir)) (\<lambda>dir.
          make_skale_fifo (path_join dir h)))))))"

section \<open>manager\<close>

definition FIFO_NAME :: "string list" where
  "FIFO_NAME = [''_test_fifo'', ''12345'']"

definition FIFO_DIR :: string where
  "FIFO_DIR = ''/tmp/skale_fifo''"

definition manager :: "(fsys, unit) py" where
  "manager =
     py_block
       [create_dir FIFO_DIR,
        py_for FIFO_NAME (\<lambda>f. make_skale_fifo (path_join FIFO_DIR f))]"

section \<open>send_signal\<close>

text \<open>The signals sent so far; \<open>os.kill\<close> raises what the parameter says.\<close>

type_synonym signals = "(int \<times> int) list"

definition SIGPOLL :: int where
  "SIGPOLL = 29"

definition send_signal :: "(int \<Rightarrow> py_exn option) \<Rightarrow> string \<Rightarrow> (signals, unit) py" where
  "send_signal kill_error pid =
     py_bind (py_lift (py_int pid)) (\<lambda>p.
       case kill_error p of
         Some e \<Rightarrow> py_raise e
       | None \<Rightarrow> py_modify (\<lambda>sent. sent @ [(p, SIGPOLL)]))"

definition send_signal_main :: "(int \<Rightarrow> py_exn option) \<Rightarrow> string list \<Rightarrow> (signals, unit) py" where
  "send_signal_main kill_error argv =
     (case argv of
        [] \<Rightarrow> py_raise IndexError
      | [_] \<Rightarrow> py_raise (PyException ''PID not passed'')
      | _ # pid # _ \<Rightarrow> send_signal kill_error pid)"

end
