(* ===== verification/ProcessManagerProps.thy ===== *)
theory ProcessManagerProps
  imports ProcessManager FileSystemProps
begin

text \<open>
  What the scripts of process_manager/ leave behind: every call of \<open>os\<close> keeps the file system a tree, and
  \<open>init_configs\<close> on an unobstructed file system produces exactly its directories, files and FIFO, a second
  run included, from which \<open>pipe_controller\<close> finds the FIFO again.
\<close>

lemma scripts_tree [tree_steps]:
  "keeps fs_tree (create_dir p)" "keeps fs_tree (make_skale_fifo p)" "keeps fs_tree (write_json p v)"
  unfolding create_dir_def make_skale_fifo_def write_json_def remove_existing_def
  by (intro keeps_rules tree_steps)+

lemma mains_tree: "keeps fs_tree init_configs" "keeps fs_tree (pipe_controller argv)" "keeps fs_tree manager"
  unfolding init_configs_def init_chain_def pipe_controller_def load_json_def manager_def
  by (intro keeps_rules tree_steps)+

section \<open>Steps that succeed\<close>

text \<open>The call returns, and what it changed are these entries.\<close>

definition puts :: "(fsys, unit) py \<Rightarrow> (string \<times> inode) list \<Rightarrow> fsys \<Rightarrow> bool" where
  "puts m kvs fs \<longleftrightarrow>
     (\<exists>fs'. m fs = (Inr (), fs') \<and> fs_lookup fs' = fold (\<lambda>(p, n) l. l(p \<mapsto> n)) kvs (fs_lookup fs) \<and>
       fs_refused fs' = fs_refused fs)"

lemma puts_Nil: "puts (py_block []) [] fs"
  by (simp add: puts_def py_defs)

lemma puts_Cons:
  assumes "puts m [(p, n)] fs"
    and "\<And>fs'. fs_lookup fs' = (fs_lookup fs)(p \<mapsto> n) \<Longrightarrow> fs_refused fs' = fs_refused fs \<Longrightarrow> puts (py_block ms) kvs fs'"
  shows "puts (py_block (m # ms)) ((p, n) # kvs) fs"
proof -
  obtain fs1 where 1: "m fs = (Inr (), fs1)" "fs_lookup fs1 = (fs_lookup fs)(p \<mapsto> n)" "fs_refused fs1 = fs_refused fs"
    using assms(1) by (auto simp: puts_def)
  with assms(2) [of fs1] show ?thesis by (auto simp: puts_def py_defs)
qed

lemma create_entry_ok:
  "fs_lookup fs (dirname p) = Some Dir \<Longrightarrow> \<not> fs_refused fs p \<Longrightarrow> create_entry p n fs = (Inr (), fs_put p n fs)"
  by (simp add: create_entry_def parent_error_def)

lemma create_dir_ok:
  assumes "fs_lookup fs (dirname p) = Some Dir" "fs_lookup fs p \<in> {None, Some Dir}" "\<not> fs_refused fs p"
  shows "puts (create_dir p) [(p, Dir)] fs"
proof (cases "fs_lookup fs p = None")
  case True
  then have "proper p" by (rule proper_None)
  have "os_makedirs p fs = os_mkdir p fs"
    unfolding os_makedirs.simps [of p] using assms(1) by (simp add: os_path_exists_def py_defs)
  also have "\<dots> = (Inr (), fs_put p Dir fs)"
    using True assms(1,3) by (simp add: os_mkdir_def os_path_exists_def py_defs create_entry_ok)
  finally show ?thesis using True \<open>proper p\<close> by (simp add: puts_def create_dir_def os_path_exists_def py_defs lookup_put)
next
  case False
  with assms(2) have "fs_lookup fs p = Some Dir" by simp
  then have "(fs_lookup fs)(p \<mapsto> Dir) = fs_lookup fs" by (simp add: fun_upd_idem)
  with False show ?thesis by (simp add: puts_def create_dir_def os_path_exists_def py_defs)
qed

lemma remove_existing_ok:
  assumes "fs_lookup fs p \<noteq> Some Dir" "\<not> fs_refused fs p"
  shows "\<exists>fs'. remove_existing p fs = (Inr (), fs') \<and> fs_lookup fs' = (fs_lookup fs)(p := None) \<and> fs_refused fs' = fs_refused fs"
proof (cases "fs_lookup fs p")
  case None
  then have "(fs_lookup fs)(p := None) = fs_lookup fs" by (simp add: fun_upd_idem)
  with None show ?thesis by (simp add: remove_existing_def os_path_exists_def py_defs)
next
  case (Some n)
  have "proper p" using assms(1) by (auto simp: proper_def fs_lookup_def)
  with Some assms have "os_remove p fs = (Inr (), fs_drop p fs)"
    by (cases n) (simp_all add: os_remove_def)
  with Some \<open>proper p\<close> show ?thesis by (simp add: remove_existing_def os_path_exists_def py_defs lookup_drop)
qed

lemma make_fifo_ok:
  assumes "fs_lookup fs (dirname p) = Some Dir" "dirname p \<noteq> p" "fs_lookup fs p \<noteq> Some Dir" "\<not> fs_refused fs p"
  shows "puts (make_skale_fifo p) [(p, Fifo)] fs"
proof -
  obtain fs1 where 1: "remove_existing p fs = (Inr (), fs1)" "fs_lookup fs1 = (fs_lookup fs)(p := None)"
    "fs_refused fs1 = fs_refused fs" using remove_existing_ok [OF assms(3,4)] by blast
  then have "os_mkfifo p fs1 = (Inr (), fs_put p Fifo fs1)"
    using assms by (simp add: os_mkfifo_def os_path_exists_def py_defs create_entry_ok)
  moreover have "proper p" using proper_None [of fs1 p] 1(2) by simp
  ultimately show ?thesis using 1 by (simp add: puts_def make_skale_fifo_def py_defs lookup_put)
qed

lemma write_json_ok:
  assumes "fs_lookup fs (dirname p) = Some Dir" "dirname p \<noteq> p" "fs_lookup fs p \<noteq> Some Dir" "\<not> fs_refused fs p"
    and "json_dumps v = Inr text"
  shows "puts (write_json p v) [(p, File text)] fs"
proof -
  obtain fs1 where 1: "remove_existing p fs = (Inr (), fs1)" "fs_lookup fs1 = (fs_lookup fs)(p := None)"
    "fs_refused fs1 = fs_refused fs" using remove_existing_ok [OF assms(3,4)] by blast
  have p: "proper p" using proper_None [of fs1 p] 1(2) by simp
  have w1: "write_text p [] fs1 = (Inr (), fs_put p (File []) fs1)"
    using 1 assms by (simp add: write_text_def create_entry_ok)
  have w2: "write_text p text (fs_put p (File []) fs1) = (Inr (), fs_put p (File text) (fs_put p (File []) fs1))"
    using 1 assms(4) p by (simp add: write_text_def lookup_put)
  show ?thesis using 1 p by (simp add: puts_def write_json_def py_defs w1 w2 assms(5) lookup_put)
qed

section \<open>The layout of a node\<close>

definition FIFO_PATH :: string where
  "FIFO_PATH = ''/tmp/node/pipes/1234''"

definition CHAIN_CONF_PATH :: string where
  "CHAIN_CONF_PATH = ''/tmp/node/m_chains/chain_1.json''"

definition chain_1 :: pyval where
  "chain_1 = snd (hd CHAIN_CONF)"

definition node_dirs :: "string list" where
  "node_dirs = [NODE_DIR, PIPES_DIR, CHAINS_CONF_DIR]"

definition node_files :: "string list" where
  "node_files = [NODE_CONF_PATH, FIFO_PATH, CHAIN_CONF_PATH]"

definition node_layout :: "(string \<times> inode) list" where
  "node_layout =
     map (\<lambda>d. (d, Dir)) node_dirs @
     [(NODE_CONF_PATH, File (json_text False 0 NODE_CONF)), (FIFO_PATH, Fifo),
      (CHAIN_CONF_PATH, File (json_text False 0 chain_1))]"

text \<open>Nothing is in the way: no file where a directory goes, no directory where a file goes, no refusal.\<close>

definition unobstructed :: "fsys \<Rightarrow> bool" where
  "unobstructed fs \<longleftrightarrow>
     fs_lookup fs ''/tmp'' = Some Dir \<and>
     list_all (\<lambda>d. fs_lookup fs d \<in> {None, Some Dir}) node_dirs \<and>
     list_all (\<lambda>p. fs_lookup fs p \<noteq> Some Dir) node_files \<and>
     list_all (\<lambda>p. \<not> fs_refused fs p) (node_dirs @ node_files)"

lemma node_paths:
  "NODE_DIR = ''/tmp/node''" "PIPES_DIR = ''/tmp/node/pipes''" "CHAINS_CONF_DIR = ''/tmp/node/m_chains''"
  "NODE_CONF_PATH = ''/tmp/node/node_conf.json''"
  by code_simp+

lemma node_dirnames:
  "dirname ''/tmp/node'' = ''/tmp''" "dirname ''/tmp/node/pipes'' = ''/tmp/node''"
  "dirname ''/tmp/node/m_chains'' = ''/tmp/node''" "dirname ''/tmp/node/node_conf.json'' = ''/tmp/node''"
  "dirname ''/tmp/node/pipes/1234'' = ''/tmp/node/pipes''"
  "dirname ''/tmp/node/m_chains/chain_1.json'' = ''/tmp/node/m_chains''"
  by code_simp+

lemma node_joins:
  "path_join PIPES_DIR ''1234'' = FIFO_PATH"
  "path_join CHAINS_CONF_DIR ''chain_1'' @ ''.json'' = CHAIN_CONF_PATH"
  by code_simp+

lemmas node_names = node_paths FIFO_PATH_def CHAIN_CONF_PATH_def node_dirnames

lemma node_json: "json_dumps NODE_CONF = Inr (json_text False 0 NODE_CONF)" "json_plain NODE_CONF"
  "json_dumps chain_1 = Inr (json_text False 0 chain_1)" "json_plain chain_1"
  by (simp_all add: NODE_CONF_def chain_1_def CHAIN_CONF_def json_dumps_def is_PStr_def json_key_ok_def)

lemma init_chain_1: "py_for CHAIN_CONF init_chain =
    py_block [make_skale_fifo FIFO_PATH, write_json CHAIN_CONF_PATH chain_1]"
proof -
  have "bind_res (py_key chain_1 ''mChainHash'') (py_string TypeError) = Inr ''1234''" by code_simp
  then have "init_chain (''chain_1'', chain_1) =
      py_block [make_skale_fifo FIFO_PATH, write_json CHAIN_CONF_PATH chain_1]"
    by (simp add: init_chain_def node_joins py_defs fun_eq_iff)
  moreover have "py_for CHAIN_CONF init_chain = init_chain (''chain_1'', chain_1)"
    by (simp add: chain_1_def CHAIN_CONF_def)
  ultimately show ?thesis by (simp only:)
qed

lemma init_configs_block:
  "init_configs = py_block
     [create_dir NODE_DIR, create_dir PIPES_DIR, create_dir CHAINS_CONF_DIR, write_json NODE_CONF_PATH NODE_CONF,
      make_skale_fifo FIFO_PATH, write_json CHAIN_CONF_PATH chain_1]"
  unfolding init_configs_def init_chain_1 by (simp add: py_bind_def fun_eq_iff py_return_def split: sum.splits prod.splits)

lemma init_configs_puts: "unobstructed fs \<Longrightarrow> puts init_configs node_layout fs"
  unfolding init_configs_block node_layout_def node_dirs_def list.map append.simps unobstructed_def
  by (intro puts_Cons puts_Nil create_dir_ok write_json_ok make_fifo_ok)
    (auto simp: node_names node_dirs_def node_files_def node_json)

lemma fold_puts: "distinct (map fst kvs) \<Longrightarrow> fold (\<lambda>(p, n) l. l(p \<mapsto> n)) kvs m = m ++ map_of kvs"
proof (induction kvs arbitrary: m)
  case (Cons kv kvs)
  then have "fst kv \<notin> dom (map_of kvs)" by (auto simp: dom_map_of_conv_image_fst)
  with Cons show ?case by (cases kv) (auto simp: map_add_def fun_eq_iff split: option.splits)
qed simp

lemma node_layout_distinct: "distinct (map fst node_layout)"
  by code_simp

lemma node_layout_lookup:
  assumes "fs_lookup fs' = fs_lookup fs ++ map_of node_layout"
  shows "d \<in> set node_dirs \<Longrightarrow> fs_lookup fs' d = Some Dir"
    "fs_lookup fs' NODE_CONF_PATH = Some (File (json_text False 0 NODE_CONF))"
    "fs_lookup fs' FIFO_PATH = Some Fifo"
    "fs_lookup fs' CHAIN_CONF_PATH = Some (File (json_text False 0 chain_1))"
    "fs_lookup fs' ''/tmp'' = fs_lookup fs ''/tmp''"
  by (auto simp: assms map_add_def node_layout_def node_dirs_def node_names)

lemma unobstructed_again:
  assumes "unobstructed fs" "fs_lookup fs' = fs_lookup fs ++ map_of node_layout" "fs_refused fs' = fs_refused fs"
  shows "unobstructed fs'"
  using assms(1) by (auto simp: unobstructed_def node_files_def list_all_iff assms(3) node_layout_lookup [OF assms(2)])

lemma pipe_controller_puts:
  assumes "unobstructed fs" "fs_lookup fs NODE_CONF_PATH = Some (File (json_text False 0 NODE_CONF))"
    "fs_lookup fs CHAIN_CONF_PATH = Some (File (json_text False 0 chain_1))" "fs_lookup fs PIPES_DIR = Some Dir"
  shows "puts (pipe_controller [prog, NODE_CONF_PATH, CHAIN_CONF_PATH]) [(FIFO_PATH, Fifo)] fs"
proof -
  have "py_key NODE_CONF ''pipesDir'' = Inr (PStr PIPES_DIR)"
    "bind_res (py_key chain_1 ''mChainHash'') py_str = Inr ''1234''"
    by code_simp+
  then have "pipe_controller [prog, NODE_CONF_PATH, CHAIN_CONF_PATH] fs = make_skale_fifo FIFO_PATH fs"
    by (simp add: pipe_controller_def py_string_def load_json_def read_text_def py_defs assms(2,3) node_json json_loads_text node_joins)
  moreover have "puts (make_skale_fifo FIFO_PATH) [(FIFO_PATH, Fifo)] fs"
    using assms(1,4) by (intro make_fifo_ok) (auto simp: unobstructed_def node_files_def node_names)
  ultimately show ?thesis by (simp add: puts_def)
qed

text \<open>
  C37. When nothing is in the way, \<open>init_configs\<close> returns and what it changed of the file system is the layout of
  a node: the three directories, the FIFO of the chain, and the two files with the JSON text of their
  configurations.  The file system stays a tree, a second run leaves all of it as it is, and
  \<open>pipe_controller\<close> reads the two files back and makes the same FIFO again.
\<close>

theorem init_configs_sets_up:
  assumes "unobstructed fs"
  shows "\<exists>fs'. init_configs fs = (Inr (), fs') \<and> fs_lookup fs' = fs_lookup fs ++ map_of node_layout \<and>
    (fs_tree fs \<longrightarrow> fs_tree fs') \<and> puts init_configs [] fs' \<and>
    puts (pipe_controller [prog, NODE_CONF_PATH, CHAIN_CONF_PATH]) [] fs'"
proof -
  obtain fs' where 1: "init_configs fs = (Inr (), fs')" "fs_lookup fs' = fs_lookup fs ++ map_of node_layout"
    "fs_refused fs' = fs_refused fs"
    using init_configs_puts [OF assms] by (auto simp: puts_def fold_puts [OF node_layout_distinct])
  note u = unobstructed_again [OF assms 1(2,3)]
  have "fs_lookup fs' ++ map_of node_layout = fs_lookup fs'"
    unfolding 1(2) by (auto simp: map_add_def fun_eq_iff split: option.splits)
  then have "puts init_configs [] fs'"
    using init_configs_puts [OF u] by (auto simp: puts_def fold_puts [OF node_layout_distinct])
  moreover have "puts (pipe_controller [prog, NODE_CONF_PATH, CHAIN_CONF_PATH]) [] fs'"
    using pipe_controller_puts [OF u, of prog] node_layout_lookup [OF 1(2)]
    by (simp add: puts_def node_dirs_def fun_upd_idem)
  moreover have "fs_tree fs \<longrightarrow> fs_tree fs'" using mains_tree(1) 1(1) by (simp add: keeps_def) (metis snd_conv)
  ultimately show ?thesis using 1 by blast
qed

text \<open>A file system with \<open>/tmp\<close> and an old configuration.\<close>

definition sample_fs :: fsys where
  "sample_fs = \<lparr>fs_inodes = [(''/tmp'', Dir), (''/tmp/node'', Dir), (''/tmp/node/node_conf.json'', File ''old'')],
     fs_refused = (\<lambda>p. False)\<rparr>"

theorem init_configs_sets_up_witness:
  "fs_lookup (snd (init_configs sample_fs)) ''/tmp/node/pipes/1234'' = Some Fifo"
proof -
  have "unobstructed sample_fs" by code_simp
  then obtain fs' where "init_configs sample_fs = (Inr (), fs')" "fs_lookup fs' = fs_lookup sample_fs ++ map_of node_layout"
    using init_configs_sets_up [of sample_fs "[]"] by blast
  then show ?thesis using node_layout_lookup(3) [of fs' sample_fs] by (simp add: FIFO_PATH_def)
qed

end
