(* ===== verification/TestConfig.thy ===== *)
theory TestConfig
  imports ProcessManagerProps
begin

text \<open>
  \<open>ops/tests/generate_configs.py\<close>: from the list of the machines of a test it writes, for each of them, the
  configuration of the chain (every other machine with its index) and the configuration of the node, as JSON
  files under \<open>nodes/\<close>.  The list itself, \<open>machines.py\<close>, is made outside the repository and is a
  parameter.  A run with nothing in its way leaves files from which both configurations are read back.
\<close>

section \<open>The script\<close>

definition NODES_PORT :: int where
  "NODES_PORT = 1400"

definition NODES_LOCAL_PORT :: int where
  "NODES_LOCAL_PORT = 1122"

definition CHAIN_HASH :: int where
  "CHAIN_HASH = 1234"

definition CHAIN_CONFIG_DIR :: string where
  "CHAIN_CONFIG_DIR = ''/tmp/node/m_chains''"

definition NODES_PIPES_DIR :: string where
  "NODES_PIPES_DIR = ''/tmp/node/pipes''"

text \<open>
  \<open>v == w\<close> on data: \<open>True\<close> and \<open>False\<close> are the numbers 1 and 0, and the order of a dictionary
  does not count.
\<close>

definition py_number :: "pyval \<Rightarrow> int option" where
  "py_number v = (case v of PInt i \<Rightarrow> Some i | PBool b \<Rightarrow> Some (of_bool b) | _ \<Rightarrow> None)"

function py_equal :: "pyval \<Rightarrow> pyval \<Rightarrow> bool" where
  "py_equal v w = (case (v, w) of
     (PList xs, PList ys) \<Rightarrow>
       length xs = length ys \<and> list_all (\<lambda>(x, y). py_equal x y) (zip xs ys)
   | (PDict d, PDict e) \<Rightarrow>
       length d = length e \<and>
       list_all (\<lambda>(k, x). case dict_get e k of None \<Rightarrow> False | Some y \<Rightarrow> py_equal x y) d
   | _ \<Rightarrow> if py_number v \<noteq> None then py_number v = py_number w else v = w)"
  by pat_completeness auto
termination py_equal
  by (relation "measure (\<lambda>(v, w). size v)")
    (auto simp del: pyval.size dest!: size_elem size_entry set_zip_leftD)

declare py_equal.simps [simp del]

definition party :: "nat \<Rightarrow> pyval \<Rightarrow> pyval" where
  "party j ip = PDict [(PStr ''id'', PInt (int j)), (PStr ''ip'', ip), (PStr ''port'', PInt NODES_PORT)]"

definition parties_of :: "pyval list \<Rightarrow> pyval \<Rightarrow> pyval list res" where
  "parties_of nodes n =
     fold_res (\<lambda>(j, nn) parties.
         if \<not> py_equal n nn then bind_res (py_key nn ''ip'') (\<lambda>ip. Inr (parties @ [party j ip]))
         else Inr parties)
       [] (enumerate 0 nodes)"

definition chain_conf :: "pyval list \<Rightarrow> pyval" where
  "chain_conf parties = PDict [(PStr ''mChainHash'', PInt CHAIN_HASH), (PStr ''nodes'', PList parties)]"

definition node_conf :: "nat \<Rightarrow> pyval \<Rightarrow> pyval" where
  "node_conf i ip = PDict
     [(PStr ''id'', PInt (int i)), (PStr ''ip'', ip), (PStr ''port'', PInt NODES_PORT),
      (PStr ''localPort'', PInt NODES_LOCAL_PORT), (PStr ''chainConfigDir'', PStr CHAIN_CONFIG_DIR),
      (PStr ''pipesDir'', PStr NODES_PIPES_DIR), (PStr ''redisHost'', PStr ''localhost''),
      (PStr ''redisPort'', PInt 6378)]"

definition node_dir :: "nat \<Rightarrow> string" where
  "node_dir i = ''nodes/node_'' @ nat_to_dec i"

text \<open>\<open>with open(path, 'w') as outfile: json.dump(data, outfile)\<close>, for data that JSON can hold\<close>

definition dump_json :: "string \<Rightarrow> pyval \<Rightarrow> (fsys, unit) py" where
  "dump_json path data =
     py_block [write_text path [], py_bind (py_lift (json_dumps data)) (write_text path)]"

definition generate_node :: "pyval list \<Rightarrow> nat \<times> pyval \<Rightarrow> (fsys, unit) py" where
  "generate_node nodes = (\<lambda>(i, n).
     py_bind (py_lift (parties_of nodes n)) (\<lambda>parties.
     py_bind (py_lift (py_key n ''ip'')) (\<lambda>ip.
     py_block
       [create_dir ''nodes'',
        create_dir (node_dir i),
        dump_json (node_dir i @ ''/chain.json'') (chain_conf parties),
        dump_json (node_dir i @ ''/node.json'') (node_conf i ip)])))"

definition generate_conf :: "pyval list \<Rightarrow> (fsys, unit) py" where
  "generate_conf nodes = py_for (enumerate 0 nodes) (generate_node nodes)"

section \<open>Equal machines\<close>

lemma py_equal_refl: "json_plain v \<Longrightarrow> py_equal v v"
proof (induction v rule: json_plain.induct)
  case (1 xs)
  then show ?case by (auto simp: py_equal.simps [of "PList xs"] list_all_iff zip_same)
next
  case (2 kvs)
  then have "dict_get kvs k = Some x" if "(k, x) \<in> set kvs" for k x
    using that by (simp add: dict_get_def map_of_is_SomeI)
  with 2 show ?case by (fastforce simp: py_equal.simps [of "PDict kvs"] list_all_iff)
qed (simp_all add: py_equal.simps)

lemma fold_parties:
  assumes "\<And>nn. nn \<in> set ns \<Longrightarrow> py_key nn ''ip'' = Inr (ip nn)"
  shows "fold_res (\<lambda>(j, nn) parties.
         if \<not> py_equal n nn then bind_res (py_key nn ''ip'') (\<lambda>ip. Inr (parties @ [party j ip])) else Inr parties)
       acc (enumerate k ns) =
     Inr (acc @ map (\<lambda>(j, nn). party j (ip nn)) (filter (\<lambda>(j, nn). \<not> py_equal n nn) (enumerate k ns)))"
  using assms by (induction ns arbitrary: acc k) auto

definition others :: "pyval list \<Rightarrow> nat \<Rightarrow> nat list" where
  "others nodes i = filter (\<lambda>j. \<not> py_equal (nodes ! i) (nodes ! j)) [0..<length nodes]"

lemma enumerate_nth: "enumerate 0 xs = map (\<lambda>j. (j, xs ! j)) [0..<length xs]"
  by (rule nth_equalityI) (simp_all add: nth_enumerate_eq)

lemma parties_of_eq:
  assumes "\<And>nn. nn \<in> set nodes \<Longrightarrow> py_key nn ''ip'' = Inr (ip nn)"
  shows "parties_of nodes (nodes ! i) = Inr (map (\<lambda>j. party j (ip (nodes ! j))) (others nodes i))"
  using fold_parties [of nodes ip "nodes ! i" "[]" 0] assms
  by (simp add: parties_of_def enumerate_nth others_def filter_map comp_def)

section \<open>The files of a machine\<close>

lemma no_slash_dec: "CHR ''/'' \<notin> set (nat_to_dec n)"
  using nat_to_dec_digits [of "CHR ''/''" n] by (auto simp: is_09_def code_of_def)

lemma dirname_slash:
  assumes "CHR ''/'' \<notin> set b" and "a \<noteq> []" and "last a \<noteq> CHR ''/''"
  shows "dirname (a @ ''/'' @ b) = a"
proof -
  have "strip_end (\<lambda>c. c \<noteq> CHR ''/'') (a @ ''/'' @ b) = a @ ''/''"
    using assms(1) by (auto simp: strip_end_def dropWhile_append)
  moreover have "strip_end (\<lambda>c. c = CHR ''/'') (a @ ''/'') = a"
    using assms(2,3) by (cases a rule: rev_cases) (simp_all add: strip_end_def)
  ultimately show ?thesis using assms(2) by (simp add: dirname_def Let_def)
qed

definition chain_path :: "nat \<Rightarrow> string" where
  "chain_path i = node_dir i @ ''/chain.json''"

definition node_path :: "nat \<Rightarrow> string" where
  "node_path i = node_dir i @ ''/node.json''"

lemma node_dir_last: "node_dir i \<noteq> []" "last (node_dir i) \<noteq> CHR ''/''"
proof -
  have "last (nat_to_dec i) \<noteq> CHR ''/''" using no_slash_dec [of i] last_in_set [OF nat_to_dec_not_Nil [of i]] by metis
  then show "last (node_dir i) \<noteq> CHR ''/''" by (simp add: node_dir_def)
qed (simp add: node_dir_def)

lemma config_dirnames:
  "dirname ''nodes'' = []" "dirname (node_dir i) = ''nodes''" "dirname (chain_path i) = node_dir i"
  "dirname (node_path i) = node_dir i"
proof -
  show "dirname ''nodes'' = []" by code_simp
  show "dirname (node_dir i) = ''nodes''"
    using dirname_slash [of "''node_'' @ nat_to_dec i" "''nodes''"] no_slash_dec by (simp add: node_dir_def)
  show "dirname (chain_path i) = node_dir i" "dirname (node_path i) = node_dir i"
    using dirname_slash [of "''chain.json''" "node_dir i"] dirname_slash [of "''node.json''" "node_dir i"] node_dir_last
    by (simp_all add: chain_path_def node_path_def)
qed

lemma node_dir_inject [simp]: "node_dir i = node_dir j \<longleftrightarrow> i = j"
  by (simp add: node_dir_def)

lemma config_paths_differ [simp]:
  "node_dir i \<noteq> ''nodes''" "chain_path i \<noteq> ''nodes''" "node_path i \<noteq> ''nodes''"
  "chain_path i \<noteq> node_dir j" "node_path i \<noteq> node_dir j" "chain_path i \<noteq> node_path j"
  "chain_path i = chain_path j \<longleftrightarrow> i = j" "node_path i = node_path j \<longleftrightarrow> i = j"
proof -
  have s: "''nodes'' \<noteq> node_dir i" for i by (simp add: node_dir_def)
  then show "node_dir i \<noteq> ''nodes''" by metis
  show "chain_path i \<noteq> ''nodes''" "node_path i \<noteq> ''nodes''"
    by (simp_all add: chain_path_def node_path_def node_dir_def)
  show "chain_path i \<noteq> node_dir j" "node_path i \<noteq> node_dir j"
    using s config_dirnames by metis+
  show "chain_path i = chain_path j \<longleftrightarrow> i = j" "node_path i = node_path j \<longleftrightarrow> i = j"
    by (simp_all add: chain_path_def node_path_def)
  show "chain_path i \<noteq> node_path j"
  proof
    assume "chain_path i = node_path j"
    moreover from this have "node_dir i = node_dir j" using config_dirnames(3,4) by metis
    ultimately show False by (simp add: chain_path_def node_path_def)
  qed
qed

section \<open>The run\<close>

definition file_free :: "fsys \<Rightarrow> string \<Rightarrow> bool" where
  "file_free fs p \<longleftrightarrow> fs_lookup fs p \<notin> {Some Dir, Some Fifo} \<and> \<not> fs_refused fs p"

definition dir_free :: "fsys \<Rightarrow> string \<Rightarrow> bool" where
  "dir_free fs p \<longleftrightarrow> fs_lookup fs p \<in> {None, Some Dir} \<and> \<not> fs_refused fs p"

lemma dump_json_ok:
  assumes "fs_lookup fs (dirname p) = Some Dir" "dirname p \<noteq> p" "file_free fs p" "json_dumps v = Inr t"
  shows "puts (dump_json p v) [(p, File t)] fs"
proof -
  have p: "proper p" using assms(3) by (auto simp: proper_def file_free_def fs_lookup_def)
  have w: "write_text p u fs1 = (Inr (), fs_put p (File u) fs1)"
    if "fs_lookup fs1 (dirname p) = Some Dir" "file_free fs1 p" for u fs1
    using that create_entry_ok [of fs1 p "File u"]
    by (auto simp: write_text_def file_free_def split: option.splits inode.splits)
  have "write_text p [] fs = (Inr (), fs_put p (File []) fs)" using w assms by simp
  moreover have "write_text p t (fs_put p (File []) fs) = (Inr (), fs_put p (File t) (fs_put p (File []) fs))"
    by (rule w) (use assms p in \<open>simp_all add: lookup_put file_free_def\<close>)
  ultimately show ?thesis using p by (simp add: puts_def dump_json_def py_defs assms(4) lookup_put)
qed

text \<open>Nothing is in the way of the files of \<open>n\<close> machines.\<close>

definition nodes_free :: "nat \<Rightarrow> fsys \<Rightarrow> bool" where
  "nodes_free n fs \<longleftrightarrow> dir_free fs ''nodes'' \<and>
     list_all (\<lambda>i. dir_free fs (node_dir i) \<and> file_free fs (chain_path i) \<and> file_free fs (node_path i)) [0..<n]"

definition node_entries :: "pyval list \<Rightarrow> (pyval \<Rightarrow> pyval) \<Rightarrow> nat \<Rightarrow> (string \<times> inode) list" where
  "node_entries nodes ip i =
     [(''nodes'', Dir), (node_dir i, Dir),
      (chain_path i, File (json_text False 0 (chain_conf (map (\<lambda>j. party j (ip (nodes ! j))) (others nodes i))))),
      (node_path i, File (json_text False 0 (node_conf i (ip (nodes ! i)))))]"

text \<open>The machines of the list have an address that JSON can hold.\<close>

definition addressed :: "(pyval \<Rightarrow> pyval) \<Rightarrow> pyval list \<Rightarrow> bool" where
  "addressed ip nodes \<longleftrightarrow> list_all (\<lambda>n. py_key n ''ip'' = Inr (ip n) \<and> json_plain (ip n)) nodes"

lemma party_plain: "json_plain ip \<Longrightarrow> json_plain (party j ip)"
  by (simp add: party_def is_PStr_def)

lemma confs_plain:
  "\<forall>x \<in> set ps. json_plain x \<Longrightarrow> json_plain (chain_conf ps)" "json_plain ip \<Longrightarrow> json_plain (node_conf i ip)"
  by (simp_all add: chain_conf_def node_conf_def is_PStr_def)

lemma parties_plain:
  "addressed ip nodes \<Longrightarrow> json_plain (chain_conf (map (\<lambda>j. party j (ip (nodes ! j))) (others nodes i)))"
  by (auto simp: addressed_def list_all_length others_def intro!: confs_plain party_plain)

lemma plain_dumps: "json_plain v \<Longrightarrow> json_dumps v = Inr (json_text False 0 v)"
  using json_plain_ok by (simp add: json_dumps_def)

lemma generate_node_puts:
  assumes "addressed ip nodes" "nodes_free (length nodes) fs" "i < length nodes"
  shows "puts (generate_node nodes (i, nodes ! i)) (node_entries nodes ip i) fs"
proof -
  have ip: "py_key (nodes ! i) ''ip'' = Inr (ip (nodes ! i))" "json_plain (ip (nodes ! i))"
    using assms(1,3) by (simp_all add: addressed_def list_all_length)
  have "parties_of nodes (nodes ! i) = Inr (map (\<lambda>j. party j (ip (nodes ! j))) (others nodes i))"
    using assms(1) by (intro parties_of_eq) (simp add: addressed_def list_all_iff)
  then have "generate_node nodes (i, nodes ! i) =
      py_block [create_dir ''nodes'', create_dir (node_dir i),
        dump_json (chain_path i) (chain_conf (map (\<lambda>j. party j (ip (nodes ! j))) (others nodes i))),
        dump_json (node_path i) (node_conf i (ip (nodes ! i)))]"
    by (simp add: generate_node_def ip chain_path_def node_path_def)
  moreover have "puts (py_block [create_dir ''nodes'', create_dir (node_dir i),
        dump_json (chain_path i) (chain_conf (map (\<lambda>j. party j (ip (nodes ! j))) (others nodes i))),
        dump_json (node_path i) (node_conf i (ip (nodes ! i)))]) (node_entries nodes ip i) fs"
    unfolding node_entries_def
    by (intro puts_Cons puts_Nil create_dir_ok dump_json_ok)
      (use assms(2,3) in \<open>auto simp: nodes_free_def list_all_iff dir_free_def file_free_def config_dirnames
        fs_lookup_def [of _ "[]"] plain_dumps [OF parties_plain [OF assms(1)]] plain_dumps [OF confs_plain(2) [OF ip(2)]]
        config_paths_differ(1-6) [THEN not_sym]\<close>)
  ultimately show ?thesis by (simp only:)
qed

text \<open>The entries made so far, and that they are in nobody's way.\<close>

lemma puts_append:
  assumes "puts m kvs fs"
    and "\<And>fs'. fs_lookup fs' = fold (\<lambda>(p, n) l. l(p \<mapsto> n)) kvs (fs_lookup fs) \<Longrightarrow> fs_refused fs' = fs_refused fs \<Longrightarrow>
      puts m' kvs' fs'"
  shows "puts (py_bind m (\<lambda>_. m')) (kvs @ kvs') fs"
proof -
  obtain fs1 where 1: "m fs = (Inr (), fs1)" "fs_lookup fs1 = fold (\<lambda>(p, n) l. l(p \<mapsto> n)) kvs (fs_lookup fs)"
    "fs_refused fs1 = fs_refused fs" using assms(1) by (auto simp: puts_def)
  with assms(2) [of fs1] show ?thesis by (auto simp: puts_def py_defs)
qed

lemma nodes_free_put:
  assumes "nodes_free n fs" "fs_lookup fs' = fold (\<lambda>(p, n) l. l(p \<mapsto> n)) (node_entries nodes ip i) (fs_lookup fs)"
    "fs_refused fs' = fs_refused fs"
  shows "nodes_free n fs'"
  using assms(1) config_paths_differ(1-6) [THEN not_sym]
  by (auto simp: nodes_free_def list_all_iff dir_free_def file_free_def node_entries_def assms(2,3))

lemma generate_puts:
  assumes "addressed ip nodes" "nodes_free (length nodes) fs" "set is \<subseteq> {..<length nodes}"
  shows "puts (py_for (map (\<lambda>i. (i, nodes ! i)) is) (generate_node nodes)) (concat (map (node_entries nodes ip) is)) fs"
  using assms(2,3)
proof (induction "is" arbitrary: fs)
  case Nil
  then show ?case using puts_Nil by simp
next
  case (Cons i "is")
  show ?case unfolding list.map concat.simps py_for.simps
    by (rule puts_append [OF generate_node_puts [OF assms(1) Cons.prems(1)]])
      (use Cons nodes_free_put in auto)
qed

lemma fold_puts_lookup:
  assumes "(p, n) \<in> set kvs" and "\<And>n'. (p, n') \<in> set kvs \<Longrightarrow> n' = n"
  shows "fold (\<lambda>(p, n) l. l(p \<mapsto> n)) kvs l p = Some n"
  using assms
proof (induction kvs rule: rev_induct)
  case (snoc kv kvs)
  obtain q m where kv: "kv = (q, m)" by (cases kv)
  show ?case
  proof (cases "q = p")
    case True
    then have "m = n" using snoc.prems(2) [of m] kv by simp
    with True kv show ?thesis by simp
  next
    case False
    with kv snoc.prems(1) have "(p, n) \<in> set kvs" by auto
    then have "fold (\<lambda>(p, n) l. l(p \<mapsto> n)) kvs l p = Some n" by (rule snoc.IH) (rule snoc.prems(2), simp)
    with False kv show ?thesis by (simp del: fun_upd_apply add: fun_upd_other)
  qed
qed simp

lemma load_file: "fs_lookup fs p = Some (File (json_text False 0 v)) \<Longrightarrow> json_plain v \<Longrightarrow> load_json p fs = (Inr v, fs)"
  by (simp add: load_json_def read_text_def py_defs json_loads_text)

text \<open>
  C38. When every machine of the list has an address that JSON can hold and nothing is in the way of the
  files, \<open>generate_conf\<close> returns, and afterwards the two files of each machine read back as its
  configuration: \<open>node.json\<close> with its own index and address, and \<open>chain.json\<close> with the index and address
  of every machine of the list that differs from it, in the order of the list.  No configuration lists the
  machine itself; it lists all others if and only if no other entry equals the machine's own.
\<close>

theorem configs_generated:
  assumes "addressed ip nodes" and "list_all json_plain nodes" and "nodes_free (length nodes) fs"
  shows "\<exists>fs'. generate_conf nodes fs = (Inr (), fs') \<and>
    (\<forall>i < length nodes.
       load_json (node_dir i @ ''/node.json'') fs' = (Inr (node_conf i (ip (nodes ! i))), fs') \<and>
       load_json (node_dir i @ ''/chain.json'') fs' =
         (Inr (chain_conf (map (\<lambda>j. party j (ip (nodes ! j))) (others nodes i))), fs') \<and>
       i \<notin> set (others nodes i) \<and>
       (set (others nodes i) = {..<length nodes} - {i} \<longleftrightarrow>
          (\<forall>j < length nodes. j \<noteq> i \<longrightarrow> \<not> py_equal (nodes ! i) (nodes ! j))))"
proof -
  let ?ents = "concat (map (node_entries nodes ip) [0..<length nodes])"
  obtain fs' where 1: "generate_conf nodes fs = (Inr (), fs')"
    "fs_lookup fs' = fold (\<lambda>(p, n) l. l(p \<mapsto> n)) ?ents (fs_lookup fs)"
    using generate_puts [OF assms(1,3), of "[0..<length nodes]"]
    by (auto simp: puts_def generate_conf_def enumerate_nth atLeast0LessThan)
  have e: "fs_lookup fs' p = Some x" if "i < length nodes" "(p, x) \<in> set (node_entries nodes ip i)"
    "p = chain_path i \<or> p = node_path i" for p x i
    unfolding 1(2) by (rule fold_puts_lookup)
      (use that config_paths_differ(1-6) [THEN not_sym] in \<open>auto simp: node_entries_def split: if_splits\<close>)
  have "json_plain (ip (nodes ! i))" if "i < length nodes" for i
    using assms(1) that by (simp add: addressed_def list_all_length)
  then have "load_json (node_path i) fs' = (Inr (node_conf i (ip (nodes ! i))), fs')"
    "load_json (chain_path i) fs' = (Inr (chain_conf (map (\<lambda>j. party j (ip (nodes ! j))) (others nodes i))), fs')"
    if "i < length nodes" for i
    using that by (auto intro!: load_file confs_plain(2) parties_plain [OF assms(1)] e simp: node_entries_def)
  moreover have "i \<notin> set (others nodes i)" if "i < length nodes" for i
    using that assms(2) py_equal_refl by (simp add: others_def list_all_length)
  ultimately show ?thesis using 1(1)
    by (intro exI [of _ fs']) (auto simp: chain_path_def node_path_def others_def)
qed

text \<open>Three machines, the last of which is listed twice.\<close>

definition sample_nodes :: "pyval list" where
  "sample_nodes = [PDict [(PStr ''ip'', PStr ''10.0.0.1'')], PDict [(PStr ''ip'', PStr ''10.0.0.2'')],
     PDict [(PStr ''ip'', PStr ''10.0.0.2'')]]"

theorem configs_generated_witness:
  "others sample_nodes 0 = [1, 2] \<and> others sample_nodes 1 = [0] \<and>
   (\<exists>fs'. generate_conf sample_nodes \<lparr>fs_inodes = [], fs_refused = (\<lambda>p. False)\<rparr> = (Inr (), fs') \<and>
      load_json ''nodes/node_1/chain.json'' fs' = (Inr (chain_conf [party 0 (PStr ''10.0.0.1'')]), fs'))"
proof -
  let ?ip = "\<lambda>n. case py_key n ''ip'' of Inr a \<Rightarrow> a | Inl _ \<Rightarrow> PNone"
  have h: "addressed ?ip sample_nodes" "list_all json_plain sample_nodes"
    "nodes_free (length sample_nodes) \<lparr>fs_inodes = [], fs_refused = (\<lambda>p. False)\<rparr>"
    "others sample_nodes 0 = [1, 2]" "others sample_nodes 1 = [0]" "1 < length sample_nodes"
    "node_dir 1 @ ''/chain.json'' = ''nodes/node_1/chain.json''" "?ip (sample_nodes ! 0) = PStr ''10.0.0.1''"
    by code_simp+
  show ?thesis using configs_generated [OF h(1-3)] h(4-8) by fastforce
qed

end
