(* ===== verification/Ec2Main.thy ===== *)
theory Ec2Main
  imports Complex_Main CommandLine Settings Ec2Region HostInfo Json
begin

text \<open>
  A run of ops/ansible/ec2.py: \<open>Ec2Inventory.__init__\<close> from the command line to the text that
  is printed, with the cache that it keeps between runs.  The clock, the file times and the files are part
  of the state.
\<close>

section \<open>Environment and state\<close>

text \<open>
  \<open>me_instances\<close> answers \<open>get_all_instances([id])\<close> for a region, \<open>me_clock n\<close> is the \<open>n\<close>-th reading of the
  clock, and \<open>me_has_profiles\<close> says whether boto's connections take a profile.
\<close>

record main_env =
  me_world :: world
  me_cloud :: cloud
  me_instances :: "string \<Rightarrow> pyval \<Rightarrow> pyval list res"
  me_has_profiles :: bool
  me_clock :: "nat \<Rightarrow> rat"
  me_fuel :: nat

record main_state =
  ms_ec2 :: ec2_state
  ms_fs :: fsys
  ms_mtimes :: "string \<Rightarrow> rat"
  ms_readings :: nat

definition on_ec2 :: "(ec2_state, 'a) py \<Rightarrow> (main_state, 'a) py" where
  "on_ec2 m s = (case m (ms_ec2 s) of (r, e) \<Rightarrow> (r, s\<lparr>ms_ec2 := e\<rparr>))"

definition on_fs :: "(fsys, 'a) py \<Rightarrow> (main_state, 'a) py" where
  "on_fs m s = (case m (ms_fs s) of (r, fs) \<Rightarrow> (r, s\<lparr>ms_fs := fs\<rparr>))"

definition read_clock :: "main_env \<Rightarrow> (main_state, rat) py" where
  "read_clock env s = (Inr (me_clock env (ms_readings s)), s\<lparr>ms_readings := ms_readings s + 1\<rparr>)"

section \<open>The cache\<close>

definition is_cache_valid :: "main_env \<Rightarrow> cache_files \<Rightarrow> (main_state, bool) py" where
  "is_cache_valid env cache =
     py_bind (on_fs (os_path_isfile (cf_cache cache))) (\<lambda>cached.
       if \<not> cached then py_return False else
       py_bind (py_gets (\<lambda>s. ms_mtimes s (cf_cache cache))) (\<lambda>mod_time.
       py_bind (read_clock env) (\<lambda>current_time.
         if mod_time + of_int (cf_max_age cache) > current_time then on_fs (os_path_isfile (cf_index cache))
         else py_return False)))"

definition json_format_dict :: "(pyval, pyval) dict \<Rightarrow> bool \<Rightarrow> string res" where
  "json_format_dict data pretty = (if pretty then json_dumps_pretty (PDict data) else json_dumps (PDict data))"

text \<open>A file that is written has the time of the writing.\<close>

definition write_to_cache :: "main_env \<Rightarrow> (pyval, pyval) dict \<Rightarrow> string \<Rightarrow> (main_state, unit) py" where
  "write_to_cache env data filename =
     py_bind (py_lift (json_format_dict data True)) (\<lambda>json_data.
     py_bind (on_fs (write_text filename json_data)) (\<lambda>_.
     py_bind (read_clock env) (\<lambda>now.
       py_modify (\<lambda>s. s\<lparr>ms_mtimes := (ms_mtimes s)(filename := now)\<rparr>))))"

definition get_inventory_from_cache :: "cache_files \<Rightarrow> (main_state, string) py" where
  "get_inventory_from_cache cache = on_fs (read_text (cf_cache cache))"

text \<open>The index file holds an object.\<close>

definition load_index_from_cache :: "cache_files \<Rightarrow> (main_state, unit) py" where
  "load_index_from_cache cache =
     py_bind (on_fs (read_text (cf_index cache))) (\<lambda>text.
     py_bind (py_lift (json_loads text)) (\<lambda>v.
       case v of
         PDict d \<Rightarrow> on_ec2 (py_modify (\<lambda>e. e\<lparr>ei_index := d\<rparr>))
       | _ \<Rightarrow> py_raise TypeError))"

definition do_api_calls_update_cache :: "main_env \<Rightarrow> settings \<Rightarrow> cache_files \<Rightarrow> (main_state, unit) py" where
  "do_api_calls_update_cache env st cache =
     py_block
       [on_ec2 (do_api_calls (me_fuel env) st (me_cloud env)),
        py_bind (py_gets (\<lambda>s. ei_inventory (ms_ec2 s))) (\<lambda>d. write_to_cache env d (cf_cache cache)),
        py_bind (py_gets (\<lambda>s. ei_index (ms_ec2 s))) (\<lambda>d. write_to_cache env d (cf_index cache))]"

section \<open>One host\<close>

text \<open>The first instance of the answer, \<open>None\<close> when there is none\<close>

primrec first_instance :: "pyval list \<Rightarrow> pyval res" where
  "first_instance [] = Inr PNone"
| "first_instance (r # rs) =
     bind_res (reservation_instances r) (\<lambda>is. case is of [] \<Rightarrow> first_instance rs | i # _ \<Rightarrow> Inr i)"

definition get_instance :: "main_env \<Rightarrow> settings \<Rightarrow> string \<Rightarrow> pyval \<Rightarrow> (main_state, pyval) py" where
  "get_instance env st region instance_id =
     py_bind (on_ec2 (connect st (me_cloud env) region)) (\<lambda>_.
     py_bind (py_lift (me_instances env region instance_id)) (\<lambda>reservations.
       py_lift (first_instance reservations)))"

text \<open>\<open>(region, instance_id) = entry\<close>; a region is a string.\<close>

definition index_entry :: "pyval \<Rightarrow> (string \<times> pyval) res" where
  "index_entry v =
     bind_res (py_elements v) (\<lambda>xs.
       case xs of
         [r, i] \<Rightarrow> bind_res (py_string TypeError r) (\<lambda>region. Inr (region, i))
       | _ \<Rightarrow> Inl ValueError)"

definition host_data :: "main_env \<Rightarrow> settings \<Rightarrow> pyval \<Rightarrow> (main_state, string) py" where
  "host_data env st entry =
     py_bind (py_lift (index_entry entry)) (\<lambda>(region, instance_id).
     py_bind (get_instance env st region instance_id) (\<lambda>inst.
     py_bind (py_gets (\<lambda>s. ei_aws_account_id (ms_ec2 s))) (\<lambda>account.
       py_lift (bind_res (get_host_info_dict_from_instance st account inst) (\<lambda>d. json_format_dict d True)))))"

definition index_of :: "string \<Rightarrow> (main_state, pyval option) py" where
  "index_of host = py_gets (\<lambda>s. dict_get (ei_index (ms_ec2 s)) (PStr host))"

definition get_host_info :: "main_env \<Rightarrow> settings \<Rightarrow> cache_files \<Rightarrow> string \<Rightarrow> (main_state, string) py" where
  "get_host_info env st cache host =
     py_bind (py_gets (\<lambda>s. ei_index (ms_ec2 s) = [])) (\<lambda>unloaded.
     py_bind (py_when unloaded (load_index_from_cache cache)) (\<lambda>_.
     py_bind (index_of host) (\<lambda>found.
       case found of
         Some entry \<Rightarrow> host_data env st entry
       | None \<Rightarrow>
           py_bind (do_api_calls_update_cache env st cache) (\<lambda>_.
           py_bind (index_of host) (\<lambda>found.
             case found of
               Some entry \<Rightarrow> host_data env st entry
             | None \<Rightarrow> py_lift (json_format_dict [] True))))))"

section \<open>The run\<close>

definition ec2_init :: ec2_state where
  "ec2_init = \<lparr>ei_inventory = empty_inventory, ei_index = [], ei_aws_account_id = PNone,
     ei_route53_records = None, ei_credentials = []\<rparr>"

definition check_profile :: "main_env \<Rightarrow> settings \<Rightarrow> (main_state, unit) py" where
  "check_profile env st =
     py_when (truthy_opt (st_boto_profile st) \<and> \<not> me_has_profiles env)
       (fail_with_error ''boto version must be >= 2.24 to use profile'' None)"

definition refresh_when_needed ::
  "main_env \<Rightarrow> cli_args \<Rightarrow> settings \<Rightarrow> cache_files \<Rightarrow> (main_state, unit) py"
where
  "refresh_when_needed env args st cache =
     (if ar_refresh_cache args then do_api_calls_update_cache env st cache
      else py_bind (is_cache_valid env cache) (\<lambda>valid.
        py_when (\<not> valid) (do_api_calls_update_cache env st cache)))"

definition data_to_print :: "main_env \<Rightarrow> cli_args \<Rightarrow> settings \<Rightarrow> cache_files \<Rightarrow> (main_state, string) py" where
  "data_to_print env args st cache =
     (if truthy_opt (ar_host args) then get_host_info env st cache (the (ar_host args))
      else if ar_list args then
        py_bind (py_gets (\<lambda>s. ei_inventory (ms_ec2 s))) (\<lambda>inventory.
          if inventory = empty_inventory then get_inventory_from_cache cache
          else py_lift (json_format_dict inventory True))
      else py_raise UnboundLocalError)"

definition run_inventory :: "main_env \<Rightarrow> cli_args \<Rightarrow> (main_state, string) py" where
  "run_inventory env args =
     py_bind (on_fs (read_config (me_world env))) (\<lambda>config.
     py_bind (on_fs (read_settings_io (me_world env) config)) (\<lambda>(st, creds, cache).
     py_bind (on_ec2 (py_modify (\<lambda>e. e\<lparr>ei_credentials := creds\<rparr>))) (\<lambda>_.
     py_bind (check_profile env st) (\<lambda>_.
     py_bind (refresh_when_needed env args st cache) (\<lambda>_.
       data_to_print env args st cache)))))"

text \<open>\<open>read_settings\<close> looks at \<open>self.args\<close> for the profile.  The result is the text that is printed.\<close>

definition with_args :: "cli_args \<Rightarrow> main_env \<Rightarrow> main_env" where
  "with_args args env = env\<lparr>me_world := (me_world env)\<lparr>wo_args_profile := ar_boto_profile args\<rparr>\<rparr>"

definition ec2_inventory :: "main_env \<Rightarrow> string list \<Rightarrow> (main_state, string) py" where
  "ec2_inventory env argv =
     py_bind (on_ec2 (py_modify (\<lambda>_. ec2_init))) (\<lambda>_.
     py_bind (py_lift (parse_cli_args argv)) (\<lambda>args.
       run_inventory (with_args args env) args))"

end
