(* ===== verification/Ec2MainProps.thy ===== *)
theory Ec2MainProps
  imports Ec2Main IniProps JsonRoundtrip Ec2RegionInv
begin

text \<open>
  The cache of ops/ansible/ec2.py: what is written to its files is read from them, what a refresh leaves
  there, and when the next process answers from them.
\<close>

section \<open>The settings of a run\<close>

lemma read_settings_io_texts: "text_at (snd (read_settings_io w ini fs)) p = text_at fs p"
proof -
  have "keeps (\<lambda>fs. text_at fs p = x) (read_settings_io w ini)" for x
    unfolding read_settings_io_def os_path_exists_def by (intro keeps_rules makedirs_texts)
  then show ?thesis by (auto dest: keepsD)
qed

lemma read_settings_io_eq_Inr:
  assumes "read_settings_io w ini fs = (Inr x, fs')"
  shows "\<exists>h. read_settings_head w ini = Inr h \<and> read_settings_tail w ini h = Inr x \<and> fs_lookup fs' (snd (snd h)) \<noteq> None"
  using assms os_makedirs_there
  by (fastforce simp: read_settings_io_def py_bind_eq_Inr os_path_exists_def py_lift_def py_gets_def py_when_def
      py_return_def split: if_splits)

lemma read_settings_io_again:
  assumes "read_settings_head w ini = Inr h" "fs_lookup fs (snd (snd h)) \<noteq> None"
  shows "read_settings_io w ini fs = (read_settings_tail w ini h, fs)"
  using assms by (auto simp: read_settings_io_def os_path_exists_def py_defs)

lemma path_join_suffix: "path_join d (n @ ''.cache'') \<noteq> path_join d (n @ ''.index'')"
  by (simp add: path_join_def py_startswith_def)

lemma cache_paths_differ:
  assumes "read_settings_tail w ini h = Inr (st, creds, cache)"
  shows "cf_cache cache \<noteq> cf_index cache"
proof -
  have "\<exists>bp cr dir. read_cache_files w ini bp cr dir = Inr cache"
    using assms by (auto simp: read_settings_tail_def case_prod_beta bind_res_eq_Inr)
  then show ?thesis
    by (auto simp: read_cache_files_def bind_res_eq_Inr Let_def path_join_suffix simp del: append_assoc)
qed

section \<open>What a refresh writes\<close>

lemma on_fs_eq: "on_fs m s = (r, s') \<longleftrightarrow> (\<exists>fs. m (ms_fs s) = (r, fs) \<and> s' = s\<lparr>ms_fs := fs\<rparr>)"
  by (auto simp: on_fs_def split: prod.splits)

lemma on_ec2_eq: "on_ec2 m s = (r, s') \<longleftrightarrow> (\<exists>e. m (ms_ec2 s) = (r, e) \<and> s' = s\<lparr>ms_ec2 := e\<rparr>)"
  by (auto simp: on_ec2_def split: prod.splits)

lemma write_to_cache_eq_Inr:
  assumes "write_to_cache env d p s = (Inr (), s')"
  shows "\<exists>text. json_dumps_pretty (PDict d) = Inr text \<and> fs_lookup (ms_fs s') = (fs_lookup (ms_fs s))(p \<mapsto> File text) \<and>
    ms_ec2 s' = ms_ec2 s \<and> ms_mtimes s' = (ms_mtimes s)(p := ms_mtimes s' p)"
  using assms
  by (auto simp: write_to_cache_def py_bind_eq_Inr json_format_dict_def py_lift_def on_fs_eq read_clock_def
      py_modify_def dest!: write_text_eq_Inr)

definition cached :: "cache_files \<Rightarrow> main_state \<Rightarrow> bool" where
  "cached cache s \<longleftrightarrow> (\<exists>ti tx. json_dumps_pretty (PDict (ei_inventory (ms_ec2 s))) = Inr ti \<and>
     json_dumps_pretty (PDict (ei_index (ms_ec2 s))) = Inr tx \<and>
     fs_lookup (ms_fs s) (cf_cache cache) = Some (File ti) \<and> fs_lookup (ms_fs s) (cf_index cache) = Some (File tx))"

lemma update_cache_eq_Inr:
  assumes "do_api_calls_update_cache env st cache s = (Inr (), s')" and "cf_cache cache \<noteq> cf_index cache"
  shows "cached cache s' \<and> (\<forall>d. fs_lookup (ms_fs s) d \<noteq> None \<longrightarrow> fs_lookup (ms_fs s') d \<noteq> None) \<and>
    (\<forall>p. p \<notin> {cf_cache cache, cf_index cache} \<longrightarrow> text_at (ms_fs s') p = text_at (ms_fs s) p)"
proof -
  obtain s1 s2 where 1: "on_ec2 (do_api_calls (me_fuel env) st (me_cloud env)) s = (Inr (), s1)"
    "write_to_cache env (ei_inventory (ms_ec2 s1)) (cf_cache cache) s1 = (Inr (), s2)"
    "write_to_cache env (ei_index (ms_ec2 s2)) (cf_index cache) s2 = (Inr (), s')"
    using assms(1) by (auto simp: do_api_calls_update_cache_def py_bind_eq_Inr py_gets_def)
  have "ms_fs s1 = ms_fs s" using 1(1) by (auto simp: on_ec2_eq)
  then show ?thesis
    using write_to_cache_eq_Inr [OF 1(2)] write_to_cache_eq_Inr [OF 1(3)] assms(2)
    by (auto simp: cached_def text_at_def)
qed

section \<open>The cache files\<close>

lemma sorted_dict:
  "json_plain (PDict d) \<Longrightarrow>
    \<exists>d'. json_sorted (PDict d) = PDict d' \<and> (\<forall>k. dict_get d' k = map_option json_sorted (dict_get d k))"
  by (simp add: sort_items_get)

lemma write_to_cache_ok:
  assumes "json_plain (PDict d)" and "writable (ms_fs s) p"
  shows "\<exists>doc. json_format_dict d True = Inr doc \<and> json_loads doc = Inr (json_sorted (PDict d)) \<and>
    write_to_cache env d p s = (Inr (), s\<lparr>ms_fs := fs_put p (File doc) (ms_fs s),
      ms_mtimes := (ms_mtimes s)(p := me_clock env (ms_readings s)), ms_readings := Suc (ms_readings s)\<rparr>)"
proof -
  obtain doc where "json_dumps_pretty (PDict d) = Inr doc" "json_loads doc = Inr (json_sorted (PDict d))"
    using json_roundtrip [OF assms(1)] by blast
  then show ?thesis
    by (simp add: write_to_cache_def json_format_dict_def on_fs_def read_clock_def py_defs write_text_ok [OF assms(2)])
qed

text \<open>
  C39. What is written to the cache is what is read from it.  When both cache files may be written and
  the data are plain (string keys, no objects), \<open>write_to_cache\<close> succeeds for the inventory and for the
  index.  Afterwards \<open>get_inventory_from_cache\<close> is the indented doc of \<open>json_format_dict\<close>, a document of
  the inventory with sorted keys; \<open>load_index_from_cache\<close> makes the index the written one with sorted
  keys, with the same entry under every key; the cache counts as valid as long as the clock has not
  reached the time of the first writing plus \<open>cache_max_age\<close>; and no other file has changed.  Without
  \<open>pretty\<close>, \<open>json_format_dict\<close> keeps the order: its doc is a document of the inventory itself.
\<close>

theorem cache_roundtrip:
  assumes "json_plain (PDict inventory)" and "json_plain (PDict index)" and "cf_cache cache \<noteq> cf_index cache"
    and "writable (ms_fs s) (cf_cache cache)" and "writable (ms_fs s) (cf_index cache)"
  shows "\<exists>s1 s2 doc compact loaded. write_to_cache env inventory (cf_cache cache) s = (Inr (), s1) \<and>
    write_to_cache env index (cf_index cache) s1 = (Inr (), s2) \<and>
    json_format_dict inventory True = Inr doc \<and> json_loads doc = Inr (json_sorted (PDict inventory)) \<and>
    get_inventory_from_cache cache s2 = (Inr doc, s2) \<and>
    json_format_dict inventory False = Inr compact \<and> json_loads compact = Inr (PDict inventory) \<and>
    load_index_from_cache cache s2 = (Inr (), s2\<lparr>ms_ec2 := (ms_ec2 s)\<lparr>ei_index := loaded\<rparr>\<rparr>) \<and>
    json_sorted (PDict index) = PDict loaded \<and>
    (\<forall>key. dict_get loaded key = map_option json_sorted (dict_get index key)) \<and>
    fst (is_cache_valid env cache s2) = Inr (me_clock env (Suc (Suc (ms_readings s))) <
      me_clock env (ms_readings s) + of_int (cf_max_age cache)) \<and>
    (\<forall>p. p \<notin> {cf_cache cache, cf_index cache} \<longrightarrow> fs_lookup (ms_fs s2) p = fs_lookup (ms_fs s) p)"
proof -
  obtain doc where doc: "json_format_dict inventory True = Inr doc" "json_loads doc = Inr (json_sorted (PDict inventory))"
    and w1: "write_to_cache env inventory (cf_cache cache) s = (Inr (), s\<lparr>ms_fs := fs_put (cf_cache cache) (File doc) (ms_fs s),
      ms_mtimes := (ms_mtimes s)(cf_cache cache := me_clock env (ms_readings s)), ms_readings := Suc (ms_readings s)\<rparr>)"
    (is "_ = (Inr (), ?s1)") using write_to_cache_ok [OF assms(1,4)] by blast
  have "writable (ms_fs ?s1) (cf_index cache)" using writable_put [OF assms(4,5)] by simp
  then obtain tx where tx: "json_format_dict index True = Inr tx" "json_loads tx = Inr (json_sorted (PDict index))"
    and w2: "write_to_cache env index (cf_index cache) ?s1 = (Inr (), ?s1\<lparr>ms_fs := fs_put (cf_index cache) (File tx) (ms_fs ?s1),
      ms_mtimes := (ms_mtimes ?s1)(cf_index cache := me_clock env (ms_readings ?s1)), ms_readings := Suc (ms_readings ?s1)\<rparr>)"
    (is "_ = (Inr (), ?s2)") using write_to_cache_ok [OF assms(2)] by blast
  obtain loaded where loaded: "json_sorted (PDict index) = PDict loaded"
    "\<forall>key. dict_get loaded key = map_option json_sorted (dict_get index key)"
    using sorted_dict [OF assms(2)] by blast
  obtain compact where compact: "json_format_dict inventory False = Inr compact" "json_loads compact = Inr (PDict inventory)"
    using json_roundtrip [OF assms(1)] by (auto simp: json_format_dict_def)
  have fs: "fs_lookup (ms_fs ?s2) = (fs_lookup (ms_fs s))(cf_cache cache \<mapsto> File doc, cf_index cache \<mapsto> File tx)"
    by (simp add: lookup_put writable_proper [OF assms(4)] writable_proper [OF assms(5)])
  then have files: "fs_lookup (ms_fs ?s2) (cf_cache cache) = Some (File doc)"
    "fs_lookup (ms_fs ?s2) (cf_index cache) = Some (File tx)" using assms(3) by simp_all
  have "get_inventory_from_cache cache ?s2 = (Inr doc, ?s2)"
    using files.read_held [OF files(1)] by (simp add: get_inventory_from_cache_def on_fs_def)
  moreover have "load_index_from_cache cache ?s2 = (Inr (), ?s2\<lparr>ms_ec2 := (ms_ec2 s)\<lparr>ei_index := loaded\<rparr>\<rparr>)"
    using files.read_held [OF files(2)] tx(2) loaded(1)
    by (simp add: load_index_from_cache_def on_fs_def on_ec2_def py_defs)
  moreover have "fst (is_cache_valid env cache ?s2) = Inr (me_clock env (Suc (Suc (ms_readings s))) <
      me_clock env (ms_readings s) + of_int (cf_max_age cache))"
    using files assms(3)
    by (simp add: is_cache_valid_def os_path_isfile_def on_fs_def read_clock_def py_defs)
  moreover have "\<forall>p. p \<notin> {cf_cache cache, cf_index cache} \<longrightarrow> fs_lookup (ms_fs ?s2) p = fs_lookup (ms_fs s) p"
    unfolding fs by simp
  ultimately show ?thesis using w1 w2 doc loaded compact by blast
qed

section \<open>Another process\<close>

text \<open>
  The same script started again: Python has drawn a new salt for its hashes, so the hash of the script's
  name and the order of sets are others.  Six digits of that hash are in the names of the cache files.
\<close>

definition restarted :: "int \<Rightarrow> (string set \<Rightarrow> string list) \<Rightarrow> world \<Rightarrow> world" where
  "restarted file_hash set_order w = w\<lparr>wo_file_hash := file_hash, wo_set_order := set_order\<rparr>"

definition hash_digits :: "int \<Rightarrow> string" where
  "hash_digits h = take 6 (drop 1 (int_to_dec (abs h)))"

lemma restarted_fields [simp]:
  "wo_environ (restarted h ord w) = wo_environ w" "wo_args_profile (restarted h ord w) = wo_args_profile w"
  "wo_file_hash (restarted h ord w) = h" "wo_set_order (restarted h ord w) = ord"
  "wo_compile (restarted h ord w) = wo_compile w" "wo_format (restarted h ord w) = wo_format w"
  "wo_ec2_regions (restarted h ord w) = wo_ec2_regions w" "wo_euca_region (restarted h ord w) = wo_euca_region w"
  "wo_pwd (restarted h ord w) = wo_pwd w" "wo_pwd_self (restarted h ord w) = wo_pwd_self w"
  "wo_file (restarted h ord w) = wo_file w"
  by (simp_all add: restarted_def)

lemma restarted_readers [simp]:
  "expanduser (restarted h ord w) = expanduser w" "cache_id (restarted h ord w) = cache_id w"
  "read_regions (restarted h ord w) = read_regions w" "read_pattern (restarted h ord w) = read_pattern w"
  "read_destination_format (restarted h ord w) = read_destination_format w"
  "read_boto_profile (restarted h ord w) = read_boto_profile w"
  "read_credentials (restarted h ord w) = read_credentials w"
  unfolding fun_eq_iff expanduser_def cache_id_def read_regions_def env_region_def read_pattern_def
    read_destination_format_def read_boto_profile_def read_credentials_def restarted_fields
  by blast+

lemma restarted_files [simp]:
  "read_config (restarted h ord w) = read_config w" "read_cache_dir (restarted h ord w) = read_cache_dir w"
  unfolding fun_eq_iff read_config_def ec2_ini_path_def ini_fallback_def default_ini_path_def read_cache_dir_def
    restarted_readers restarted_fields
  by blast+

lemma restarted_head:
  "read_settings_head (restarted h ord w) ini =
     bind_res (read_settings_head w ini) (\<lambda>(st, creds, dir). Inr (st\<lparr>st_set_order := ord\<rparr>, creds, dir))"
  unfolding read_settings_head_def restarted_readers restarted_files restarted_fields split_def bind_res_assoc
    bind_res_simps by simp

lemma path_join_name: "c \<noteq> CHR ''/'' \<Longrightarrow> path_join d (c # x) = path_join d (c # y) \<longleftrightarrow> x = y"
  by (auto simp: path_join_def py_startswith_def)

lemma restarted_cache_files:
  assumes "read_cache_files w ini profile creds dir = Inr cache"
  shows "\<exists>cache'. read_cache_files (restarted h ord w) ini profile creds dir = Inr cache' \<and>
    (hash_digits h = hash_digits (wo_file_hash w) \<longrightarrow> cache' = cache) \<and>
    (hash_digits h \<noteq> hash_digits (wo_file_hash w) \<longrightarrow> cf_cache cache' \<notin> {cf_cache cache, cf_index cache})"
  using assms by (auto simp: read_cache_files_def bind_res_eq_Inr Let_def path_join_name hash_digits_def)

lemma restarted_tail:
  assumes "read_settings_tail w ini (st0, creds0, dir) = Inr (st, creds, cache)"
  shows "\<exists>cache'. read_settings_tail (restarted h ord w) ini (st0\<lparr>st_set_order := ord\<rparr>, creds0, dir) =
      Inr (st\<lparr>st_set_order := ord\<rparr>, creds, cache') \<and>
    (hash_digits h = hash_digits (wo_file_hash w) \<longrightarrow> cache' = cache) \<and>
    (hash_digits h \<noteq> hash_digits (wo_file_hash w) \<longrightarrow> cf_cache cache' \<notin> {cf_cache cache, cf_index cache})"
proof -
  from assms have files: "read_cache_files w ini (st_boto_profile st0) creds0 dir = Inr cache"
    by (auto simp: read_settings_tail_def bind_res_eq_Inr)
  from restarted_cache_files [OF this, of h ord] obtain cache' where
    "read_cache_files (restarted h ord w) ini (st_boto_profile st0) creds0 dir = Inr cache'"
    "hash_digits h = hash_digits (wo_file_hash w) \<longrightarrow> cache' = cache"
    "hash_digits h \<noteq> hash_digits (wo_file_hash w) \<longrightarrow> cf_cache cache' \<notin> {cf_cache cache, cf_index cache}" by blast
  with assms files show ?thesis
    by (intro exI [of _ cache']) (auto simp: read_settings_tail_def bind_res_eq_Inr)
qed

section \<open>Two runs\<close>

text \<open>What a run finds: the cache files of its settings, with these texts, and still young.\<close>

definition cache_ready :: "main_env \<Rightarrow> settings \<times> credentials \<times> cache_files \<Rightarrow> string \<Rightarrow> string \<Rightarrow> main_state \<Rightarrow> bool" where
  "cache_ready env scc ti tx s \<longleftrightarrow> (case scc of (st, creds, cache) \<Rightarrow>
     (\<exists>ini h. read_config (me_world env) (ms_fs s) = (Inr ini, ms_fs s) \<and>
        read_settings_head (me_world env) ini = Inr h \<and> read_settings_tail (me_world env) ini h = Inr scc \<and>
        fs_lookup (ms_fs s) (snd (snd h)) \<noteq> None) \<and>
     (truthy_opt (st_boto_profile st) \<longrightarrow> me_has_profiles env) \<and>
     fs_lookup (ms_fs s) (cf_cache cache) = Some (File ti) \<and> fs_lookup (ms_fs s) (cf_index cache) = Some (File tx) \<and>
     me_clock env (ms_readings s) < ms_mtimes s (cf_cache cache) + of_int (cf_max_age cache))"

definition fresh_state :: "credentials \<Rightarrow> main_state \<Rightarrow> main_state" where
  "fresh_state creds s = s\<lparr>ms_ec2 := ec2_init\<lparr>ei_credentials := creds\<rparr>, ms_readings := Suc (ms_readings s)\<rparr>"

lemma fresh_run:
  assumes "cache_ready env (st, creds, cache) ti tx s" and "\<not> ar_refresh_cache args"
  shows "run_inventory env args (s\<lparr>ms_ec2 := ec2_init\<rparr>) = data_to_print env args st cache (fresh_state creds s)"
proof -
  obtain ini h where h: "read_config (me_world env) (ms_fs s) = (Inr ini, ms_fs s)"
    "read_settings_head (me_world env) ini = Inr h" "read_settings_tail (me_world env) ini h = Inr (st, creds, cache)"
    "fs_lookup (ms_fs s) (snd (snd h)) \<noteq> None"
    using assms(1) by (auto simp: cache_ready_def)
  have io: "read_settings_io (me_world env) ini (ms_fs s) = (Inr (st, creds, cache), ms_fs s)"
    using read_settings_io_again [OF h(2,4)] h(3) by simp
  show ?thesis
    using assms io h(1) by (auto simp: cache_ready_def run_inventory_def refresh_when_needed_def check_profile_def is_cache_valid_def
        os_path_isfile_def read_clock_def on_ec2_def on_fs_def fresh_state_def py_defs)
qed

lemma uncached_run:
  assumes "read_config (me_world env) (ms_fs s) = (Inr ini, ms_fs s)"
    and "read_settings_head (me_world env) ini = Inr h" "read_settings_tail (me_world env) ini h = Inr (st, creds, cache)"
    and "fs_lookup (ms_fs s) (snd (snd h)) \<noteq> None" and "truthy_opt (st_boto_profile st) \<longrightarrow> me_has_profiles env"
    and "text_at (ms_fs s) (cf_cache cache) = None" and "\<not> ar_refresh_cache args"
  shows "run_inventory env args (s\<lparr>ms_ec2 := ec2_init\<rparr>) =
    py_bind (do_api_calls_update_cache env st cache) (\<lambda>_. data_to_print env args st cache)
      (s\<lparr>ms_ec2 := ec2_init\<lparr>ei_credentials := creds\<rparr>\<rparr>)"
proof -
  have io: "read_settings_io (me_world env) ini (ms_fs s) = (Inr (st, creds, cache), ms_fs s)"
    using read_settings_io_again [OF assms(2,4)] assms(3) by simp
  show ?thesis
    using assms io isfile_text [of "cf_cache cache" "ms_fs s"]
    by (auto simp: run_inventory_def refresh_when_needed_def check_profile_def is_cache_valid_def
        on_ec2_def on_fs_def py_defs)
qed

lemma print_cached:
  assumes "data_to_print env args st cache s = (Inr text, s1)" and "\<not> truthy_opt (ar_host args)" and "cached cache s"
  shows "s1 = s \<and> fs_lookup (ms_fs s) (cf_cache cache) = Some (File text)"
proof -
  obtain ti where ti: "json_dumps_pretty (PDict (ei_inventory (ms_ec2 s))) = Inr ti"
    "fs_lookup (ms_fs s) (cf_cache cache) = Some (File ti)" using assms(3) by (auto simp: cached_def)
  then show ?thesis using assms(1,2)
    by (auto simp: data_to_print_def get_inventory_from_cache_def py_bind_eq_Inr py_gets_def py_lift_def py_raise_def
        on_fs_eq json_format_dict_def files.read_held split: if_splits)
qed

lemma refreshing_run:
  assumes "run_inventory env args (s\<lparr>ms_ec2 := ec2_init\<rparr>) = (Inr text, s1)"
    and "ar_refresh_cache args" "\<not> truthy_opt (ar_host args)"
    and "fst (read_config (me_world env) (ms_fs s)) = Inr ini"
    and "read_settings (me_world env) ini = Inr (st, creds, cache)"
    and "config_paths (me_world env) \<inter> {cf_cache cache, cf_index cache} = {}"
  shows "cached cache s1 \<and> fs_lookup (ms_fs s1) (cf_cache cache) = Some (File text) \<and>
    (truthy_opt (st_boto_profile st) \<longrightarrow> me_has_profiles env) \<and>
    (\<exists>h. read_config (me_world env) (ms_fs s1) = (Inr ini, ms_fs s1) \<and> read_settings_head (me_world env) ini = Inr h \<and>
       read_settings_tail (me_world env) ini h = Inr (st, creds, cache) \<and> fs_lookup (ms_fs s1) (snd (snd h)) \<noteq> None)"
proof -
  let ?w = "me_world env"
  let ?s2 = "\<lambda>x fs. s\<lparr>ms_fs := fs, ms_ec2 := ec2_init\<lparr>ei_credentials := fst (snd x)\<rparr>\<rparr>"
  have conf: "read_config ?w (ms_fs s) = (Inr ini, ms_fs s)"
    using assms(4) read_config_texts [of ?w "ms_fs s" "ms_fs s"] by (simp add: prod_eq_iff)
  obtain x fs0 s3 s4 where run: "read_settings_io ?w ini (ms_fs s) = (Inr x, fs0)"
    "check_profile env (fst x) (?s2 x fs0) = (Inr (), s3)"
    "do_api_calls_update_cache env (fst x) (snd (snd x)) s3 = (Inr (), s4)"
    "data_to_print env args (fst x) (snd (snd x)) s4 = (Inr text, s1)"
    using assms(1,2) conf by (auto simp: run_inventory_def py_bind_eq_Inr refresh_when_needed_def case_prod_beta on_ec2_eq
        on_fs_eq py_modify_def)
  obtain h where h: "read_settings_head ?w ini = Inr h" "read_settings_tail ?w ini h = Inr x"
    "fs_lookup fs0 (snd (snd h)) \<noteq> None" using read_settings_io_eq_Inr [OF run(1)] by blast
  then have x: "x = (st, creds, cache)" using assms(5) by (simp add: read_settings_def)
  have p: "s3 = ?s2 x fs0" "truthy_opt (st_boto_profile st) \<longrightarrow> me_has_profiles env"
    using run(2) x by (auto simp: check_profile_def py_when_def py_return_def fail_with_error_def py_raise_def split: if_splits)
  have c: "cached cache s4" "fs_lookup (ms_fs s4) (snd (snd h)) \<noteq> None"
    "\<And>q. q \<notin> {cf_cache cache, cf_index cache} \<Longrightarrow> text_at (ms_fs s4) q = text_at fs0 q"
    using update_cache_eq_Inr [of env st cache s3 s4] cache_paths_differ [of ?w ini h st creds cache] run(3) h x p
    by auto
  have s1: "s1 = s4 \<and> fs_lookup (ms_fs s4) (cf_cache cache) = Some (File text)"
    by (rule print_cached [OF _ assms(3) c(1)]) (use run(4) x in simp)
  have "text_at (ms_fs s1) q = text_at (ms_fs s) q" if "q \<in> config_paths ?w" for q
    using c(3) [of q] that assms(6) s1 read_settings_io_texts [of ?w ini "ms_fs s" q] run(1) by auto
  then have "fst (read_config ?w (ms_fs s1)) = Inr ini"
    using read_config_texts [of ?w "ms_fs s1" "ms_fs s"] conf by simp
  then have "read_config ?w (ms_fs s1) = (Inr ini, ms_fs s1)"
    using read_config_texts [of ?w "ms_fs s1" "ms_fs s1"] by (simp add: prod_eq_iff)
  with c(1,2) p h x s1 show ?thesis by auto
qed

section \<open>A host from the cached index\<close>

lemma get_instance_account:
  assumes "get_instance env st region i s = (Inr inst, s')"
  shows "ei_aws_account_id (ms_ec2 s') = ei_aws_account_id (ms_ec2 s)"
proof -
  let ?P = "\<lambda>e. ei_aws_account_id e = ei_aws_account_id (ms_ec2 s)"
  have "ignores_credentials ?P" by (simp add: ignores_credentials_def)
  then have "?P (snd (connect st (me_cloud env) region (ms_ec2 s)))" by (rule keepsD [OF connect_keeps]) simp
  moreover have "snd (connect st (me_cloud env) region (ms_ec2 s)) = ms_ec2 s'"
    using assms by (auto simp: get_instance_def py_bind_eq_Inr py_lift_def on_ec2_eq)
  ultimately show ?thesis by simp
qed

lemma host_data_account:
  assumes "ei_aws_account_id (ms_ec2 s) = account"
  shows "host_data env st (PList [PStr r, i]) s =
    py_bind (get_instance env st r i) (\<lambda>inst.
      py_lift (bind_res (get_host_info_dict_from_instance st account inst) (\<lambda>d. json_format_dict d True))) s"
proof (cases "get_instance env st r i s")
  case (Pair res s')
  have "host_data env st (PList [PStr r, i]) =
      py_bind (get_instance env st r i) (\<lambda>inst. py_bind (py_gets (\<lambda>s. ei_aws_account_id (ms_ec2 s))) (\<lambda>account.
        py_lift (bind_res (get_host_info_dict_from_instance st account inst) (\<lambda>d. json_format_dict d True))))"
    by (simp add: host_data_def index_entry_def py_elements_def py_string_def)
  with Pair get_instance_account [of env st r i s _ s'] assms show ?thesis
    by (cases res) (simp_all add: py_bind_def py_gets_def)
qed

lemma index_loads:
  assumes "json_plain (PDict d)" and "json_dumps_pretty (PDict d) = Inr tx"
    and "fs_lookup (ms_fs s) (cf_index cache) = Some (File tx)"
  shows "\<exists>d'. load_index_from_cache cache s = (Inr (), s\<lparr>ms_ec2 := (ms_ec2 s)\<lparr>ei_index := d'\<rparr>\<rparr>) \<and>
    (\<forall>k. dict_get d' k = map_option json_sorted (dict_get d k))"
proof -
  obtain d' where d': "json_sorted (PDict d) = PDict d'" "\<forall>k. dict_get d' k = map_option json_sorted (dict_get d k)"
    using sorted_dict [OF assms(1)] by blast
  have "json_loads tx = Inr (PDict d')"
    using assms(1,2) d'(1) json_loads_text [OF json_plain_sorted [OF assms(1)]]
    by (auto simp: json_dumps_pretty_def split: if_splits)
  with assms(3) d'(2) show ?thesis
    by (auto simp: load_index_from_cache_def files.read_held on_fs_def on_ec2_def py_defs)
qed

lemma cached_list:
  "fs_lookup (ms_fs s) (cf_cache cache) = Some (File text) \<Longrightarrow> ei_inventory (ms_ec2 s) = empty_inventory \<Longrightarrow>
   ar_list args \<Longrightarrow> \<not> truthy_opt (ar_host args) \<Longrightarrow> data_to_print env args st cache s = (Inr text, s)"
  by (simp add: data_to_print_def get_inventory_from_cache_def files.read_held on_fs_def py_defs)

lemma cached_host:
  assumes "json_plain (PDict d)" and "json_dumps_pretty (PDict d) = Inr tx"
    and "fs_lookup (ms_fs s) (cf_index cache) = Some (File tx)"
    and "ei_index (ms_ec2 s) = []" and "dict_get d (PStr h) = Some (PList [PStr r, PStr i])"
    and "ar_host args = Some h" "h \<noteq> []"
  shows "\<exists>s2. ms_fs s2 = ms_fs s \<and> ei_aws_account_id (ms_ec2 s2) = ei_aws_account_id (ms_ec2 s) \<and>
    data_to_print env args st cache s = host_data env st (PList [PStr r, PStr i]) s2"
proof -
  obtain d' where "load_index_from_cache cache s = (Inr (), s\<lparr>ms_ec2 := (ms_ec2 s)\<lparr>ei_index := d'\<rparr>\<rparr>)"
    "\<forall>k. dict_get d' k = map_option json_sorted (dict_get d k)" using index_loads [OF assms(1-3)] by blast
  then show ?thesis using assms(4-7)
    by (intro exI [of _ "s\<lparr>ms_ec2 := (ms_ec2 s)\<lparr>ei_index := d'\<rparr>\<rparr>"])
      (simp add: data_to_print_def truthy_opt_def get_host_info_def index_of_def py_bind_def py_gets_def)
qed

lemma ec2_inventory_run:
  "parse_cli_args argv = Inr args \<Longrightarrow>
   ec2_inventory env argv s = run_inventory (with_args args env) args (s\<lparr>ms_ec2 := ec2_init\<rparr>)"
  by (simp add: ec2_inventory_def py_defs on_ec2_def)

text \<open>
  C40. When a run answers from the cache of the refresh before it, and when it cannot.  A refresh has
  printed \<open>text\<close>, its cache files not being its ini files.  The script is started again, for the same
  profile, with whatever answers the cloud has now and with the salt of the new process, which changes
  the order of sets and \<open>hash(__file__)\<close>.  If the digits that the names of the cache files take from this
  hash happen to be the same, a run that starts before the inventory file is older than \<open>cache_max_age\<close>
  prints \<open>text\<close> again and makes no query; for a host of the index it asks for the instance and region that
  the refresh had entered, with \<open>ec2_account_id\<close> now \<open>None\<close>, as the account is not cached.  If the digits
  differ, it looks for other files than the refresh has written and, when there is none, makes all the
  queries again, however young the cache is.
\<close>

theorem cached_run_repeats:
  assumes "ec2_inventory env argv s = (Inr text, s1)" and "parse_cli_args argv = Inr args"
    and "ar_refresh_cache args" "\<not> truthy_opt (ar_host args)"
    and "fst (read_config (me_world (with_args args env)) (ms_fs s)) = Inr ini"
    and "read_settings (me_world (with_args args env)) ini = Inr (st, creds, cache)"
    and "config_paths (me_world (with_args args env)) \<inter> {cf_cache cache, cf_index cache} = {}"
    and "me_clock env (ms_readings s1) < ms_mtimes s1 (cf_cache cache) + of_int (cf_max_age cache)"
    and "parse_cli_args argv' = Inr args'" and "\<not> ar_refresh_cache args'"
    and "ar_boto_profile args' = ar_boto_profile args"
    and "env' = env\<lparr>me_world := restarted file_hash set_order (me_world env), me_cloud := cl, me_instances := insts,
      me_fuel := fuel\<rparr>"
    and "st' = st\<lparr>st_set_order := set_order\<rparr>"
  shows "if hash_digits file_hash = hash_digits (wo_file_hash (me_world env))
    then (\<not> truthy_opt (ar_host args') \<longrightarrow> ec2_inventory env' argv' s1 = (Inr text, fresh_state creds s1)) \<and>
      (\<forall>h r i. ar_host args' = Some h \<and> h \<noteq> [] \<and> json_plain (PDict (ei_index (ms_ec2 s1))) \<and>
         dict_get (ei_index (ms_ec2 s1)) (PStr h) = Some (PList [PStr r, PStr i]) \<longrightarrow>
         (\<exists>s2. ms_fs s2 = ms_fs s1 \<and> ec2_inventory env' argv' s1 =
            py_bind (get_instance (with_args args' env') st' r (PStr i)) (\<lambda>inst.
              py_lift (bind_res (get_host_info_dict_from_instance st' PNone inst) (\<lambda>d. json_format_dict d True))) s2))
    else \<exists>cache'. read_settings (me_world (with_args args' env')) ini = Inr (st', creds, cache') \<and>
      cf_cache cache' \<notin> {cf_cache cache, cf_index cache} \<and>
      (text_at (ms_fs s1) (cf_cache cache') = None \<longrightarrow>
         ec2_inventory env' argv' s1 =
           py_bind (do_api_calls_update_cache (with_args args' env') st' cache')
             (\<lambda>_. data_to_print (with_args args' env') args' st' cache')
             (s1\<lparr>ms_ec2 := ec2_init\<lparr>ei_credentials := creds\<rparr>\<rparr>))"
proof -
  let ?e = "with_args args env" and ?e' = "with_args args' env'"
  let ?w = "me_world ?e" and ?same = "hash_digits file_hash = hash_digits (wo_file_hash (me_world env))"
  note run = refreshing_run [OF assms(1) [unfolded ec2_inventory_run [OF assms(2)]] assms(3-7)]
  then obtain tx where tx: "json_dumps_pretty (PDict (ei_index (ms_ec2 s1))) = Inr tx"
    "fs_lookup (ms_fs s1) (cf_index cache) = Some (File tx)" by (auto simp: cached_def)
  have e': "me_world ?e' = restarted file_hash set_order ?w" "me_clock ?e' = me_clock env"
    "me_has_profiles ?e' = me_has_profiles ?e" "wo_file_hash ?w = wo_file_hash (me_world env)"
    by (simp_all add: with_args_def restarted_def assms(11,12))
  from run obtain st0 creds0 dir where h: "read_config ?w (ms_fs s1) = (Inr ini, ms_fs s1)"
    "read_settings_head ?w ini = Inr (st0, creds0, dir)" "read_settings_tail ?w ini (st0, creds0, dir) = Inr (st, creds, cache)"
    "fs_lookup (ms_fs s1) dir \<noteq> None" by auto
  from restarted_tail [OF h(3), of file_hash set_order] obtain cache' where
    tail: "read_settings_tail (me_world ?e') ini (st0\<lparr>st_set_order := set_order\<rparr>, creds0, dir) = Inr (st', creds, cache')"
    and names: "?same \<longrightarrow> cache' = cache" "\<not> ?same \<longrightarrow> cf_cache cache' \<notin> {cf_cache cache, cf_index cache}"
    unfolding e' assms(13) by blast
  have head: "read_settings_head (me_world ?e') ini = Inr (st0\<lparr>st_set_order := set_order\<rparr>, creds0, dir)"
    by (simp add: e' restarted_head h(2))
  have conf: "read_config (me_world ?e') (ms_fs s1) = (Inr ini, ms_fs s1)" by (simp add: e' h(1))
  have prof: "truthy_opt (st_boto_profile st') \<longrightarrow> me_has_profiles ?e'" using run by (simp add: e' assms(13))
  note second = ec2_inventory_run [OF assms(9), of env' s1]
  show ?thesis
  proof (cases ?same)
    case False
    have "read_settings (me_world ?e') ini = Inr (st', creds, cache')" using head tail by (simp add: read_settings_def)
    moreover have "ec2_inventory env' argv' s1 = py_bind (do_api_calls_update_cache ?e' st' cache')
        (\<lambda>_. data_to_print ?e' args' st' cache') (s1\<lparr>ms_ec2 := ec2_init\<lparr>ei_credentials := creds\<rparr>\<rparr>)"
      if "text_at (ms_fs s1) (cf_cache cache') = None"
      using uncached_run [OF conf head tail _ prof that assms(10)] h(4) second by simp
    ultimately show ?thesis using False names(2) by auto
  next
    case True
    have ready: "cache_ready ?e' (st', creds, cache) text tx s1"
      using run tx assms(8) conf head tail names(1) True h(4) prof by (auto simp: cache_ready_def e'(2))
    let ?f = "fresh_state creds s1"
    have f: "ms_fs ?f = ms_fs s1" "ei_inventory (ms_ec2 ?f) = empty_inventory" "ei_index (ms_ec2 ?f) = []"
      "ei_aws_account_id (ms_ec2 ?f) = PNone"
      by (simp_all add: fresh_state_def ec2_init_def)
    have print: "ec2_inventory env' argv' s1 = data_to_print ?e' args' st' cache ?f"
      using fresh_run [OF ready assms(10)] second by simp
    have "ec2_inventory env' argv' s1 = (Inr text, ?f)" if "\<not> truthy_opt (ar_host args')"
      using cached_list [of ?f cache "text" args' ?e' st'] run f that parse_cli_args_list [OF assms(9)] by (simp add: print)
    moreover have "\<exists>s2. ms_fs s2 = ms_fs s1 \<and> ec2_inventory env' argv' s1 =
        py_bind (get_instance ?e' st' r (PStr i)) (\<lambda>inst.
          py_lift (bind_res (get_host_info_dict_from_instance st' PNone inst) (\<lambda>d. json_format_dict d True))) s2"
      if host: "ar_host args' = Some h" "h \<noteq> []" and plain: "json_plain (PDict (ei_index (ms_ec2 s1)))"
        and i: "dict_get (ei_index (ms_ec2 s1)) (PStr h) = Some (PList [PStr r, PStr i])" for h r i
    proof -
      have "fs_lookup (ms_fs ?f) (cf_index cache) = Some (File tx)" by (simp add: f(1) tx(2))
      from cached_host [OF plain tx(1) this f(3) i host, of ?e' st'] f host_data_account
      show ?thesis unfolding print by auto
    qed
    ultimately show ?thesis using True by simp
  qed
qed

section \<open>A sample\<close>

definition main_ini :: string where
  "main_ini = ''[ec2]'' @ newline @ ''cache_path: %(base)s'' @ newline @ ''regions = eu'' @ newline @
     ''elasticache = no'' @ newline @ ''base = /c'' @ newline"

definition main_sample :: main_env where
  "main_sample = \<lparr>me_world = \<lparr>wo_environ = (\<lambda>_. None), wo_ec2_regions = [], wo_euca_region = (\<lambda>_. Inl AttributeError),
       wo_pwd = (\<lambda>_. None), wo_pwd_self = ''/root'', wo_file = ''/s/ec2.py'', wo_file_hash = 42,
       wo_compile = (\<lambda>_. Inl ValueError), wo_format = (\<lambda>_ _. Inl ValueError), wo_set_order = (\<lambda>_. []),
       wo_args_profile = None\<rparr>,
     me_cloud = sample_cloud\<lparr>cl_all_instances := (\<lambda>_ _. Inr [])\<rparr>,
     me_instances = (\<lambda>_ _. Inr []), me_has_profiles = True, me_clock = (\<lambda>_. 0), me_fuel = 1\<rparr>"

definition main_start :: main_state where
  "main_start = \<lparr>ms_ec2 = ec2_init, ms_fs = \<lparr>fs_inodes = [(''/s'', Dir), (''/s/ec2.ini'', File main_ini)],
     fs_refused = (\<lambda>_. False)\<rparr>, ms_mtimes = (\<lambda>_. 0), ms_readings = 0\<rparr>"

definition main_config :: "config res" where
  "main_config = fst (read_config (me_world main_sample) (ms_fs main_start))"

lemma main_sample_settings:
  "case main_config of Inl e \<Rightarrow> False | Inr ini \<Rightarrow>
    (case read_settings (me_world main_sample) ini of Inl e \<Rightarrow> False
     | Inr (st, creds, cache) \<Rightarrow> cf_max_age cache = 300 \<and> cf_cache cache = ''/c/ansible-ec2-2.cache'' \<and>
         cf_index cache = ''/c/ansible-ec2-2.index'')"
  by code_simp

lemma main_sample_paths: "config_paths (me_world main_sample) = {''/s/ec2.ini''}"
  by code_simp

lemma main_sample_run:
  "case ec2_inventory main_sample [''--refresh''] main_start of (r, s1) \<Rightarrow>
     (case r of Inl e \<Rightarrow> False | Inr text \<Rightarrow> text \<noteq> []) \<and> ms_mtimes s1 ''/c/ansible-ec2-2.cache'' = 0"
  by code_simp

lemma main_sample_args:
  "parse_cli_args [''--refresh''] = Inr (default_args\<lparr>ar_refresh_cache := True\<rparr>)" "parse_cli_args [] = Inr default_args"
  by code_simp+

definition sample_cache :: cache_files where
  "sample_cache = \<lparr>cf_cache = ''/s/x.cache'', cf_index = ''/s/x.index'', cf_max_age = 300\<rparr>"

theorem cache_roundtrip_witness:
  "\<exists>s1 s2. write_to_cache main_sample [(PStr ''b'', PList [PInt (-5), PNone]), (PStr ''a'', PStr [CHR 34, CHR 10])]
      ''/s/x.cache'' main_start = (Inr (), s1) \<and>
    write_to_cache main_sample [(PStr ''h'', PList [PStr ''eu'', PStr ''i-1''])] ''/s/x.index'' s1 = (Inr (), s2) \<and>
    ei_index (ms_ec2 (snd (load_index_from_cache sample_cache s2))) = [(PStr ''h'', PList [PStr ''eu'', PStr ''i-1''])] \<and>
    bind_res (fst (get_inventory_from_cache sample_cache s2)) json_loads =
      Inr (PDict [(PStr ''a'', PStr [CHR 34, CHR 10]), (PStr ''b'', PList [PInt (-5), PNone])])"
proof -
  let ?inv = "[(PStr ''b'', PList [PInt (-5), PNone]), (PStr ''a'', PStr [CHR 34, CHR 10])]"
  let ?idx = "[(PStr ''h'', PList [PStr ''eu'', PStr ''i-1''])]"
  have plain: "json_plain (PDict ?inv)" "json_plain (PDict ?idx)" by (simp_all add: is_PStr_def)
  have sorted: "json_sorted (PDict ?inv) = PDict [(PStr ''a'', PStr [CHR 34, CHR 10]), (PStr ''b'', PList [PInt (-5), PNone])]"
    "json_sorted (PDict ?idx) = PDict ?idx" by code_simp+
  have paths: "cf_cache sample_cache = ''/s/x.cache''" "cf_index sample_cache = ''/s/x.index''"
    "cf_cache sample_cache \<noteq> cf_index sample_cache" by (simp_all add: sample_cache_def)
  have "dirname ''/s/x.cache'' = ''/s''" "dirname ''/s/x.index'' = ''/s''" by code_simp+
  then have "writable (ms_fs main_start) (cf_cache sample_cache)" "writable (ms_fs main_start) (cf_index sample_cache)"
    by (simp_all add: writable_def paths main_start_def fs_lookup_def dict_get_def)
  from cache_roundtrip [OF plain paths(3) this, of main_sample] show ?thesis
    unfolding paths sorted by auto
qed

theorem cached_run_repeats_witness:
  "\<exists>text s1. ec2_inventory main_sample [''--refresh''] main_start = (Inr text, s1) \<and> text \<noteq> [] \<and>
     fst (ec2_inventory (main_sample\<lparr>me_world := restarted 12 (\<lambda>_. []) (me_world main_sample), me_cloud := sample_cloud,
       me_instances := (\<lambda>_ _. Inl KeyError), me_fuel := 0\<rparr>) [] s1) = Inr text"
proof -
  let ?args = "default_args\<lparr>ar_refresh_cache := True\<rparr>"
  have env: "with_args ?args main_sample = main_sample"
    by (simp add: with_args_def default_args_def main_sample_def)
  obtain ini st creds cache where c: "fst (read_config (me_world main_sample) (ms_fs main_start)) = Inr ini"
    "read_settings (me_world main_sample) ini = Inr (st, creds, cache)"
    "cf_max_age cache = 300" "cf_cache cache = ''/c/ansible-ec2-2.cache''" "cf_index cache = ''/c/ansible-ec2-2.index''"
    using main_sample_settings by (auto simp: main_config_def split: sum.splits)
  obtain t s1 where r: "ec2_inventory main_sample [''--refresh''] main_start = (Inr t, s1)" "t \<noteq> []"
    "ms_mtimes s1 ''/c/ansible-ec2-2.cache'' = 0"
    using main_sample_run by (auto split: sum.splits prod.splits)
  have age: "me_clock main_sample (ms_readings s1) < ms_mtimes s1 (cf_cache cache) + of_int (cf_max_age cache)"
    using c r by (simp add: main_sample_def)
  have paths: "config_paths (me_world main_sample) \<inter> {cf_cache cache, cf_index cache} = {}"
    using c(4,5) by (simp add: main_sample_paths)
  have conf: "fst (read_config (me_world (with_args ?args main_sample)) (ms_fs main_start)) = Inr ini"
    "read_settings (me_world (with_args ?args main_sample)) ini = Inr (st, creds, cache)"
    "config_paths (me_world (with_args ?args main_sample)) \<inter> {cf_cache cache, cf_index cache} = {}"
    by (simp_all only: env c(1,2) paths)
  have args: "ar_refresh_cache ?args" "\<not> truthy_opt (ar_host ?args)" "\<not> ar_refresh_cache default_args"
    "ar_boto_profile default_args = ar_boto_profile ?args" "\<not> truthy_opt (ar_host default_args)"
    by (simp_all add: default_args_def truthy_opt_def)
  have digits: "hash_digits 12 = hash_digits (wo_file_hash (me_world main_sample))" by code_simp
  from cached_run_repeats [OF r(1) main_sample_args(1) args(1,2) conf age main_sample_args(2) args(3,4) refl refl,
      where file_hash = 12 and set_order = "\<lambda>_. []" and cl = sample_cloud and insts = "\<lambda>_ _. Inl KeyError" and fuel = 0]
    r(1,2) args(5) digits
  show ?thesis by simp
qed

end
