(* ===== verification/Spec2Isabelle.thy ===== *)
theory Spec2Isabelle
  imports Prelude PyDict PyStr Bytes Message Generator UdpClient Tracker Consistency QueueSize
    RedisListener Tester TestRun ListenerLog System Sweep QueueRun Experiments Demos PyVal Inventory HostInfo Ec2Instance
    Ec2Services InventoryInv Ec2Api Ec2Region Ec2RegionInv Refresh FileSystem FileSystemProps Ini Settings
    SettingsProps IniProps CommandLine Json JsonRoundtrip ProcessManager ProcessManagerProps TestConfig Ec2Main
    Ec2MainProps
begin

text \<open>
  Verification library for the Python code of the reliable-broadcast repository.

  The program.  The broadcast nodes themselves are C++ (src/).  Around them stand three groups of Python
  scripts.  client/ is a load tester: a \<open>Tester\<close> sends generated messages to the nodes over UDP
  (\<open>UdpClient\<close>, \<open>Message\<close>), reads what the nodes deliver from their Redis queues (\<open>RedisListener\<close>), and
  tells a subclass about both through hooks; \<open>ConsistencyTester\<close> counts which messages every node has
  delivered, \<open>QueueSizeTester\<close> how many are under way, and test.py sweeps them over message rates.
  ops/ansible/ec2.py is the dynamic inventory of the deployment: it asks AWS for instances, databases
  and caches, groups them under names, and prints and caches the result as JSON.  process_manager/
  writes the configuration files and FIFOs of a node, ops/tests/generate_configs.py those of a test network.

  The language.  A statement over a state \<open>'s\<close> is a function to a result and a state (\<open>('s, 'a) py\<close> of
  Prelude); an exception is the left result and keeps the state it was raised in.  \<open>py_for\<close>, \<open>py_when\<close>,
  \<open>py_block\<close> and \<open>py_except\<close> are the control structures, \<open>keeps\<close> and \<open>ensures\<close> the invariants and
  postconditions.  PyDict has dictionaries in insertion order, PyStr the methods of strings, Bytes the
  integers and texts in bytes (a byte is an \<open>8 word\<close>, UTF-8 is encoded and decoded), PyVal the values
  whose type is known only at run time.  The code is read as Python 3.6, the last version it fits.

  The load tester.
  \<^item> Message (client/message.py) has both encoders, and the parser of the server (src/abstract_message.cpp,
    src/message.cpp) beside them: C1 and C2 are the round trip and the range errors,
    \<open>packet_encode_read_as_echo\<close> the packet bug.
  \<^item> Generator (\<open>string_generator\<close>) is a suspended generator: C3 and C4 say it counts in base 26 and
    reaches every word.
  \<^item> UdpClient (udp_client.py): \<open>udp_send_outcome\<close> every branch of a send, C5 sessions are fresh, C6 what a
    run of sends puts on the wire, \<open>udp_instances_collide\<close> the shared start nonce.
  \<^item> Tracker has the bookkeeping both testers share; Consistency (consistency_tester.py) and QueueSize
    (queue_size_tester.py) have the hooks and reports.  C7 relates the consistency report to the history
    of hook calls; C9 has the queue report entry by entry, one for each call that changes the number in
    process.  C8 says exactly when a hook raises, \<open>queue_tester_before_start\<close> what the queue tester does
    before a test.
  \<^item> RedisListener (redis_listener.py) is a machine whose moves are arriving replies and rounds of
    \<open>_listen\<close>: C10 lockstep, C11 progress, \<open>silent_node_blocks_listener\<close> one silent node, C14 the shared
    class attributes.  ListenerLog separates what a listener delivers from what its handlers do with it.
  \<^item> Tester (tester.py) is the coroutine \<open>test\<close> over hooks, a client, and an environment of clock lags
    and deliveries: C15 the calls it makes, C16 its rate, \<open>test_ends_quiet\<close> its end, C17 bad inputs.
    \<open>hears\<close> says that what a test is told of are all the arrivals of its sleeps.  TestRun puts the testers
    and the UDP client into it: C18 it returns, C19 its report is that of its own sends and arrivals, C22
    every message it counts is on the wire.
  \<^item> System joins tester and listener: the constructors of both testers (\<open>tester_init\<close>, \<open>listen\<close>), and the
    environment \<open>fed_env\<close> in which the deliveries of a sleep are those of the tester's own listener.
    \<open>sleep_runs_listener\<close>: the model of a sleep is the listener at work.  C12: a test has been told exactly
    the first \<open>k\<close> answers of every node, \<open>k\<close> being the turns of the loop at which all nodes had one.
    C13: the slowest node bounds the report.
  \<^item> Sweep has the two sweeps of test.py, QueueRun a whole queue-size test, Experiments the script from the
    addresses of test_config.py to the data of its plots: C20 and C21 for the two experiments.  Demos has the
    demonstration scripts of client.py and tester.py.

  The inventory (ops/ansible/ec2.py).
  \<^item> Inventory has the state, \<open>push\<close> and \<open>push_group\<close>, and their refinement to groups of hosts and children
    (C23).  HostInfo has the host variables, Ec2Instance \<open>add_instance\<close>, Ec2Services the three methods for
    RDS and ElastiCache.  InventoryInv: C24 hosts are kept, C25 nested groups exist, C26 an instance is
    registered.
  \<^item> Ec2Api has connecting, the filters and the error reports, Ec2Region the queries.  Ec2RegionInv: C27
    the filters against their reference, C28 the tags in chunks, C29 what a region query enters.  Refresh:
    C30 the invariant over all regions, C31 the ARNs of the pages of RDS, C32 the reports.
  \<^item> CommandLine has \<open>parse_cli_args\<close> with what \<open>argparse\<close> does for its options: C33.
  \<^item> Ini has \<open>configparser\<close>: the reader of lines (\<open>read_line\<close>), the sections over their defaults, and the
    interpolation of values.  Settings has \<open>read_settings\<close>, from finding the file (\<open>read_config\<close>) to each
    option.  IniProps: C34 a written file is read back; SettingsProps: C35 the filter syntax, C36
    well-formed settings.
  \<^item> Json has \<open>json.dumps\<close> and \<open>json.loads\<close> of the standard library, JsonRoundtrip that they are inverse.
  \<^item> Ec2Main has the constructor, from the command line to the printed text, with the cache and \<open>--host\<close>;
    Ec2MainProps: C39 what is written to the cache is what is read from it, C40 when a later run repeats
    the refresh from the cache and when it queries everything again.

  The node set-up.  FileSystem has the calls of \<open>os\<close>, FileSystemProps that they keep a tree; ProcessManager
  has the four scripts of process_manager/, ProcessManagerProps C37, what \<open>init_configs\<close> leaves behind.
  TestConfig has \<open>generate_conf\<close> of ops/tests/: C38, the files of every machine read back.

  Interfaces.  \<open>fresh_source\<close> (Generator) is what a run needs of its message source, \<open>message_client\<close>
  (UdpClient) what it needs of its client, \<open>test_subject\<close> (Tester) what it needs of both and of the hooks;
  \<open>delivery_tracker\<close> (Tracker) is the bookkeeping of the two reports, \<open>guarded_component\<close> (Prelude) a state
  whose calls keep an invariant.  \<open>kv_store\<close> (PyDict) are the laws of a dictionary, \<open>group_store\<close>
  (Inventory) those of the inventory, \<open>text_store\<close> (FileSystemProps) those of the files that the cache and
  the configuration scripts write and read back.  Each is interpreted on the model of the code that
  provides it.

  Bounds and fuel.  Both loops of \<open>test\<close> take the number of rounds they may make, and \<open>test\<close> has the
  result \<open>None\<close> when one of them runs out; C18 shows that more than rate times duration plus one is
  enough for the sending loop, and two more than the sleeps after which nothing arrives for the wait; C20
  and C21 need as many for their fastest rates.  The loops over the pages of a query take the number of
  pages, \<open>json_loads\<close> takes the length of the text, which
  \<open>json_roundtrip\<close> shows to be enough; they end in \<open>NotReturned\<close>, which no handler of the code catches, as does
  opening a FIFO that nobody reads.  The demonstration loops, which never end, take the number of
  rounds to look at.

  Abstractions.  Clock readings are rationals and never go back; floats are rationals.  Characters are
  Latin-1.  The keys of a dictionary are taken to be hashable.  The file system has absolute, normalised
  paths and one user.  A value printed or logged is left out, except the text that ec2.py prints and
  the message it exits with.  \<open>str\<close> of an object, whose text holds an address, is a \<open>TypeError\<close> in the model.
  A reply of Redis always comes with a value: the exceptions that a broken connection raises out of
  \<open>task.result()\<close> are not moves of the listener, which then would have stopped like after a handler's.

  Parameters.  Sockets (\<open>sendto\<close>), Redis, the event loop, websockets, boto and boto3, \<open>re.compile\<close>,
  \<open>str.format\<close> of configured formats, the set order and \<open>hash\<close> (which differ from process to process:
  \<open>restarted\<close>), \<open>__file__\<close>, the environment variables, the user database, the list of machines and the clock
  are arguments.

  Not modelled.  The drawing of matplotlib; the logging of process_manager/; the usage and help texts of
  argparse; the C++ node apart from its parser; the Terraform, Docker and Ansible descriptions.
\<close>

end
